theory Spec2Isabelle
  imports Complex_Main
begin

section \<open>Values, memory and tensors\<close>

text \<open>
  The kernels of \<^verbatim>\<open>flash_attention.py\<close> work on device memory through
  pointers and integer offsets. Memory is one flat array of numbers, addressed by element;
  a pointer is an address. Arithmetic is over the reals: rounding and overflow of the
  32-bit floating-point format are not part of this development; in particular the
  exponential of a finite number is positive here, where the device rounds it to 0 once
  the argument is below about -104. What is stated below of the values computed on the
  example inputs is stated as bounds, never as the equality of two rounded numbers. The
  one non-finite value the source writes down, \<^verbatim>\<open>-float('inf')\<close> (the
  initial running maximum), is an extra element \<open>NegInf\<close>.
\<close>

type_synonym memory = "nat \<Rightarrow> real"

datatype xreal = NegInf | Fin real

text \<open>
  Exceptions of the host code. \<open>NonFinite\<close> is not a Python exception: it marks a
  kernel instance that would store an infinity or a NaN (a division by a zero
  denominator, the logarithm of zero, a running maximum that is still \<open>-inf\<close>),
  which a real-valued memory cannot hold.
\<close>

datatype error =
    AssertionError
  | TypeError string
  | ValueError string
  | IndexError
  | KeyError string
  | AttributeError string
  | ZeroDivisionError
  | NonFinite

text \<open>Sequencing of fallible steps: the first exception ends the call.\<close>

definition ebind :: "error + 'a \<Rightarrow> ('a \<Rightarrow> error + 'b) \<Rightarrow> error + 'b" where
  "ebind m f = (case m of Inl e \<Rightarrow> Inl e | Inr x \<Rightarrow> f x)"

definition py_assert :: "bool \<Rightarrow> error + unit" where
  "py_assert b = (if b then Inr () else Inl AssertionError)"

text \<open>
  A \<^verbatim>\<open>torch.Tensor\<close>: where its data starts, its sizes and its strides (in
  elements). Its contents live in memory.
\<close>

record tensor =
  data_ptr :: nat
  shape :: "nat list"
  stride :: "nat list"

text \<open>\<^verbatim>\<open>t.shape[-1]\<close> and \<^verbatim>\<open>t.stride(k)\<close>; both raise IndexError out of range.\<close>

definition shape_last :: "tensor \<Rightarrow> error + nat" where
  "shape_last t = (case shape t of [] \<Rightarrow> Inl IndexError | _ \<Rightarrow> Inr (last (shape t)))"

definition stride_at :: "tensor \<Rightarrow> nat \<Rightarrow> error + nat" where
  "stride_at t k = (if k < length (stride t) then Inr (stride t ! k) else Inl IndexError)"

text \<open>
  The strides PyTorch gives a freshly allocated tensor of a shape: row-major, the stride
  of an axis being the product of the later sizes, a size 0 counted as 1.
\<close>

fun contiguous_strides :: "nat list \<Rightarrow> nat list" where
  "contiguous_strides [] = []"
| "contiguous_strides (n # ns) = prod_list (map (max 1) ns) # contiguous_strides ns"

text \<open>
  \<^verbatim>\<open>t.is_contiguous()\<close>: walking the axes from the last one, every axis of size
  other than 1 has the stride of the row-major layout; a tensor with no element is
  contiguous.
\<close>

fun contig_from :: "nat \<Rightarrow> (nat \<times> nat) list \<Rightarrow> bool" where
  "contig_from z [] = True"
| "contig_from z ((n, s) # rest) = ((n = 1 \<or> s = z) \<and> contig_from (z * n) rest)"

definition is_contiguous :: "tensor \<Rightarrow> bool" where
  "is_contiguous t = (0 \<in> set (shape t) \<or> contig_from 1 (rev (zip (shape t) (stride t))))"

text \<open>
  PyTorch's test that a tensor is non-overlapping and dense: the axes of size 2 or more,
  taken by ascending stride, have the strides 1, then the size of the first, then the
  product of the sizes of the first two, and so on. A tensor that has elements and passes
  the walk of \<open>is_contiguous\<close> is such a tensor; the first disjunct says so directly.
\<close>

fun dense_from :: "nat \<Rightarrow> (nat \<times> nat) list \<Rightarrow> bool" where
  "dense_from z [] = True"
| "dense_from z ((s, n) # rest) = (s = z \<and> dense_from (z * n) rest)"

definition non_overlapping_and_dense :: "tensor \<Rightarrow> bool" where
  "non_overlapping_and_dense t =
     ((0 \<notin> set (shape t) \<and> contig_from 1 (rev (zip (shape t) (stride t))))
      \<or> dense_from 1 (sort_key fst (filter (\<lambda>sn. 2 \<le> snd sn) (zip (stride t) (shape t)))))"

text \<open>
  \<^verbatim>\<open>torch.empty_like(t)\<close> at the address the allocator returns: same shape, contents
  not initialised (memory is left as it is). A non-overlapping and dense tensor, row-major
  or permuted, keeps its strides. Any other tensor is given the strides of a fresh
  row-major tensor here (PyTorch gives it dense strides in the order of its own strides;
  no statement below concerns such an input).
\<close>

definition empty_like :: "nat \<Rightarrow> tensor \<Rightarrow> tensor" where
  "empty_like p t =
     \<lparr>data_ptr = p, shape = shape t,
      stride = (if non_overlapping_and_dense t then stride t else contiguous_strides (shape t))\<rparr>"

text \<open>\<^verbatim>\<open>torch.zeros(shp)\<close> at address \<open>p\<close>: a row-major tensor, its elements set to 0.\<close>

definition zeros_tensor :: "nat \<Rightarrow> nat list \<Rightarrow> tensor" where
  "zeros_tensor p shp = \<lparr>data_ptr = p, shape = shp, stride = contiguous_strides shp\<rparr>"

definition zero_fill :: "nat \<Rightarrow> nat \<Rightarrow> memory \<Rightarrow> memory" where
  "zero_fill p n mem = (\<lambda>a. if p \<le> a \<and> a < p + n then 0 else mem a)"

section \<open>The Triton primitives the kernels use\<close>

text \<open>
  A block of values (a Triton tensor of static shape) is a function of its indices; the
  operations take the extents they reduce over.
\<close>

type_synonym block1 = "nat \<Rightarrow> real"
type_synonym block2 = "nat \<Rightarrow> nat \<Rightarrow> real"

definition cdiv :: "nat \<Rightarrow> nat \<Rightarrow> nat" where
  "cdiv x y = (x + y - 1) div y"

text \<open>\<^verbatim>\<open>tl.range(start, stop, step)\<close> for a positive step.\<close>

definition tl_range :: "nat \<Rightarrow> nat \<Rightarrow> nat \<Rightarrow> nat list" where
  "tl_range start stop step = map (\<lambda>k. start + k * step) [0..<cdiv (stop - start) step]"

record block_ptr =
  bp_base :: nat
  bp_shape :: "nat \<times> nat"
  bp_strides :: "nat \<times> nat"
  bp_offsets :: "nat \<times> nat"
  bp_block_shape :: "nat \<times> nat"

definition make_block_ptr ::
  "nat \<Rightarrow> nat \<times> nat \<Rightarrow> nat \<times> nat \<Rightarrow> nat \<times> nat \<Rightarrow> nat \<times> nat \<Rightarrow> block_ptr" where
  "make_block_ptr b shp strs offs blk =
     \<lparr>bp_base = b, bp_shape = shp, bp_strides = strs, bp_offsets = offs, bp_block_shape = blk\<rparr>"

text \<open>The address of element \<open>(r, c)\<close> of the block a block pointer points to.\<close>

definition bp_addr :: "block_ptr \<Rightarrow> nat \<Rightarrow> nat \<Rightarrow> nat" where
  "bp_addr p r c =
     bp_base p + (fst (bp_offsets p) + r) * fst (bp_strides p)
               + (snd (bp_offsets p) + c) * snd (bp_strides p)"

text \<open>
  \<^verbatim>\<open>tl.load(p)\<close> and \<^verbatim>\<open>tl.store(p, v)\<close> with no boundary check, as the
  kernel calls them: the block is read and written whatever \<open>bp_shape\<close> says.
\<close>

definition tl_load :: "memory \<Rightarrow> block_ptr \<Rightarrow> block2" where
  "tl_load mem p = (\<lambda>r c. mem (bp_addr p r c))"

definition tl_store :: "block_ptr \<Rightarrow> block2 \<Rightarrow> memory \<Rightarrow> memory" where
  "tl_store p v mem =
     fold (\<lambda>rc m. m(bp_addr p (fst rc) (snd rc) := v (fst rc) (snd rc)))
          (List.product [0..<fst (bp_block_shape p)] [0..<snd (bp_block_shape p)]) mem"

definition tl_advance :: "block_ptr \<Rightarrow> nat \<times> nat \<Rightarrow> block_ptr" where
  "tl_advance p d = p\<lparr>bp_offsets := (fst (bp_offsets p) + fst d, snd (bp_offsets p) + snd d)\<rparr>"

text \<open>\<^verbatim>\<open>tl.store(ptrs, v)\<close> on a vector of \<open>n\<close> addresses.\<close>

definition tl_store_vec :: "nat \<Rightarrow> (nat \<Rightarrow> nat) \<Rightarrow> block1 \<Rightarrow> memory \<Rightarrow> memory" where
  "tl_store_vec n ptrs v mem = fold (\<lambda>r m. m(ptrs r := v r)) [0..<n] mem"

definition tl_dot :: "nat \<Rightarrow> block2 \<Rightarrow> block2 \<Rightarrow> block2" where
  "tl_dot k A B = (\<lambda>r j. \<Sum>c<k. A r c * B c j)"

definition tl_sum_axis1 :: "nat \<Rightarrow> block2 \<Rightarrow> block1" where
  "tl_sum_axis1 n A = (\<lambda>r. \<Sum>j<n. A r j)"

definition tl_max_axis1 :: "nat \<Rightarrow> block2 \<Rightarrow> block1" where
  "tl_max_axis1 n A = (\<lambda>r. Max ((A r) ` {..<n}))"

text \<open>
  \<^verbatim>\<open>tl.maximum(m, x)\<close> and \<^verbatim>\<open>tl.exp(m - x)\<close> for a running maximum \<open>m\<close>
  that may still be \<open>-inf\<close> and a finite \<open>x\<close>: the maximum is then finite, and
  \<open>exp(-inf) = 0\<close>.
\<close>

fun maximum_x :: "xreal \<Rightarrow> real \<Rightarrow> real" where
  "maximum_x NegInf x = x"
| "maximum_x (Fin m) x = max m x"

fun exp_sub_x :: "xreal \<Rightarrow> real \<Rightarrow> real" where
  "exp_sub_x NegInf x = 0"
| "exp_sub_x (Fin m) x = exp (m - x)"

section \<open>The forward kernel\<close>

record fwd_args =
  Q_ptr :: nat
  K_ptr :: nat
  V_ptr :: nat
  O_ptr :: nat
  M_ptr :: nat
  softmax_scale :: real
  stride_Q_batch :: nat
  stride_Q_head :: nat
  stride_Q_seq :: nat
  stride_Q_dim :: nat
  stride_K_batch :: nat
  stride_K_head :: nat
  stride_K_seq :: nat
  stride_K_dim :: nat
  stride_V_batch :: nat
  stride_V_head :: nat
  stride_V_seq :: nat
  stride_V_dim :: nat
  stride_O_batch :: nat
  stride_O_head :: nat
  stride_O_seq :: nat
  stride_O_dim :: nat
  stride_M_batch :: nat
  stride_M_head :: nat
  stride_M_seq :: nat
  BATCH_SIZE :: nat
  NUM_HEADS :: nat
  SEQ_LEN :: nat
  HEAD_DIM :: nat
  BLOCK_SIZE_Q :: nat
  BLOCK_SIZE_KV :: nat

text \<open>The sentinel the kernel calls \<^verbatim>\<open>inf\<close>.\<close>

definition inf_val :: real where
  "inf_val = 1000000"

text \<open>The state the inner loop updates.\<close>

record fwd_state =
  s_max :: "nat \<Rightarrow> xreal"
  softmax_denom :: block1
  O_block :: block2
  K_block_ptr :: block_ptr
  V_block_ptr :: block_ptr

text \<open>The offsets \<open>start_kv_idx\<close> the inner loop runs through, for one query block.\<close>

definition kv_offsets :: "nat \<Rightarrow> nat \<Rightarrow> nat \<Rightarrow> nat list" where
  "kv_offsets query_block_idx BQ BKV = tl_range 0 ((query_block_idx + 1) * BQ) BKV"

definition causal_mask :: "nat \<Rightarrow> nat \<Rightarrow> nat \<Rightarrow> nat \<Rightarrow> nat \<Rightarrow> bool" where
  "causal_mask query_block_idx BQ start_kv_idx r j =
     (query_block_idx * BQ + r \<ge> start_kv_idx + j)"

text \<open>\<open>S_block\<close>, \<open>new_s_max\<close> and \<open>P_block\<close> of one iteration.\<close>

definition S_block_of :: "fwd_args \<Rightarrow> nat \<Rightarrow> nat \<Rightarrow> block2 \<Rightarrow> block2 \<Rightarrow> block2" where
  "S_block_of a query_block_idx start_kv_idx Q_block K_block =
     (\<lambda>r j. tl_dot (HEAD_DIM a) Q_block K_block r j * softmax_scale a
            + (if causal_mask query_block_idx (BLOCK_SIZE_Q a) start_kv_idx r j
               then 0 else - inf_val))"

definition new_s_max_of :: "fwd_args \<Rightarrow> (nat \<Rightarrow> xreal) \<Rightarrow> block2 \<Rightarrow> block1" where
  "new_s_max_of a smax S_blk =
     (\<lambda>r. maximum_x (smax r) (tl_max_axis1 (BLOCK_SIZE_KV a) S_blk r))"

definition P_block_of :: "block2 \<Rightarrow> block1 \<Rightarrow> block2" where
  "P_block_of S_blk new_s_max = (\<lambda>r j. exp (S_blk r j - new_s_max r))"

text \<open>The body of the inner loop.\<close>

definition fwd_body :: "fwd_args \<Rightarrow> memory \<Rightarrow> nat \<Rightarrow> block2 \<Rightarrow> nat \<Rightarrow> fwd_state \<Rightarrow> fwd_state" where
  "fwd_body a mem query_block_idx Q_block start_kv_idx st =
     (let K_block = tl_load mem (K_block_ptr st);
          V_block = tl_load mem (V_block_ptr st);
          S_blk = S_block_of a query_block_idx start_kv_idx Q_block K_block;
          new_s_max = new_s_max_of a (s_max st) S_blk;
          corrective_factor = (\<lambda>r. exp_sub_x (s_max st r) (new_s_max r));
          P_blk = P_block_of S_blk new_s_max;
          P_rowsum = tl_sum_axis1 (BLOCK_SIZE_KV a) P_blk;
          PV = tl_dot (BLOCK_SIZE_KV a) P_blk V_block
      in \<lparr>s_max = (\<lambda>r. Fin (new_s_max r)),
          softmax_denom = (\<lambda>r. corrective_factor r * softmax_denom st r + P_rowsum r),
          O_block = (\<lambda>r c. O_block st r c * corrective_factor r + PV r c),
          K_block_ptr = tl_advance (K_block_ptr st) (0, BLOCK_SIZE_KV a),
          V_block_ptr = tl_advance (V_block_ptr st) (BLOCK_SIZE_KV a, 0)\<rparr>)"

text \<open>
  The value stored in \<open>M\<close> for one row: \<^verbatim>\<open>s_max + log(softmax_denom)\<close>, when
  that is a finite number.
\<close>

definition log_normalizer :: "xreal \<Rightarrow> real \<Rightarrow> real option" where
  "log_normalizer m l =
     (case m of NegInf \<Rightarrow> None | Fin x \<Rightarrow> if l \<le> 0 then None else Some (x + ln l))"

text \<open>The block of \<open>Q\<close> the program with the given ids loads before its loop.\<close>

definition Q_block_of :: "fwd_args \<Rightarrow> memory \<Rightarrow> nat \<Rightarrow> nat \<Rightarrow> block2" where
  "Q_block_of a mem query_block_idx batch_head_idx =
     (let batch_idx = batch_head_idx div NUM_HEADS a;
          head_idx = batch_head_idx mod NUM_HEADS a;
          qkv_offset = batch_idx * stride_Q_batch a + head_idx * stride_Q_head a;
          Q_block_ptr = make_block_ptr (Q_ptr a + qkv_offset) (SEQ_LEN a, HEAD_DIM a)
             (stride_Q_seq a, stride_Q_dim a) (query_block_idx * BLOCK_SIZE_Q a, 0)
             (BLOCK_SIZE_Q a, HEAD_DIM a)
      in tl_load mem Q_block_ptr)"

text \<open>
  The state of the program once the body of its loop has run for the values
  \<open>offs\<close> of \<open>start_kv_idx\<close>, in that order, from the state set up before the loop.
\<close>

definition fwd_steps :: "fwd_args \<Rightarrow> memory \<Rightarrow> nat \<Rightarrow> nat \<Rightarrow> nat list \<Rightarrow> fwd_state" where
  "fwd_steps a mem query_block_idx batch_head_idx offs =
     (let batch_idx = batch_head_idx div NUM_HEADS a;
          head_idx = batch_head_idx mod NUM_HEADS a;
          qkv_offset = batch_idx * stride_Q_batch a + head_idx * stride_Q_head a;
          K_block_ptr0 = make_block_ptr (K_ptr a + qkv_offset) (HEAD_DIM a, SEQ_LEN a)
             (stride_K_dim a, stride_K_seq a) (0, 0) (HEAD_DIM a, BLOCK_SIZE_KV a);
          V_block_ptr0 = make_block_ptr (V_ptr a + qkv_offset) (SEQ_LEN a, HEAD_DIM a)
             (stride_V_seq a, stride_V_dim a) (0, 0) (BLOCK_SIZE_KV a, HEAD_DIM a);
          st0 = \<lparr>s_max = (\<lambda>r. NegInf), softmax_denom = (\<lambda>r. 0), O_block = (\<lambda>r c. 0),
                 K_block_ptr = K_block_ptr0, V_block_ptr = V_block_ptr0\<rparr>;
          Q_block = Q_block_of a mem query_block_idx batch_head_idx
      in fold (fwd_body a mem query_block_idx Q_block) offs st0)"

text \<open>The state after the inner loop: the body has run for every offset of the range.\<close>

definition fwd_loop :: "fwd_args \<Rightarrow> memory \<Rightarrow> nat \<Rightarrow> nat \<Rightarrow> fwd_state" where
  "fwd_loop a mem query_block_idx batch_head_idx =
     fwd_steps a mem query_block_idx batch_head_idx
       (kv_offsets query_block_idx (BLOCK_SIZE_Q a) (BLOCK_SIZE_KV a))"

text \<open>
  One program instance of \<^verbatim>\<open>_attn_fwd\<close>; \<open>pid\<close> holds
  \<^verbatim>\<open>tl.program_id(axis)\<close> for the three axes. The loop, then the two stores.
\<close>

definition attn_fwd :: "fwd_args \<Rightarrow> nat \<times> nat \<times> nat \<Rightarrow> memory \<Rightarrow> error + memory" where
  "attn_fwd a pid mem =
     (let query_block_idx = fst pid;
          batch_head_idx = fst (snd pid);
          batch_idx = batch_head_idx div NUM_HEADS a;
          head_idx = batch_head_idx mod NUM_HEADS a;
          qkv_offset = batch_idx * stride_Q_batch a + head_idx * stride_Q_head a;
          O_block_ptr = make_block_ptr (O_ptr a + qkv_offset) (SEQ_LEN a, HEAD_DIM a)
             (stride_O_seq a, stride_O_dim a) (query_block_idx * BLOCK_SIZE_Q a, 0)
             (BLOCK_SIZE_Q a, HEAD_DIM a);
          offs_q = (\<lambda>r. query_block_idx * BLOCK_SIZE_Q a + r);
          st = fwd_loop a mem query_block_idx batch_head_idx;
          O_final = (\<lambda>r c. O_block st r c / softmax_denom st r);
          M_final = (\<lambda>r. log_normalizer (s_max st r) (softmax_denom st r));
          offs_m = (\<lambda>r. offs_q r + batch_idx * stride_M_batch a + head_idx * stride_M_head a)
      in if \<exists>r<BLOCK_SIZE_Q a. M_final r = None then Inl NonFinite
         else Inr (tl_store_vec (BLOCK_SIZE_Q a) (\<lambda>r. M_ptr a + offs_m r) (\<lambda>r. the (M_final r))
                     (tl_store O_block_ptr O_final mem)))"

text \<open>
  A launch runs one program instance per point of the grid. The instances write disjoint
  parts of memory when the launch is well formed; they are run here one after the other.
\<close>

fun run_programs ::
  "(nat \<times> nat \<times> nat \<Rightarrow> memory \<Rightarrow> error + memory) \<Rightarrow> (nat \<times> nat \<times> nat) list \<Rightarrow> memory
     \<Rightarrow> error + memory" where
  "run_programs k [] mem = Inr mem"
| "run_programs k (p # ps) mem =
     (case k p mem of Inl e \<Rightarrow> Inl e | Inr mem' \<Rightarrow> run_programs k ps mem')"

definition grid_ids :: "nat \<times> nat \<times> nat \<Rightarrow> (nat \<times> nat \<times> nat) list" where
  "grid_ids g = List.product [0..<fst g] (List.product [0..<fst (snd g)] [0..<snd (snd g)])"

section \<open>The host side: \<^verbatim>\<open>FlashAttention.forward\<close>\<close>

text \<open>
  What the host code takes from its environment: the addresses the allocator returns for
  \<open>O\<close> and \<open>M\<close>, and the block sizes the autotuner settles on, one of the two
  configurations the kernel is decorated with. The launch is run once, with the
  configuration chosen; the trial runs by which the autotuner chooses are not part of
  this development, and the statements below hold for any positive block sizes.
\<close>

record runtime =
  O_alloc :: nat
  M_alloc :: nat
  config :: "nat \<times> nat"

definition autotune_configs :: "(nat \<times> nat) list" where
  "autotune_configs = [(64, 64), (128, 128)]"

text \<open>Values a Python call returns, and the attributes \<open>forward\<close> sets on \<open>ctx\<close>.\<close>

datatype pyvalue = PyNone | PyTensor tensor | PyTuple "pyvalue list"

datatype attr = AttrFloat real | AttrGrid "nat \<Rightarrow> nat \<times> nat \<times> nat"

record ctx =
  saved_tensors :: "tensor list"
  attrs :: "(string \<times> attr) list"

definition getattr :: "ctx \<Rightarrow> string \<Rightarrow> error + attr" where
  "getattr c name = (case map_of (attrs c) name of None \<Rightarrow> Inl (AttributeError name) | Some v \<Rightarrow> Inr v)"

record fwd_result =
  returned :: pyvalue
  fwd_ctx :: ctx
  heap :: memory

text \<open>\<^verbatim>\<open>a, b, c, d = xs\<close> raises ValueError unless \<open>xs\<close> has four items.\<close>

fun unpack4 :: "'a list \<Rightarrow> error + 'a \<times> 'a \<times> 'a \<times> 'a" where
  "unpack4 [a, b, c, d] = Inr (a, b, c, d)"
| "unpack4 xs = Inl (ValueError ''unpack'')"

definition strides4 :: "tensor \<Rightarrow> error + nat \<times> nat \<times> nat \<times> nat" where
  "strides4 t =
     ebind (stride_at t 0) (\<lambda>s0. ebind (stride_at t 1) (\<lambda>s1.
     ebind (stride_at t 2) (\<lambda>s2. ebind (stride_at t 3) (\<lambda>s3. Inr (s0, s1, s2, s3)))))"

definition strides3 :: "tensor \<Rightarrow> error + nat \<times> nat \<times> nat" where
  "strides3 t =
     ebind (stride_at t 0) (\<lambda>s0. ebind (stride_at t 1) (\<lambda>s1.
     ebind (stride_at t 2) (\<lambda>s2. Inr (s0, s1, s2))))"

text \<open>The keyword arguments of the launch of \<^verbatim>\<open>_attn_fwd\<close>.\<close>

definition fwd_kernel_args ::
  "nat \<times> nat \<Rightarrow> tensor \<Rightarrow> tensor \<Rightarrow> tensor \<Rightarrow> tensor \<Rightarrow> tensor \<Rightarrow> real
     \<Rightarrow> nat \<Rightarrow> nat \<Rightarrow> nat \<Rightarrow> nat \<Rightarrow> error + fwd_args" where
  "fwd_kernel_args cfg Q K V O' M scale batch_size num_heads seq_len head_dim =
     ebind (strides4 Q) (\<lambda>sQ. ebind (strides4 K) (\<lambda>sK. ebind (strides4 V) (\<lambda>sV.
     ebind (strides4 O') (\<lambda>sO. ebind (strides3 M) (\<lambda>sM.
       Inr \<lparr>Q_ptr = data_ptr Q, K_ptr = data_ptr K, V_ptr = data_ptr V,
            O_ptr = data_ptr O', M_ptr = data_ptr M,
            softmax_scale = scale,
            stride_Q_batch = fst sQ, stride_Q_head = fst (snd sQ),
            stride_Q_seq = fst (snd (snd sQ)), stride_Q_dim = snd (snd (snd sQ)),
            stride_K_batch = fst sK, stride_K_head = fst (snd sK),
            stride_K_seq = fst (snd (snd sK)), stride_K_dim = snd (snd (snd sK)),
            stride_V_batch = fst sV, stride_V_head = fst (snd sV),
            stride_V_seq = fst (snd (snd sV)), stride_V_dim = snd (snd (snd sV)),
            stride_O_batch = fst sO, stride_O_head = fst (snd sO),
            stride_O_seq = fst (snd (snd sO)), stride_O_dim = snd (snd (snd sO)),
            stride_M_batch = fst sM, stride_M_head = fst (snd sM),
            stride_M_seq = snd (snd sM),
            BATCH_SIZE = batch_size, NUM_HEADS = num_heads, SEQ_LEN = seq_len,
            HEAD_DIM = head_dim,
            BLOCK_SIZE_Q = fst cfg, BLOCK_SIZE_KV = snd cfg\<rparr>)))))"

text \<open>The launch grid of the forward pass, for the block size the autotuner chose.\<close>

definition fwd_grid :: "nat \<Rightarrow> nat \<Rightarrow> nat \<Rightarrow> nat \<Rightarrow> nat \<times> nat \<times> nat" where
  "fwd_grid seq_len batch_size num_heads BQ = (cdiv seq_len BQ, batch_size * num_heads, 1)"

definition forward ::
  "runtime \<Rightarrow> tensor \<Rightarrow> tensor \<Rightarrow> tensor \<Rightarrow> real \<Rightarrow> memory \<Rightarrow> error + fwd_result" where
  "forward rt Q K V scale mem =
     ebind (shape_last Q) (\<lambda>HEAD_DIM_Q.
     ebind (shape_last K) (\<lambda>HEAD_DIM_K.
     ebind (shape_last V) (\<lambda>HEAD_DIM_V.
     ebind (py_assert (HEAD_DIM_Q = HEAD_DIM_K \<and> HEAD_DIM_K = HEAD_DIM_V)) (\<lambda>_.
     ebind (unpack4 (shape Q)) (\<lambda>shp.
       let batch_size = fst shp; num_heads = fst (snd shp);
           seq_len = fst (snd (snd shp)); head_dim = snd (snd (snd shp));
           O' = empty_like (O_alloc rt) Q;
           M = zeros_tensor (M_alloc rt) [batch_size, num_heads, seq_len];
           mem1 = zero_fill (M_alloc rt) (batch_size * num_heads * seq_len) mem;
           grid = fwd_grid seq_len batch_size num_heads
       in ebind (fwd_kernel_args (config rt) Q K V O' M scale
                   batch_size num_heads seq_len head_dim) (\<lambda>a.
          ebind (run_programs (attn_fwd a) (grid_ids (grid (BLOCK_SIZE_Q a))) mem1) (\<lambda>mem2.
          Inr \<lparr>returned = PyTensor O',
               fwd_ctx = \<lparr>saved_tensors = [Q, K, V, O', M],
                          attrs = [(''grid'', AttrGrid grid),
                                   (''softmax_scale'', AttrFloat scale)]\<rparr>,
               heap = mem2\<rparr>)))))))"

section \<open>The backward pass\<close>

subsection \<open>The preprocessing kernel\<close>

record pre_args =
  pre_O :: nat
  pre_dO :: nat
  pre_D :: nat
  pre_stride_O_batch :: nat
  pre_stride_O_head :: nat
  pre_stride_O_seq :: nat
  pre_stride_O_dim :: nat
  pre_stride_dO_batch :: nat
  pre_stride_dO_head :: nat
  pre_stride_dO_seq :: nat
  pre_stride_dO_dim :: nat
  pre_stride_D_batch :: nat
  pre_stride_D_head :: nat
  pre_stride_D_seq :: nat
  pre_NUM_HEADS :: nat
  pre_SEQ_LEN :: nat
  pre_HEAD_DIM :: nat
  pre_BLOCK_SIZE_SEQ :: nat

text \<open>
  \<^verbatim>\<open>tl.load(ptrs)\<close> on a block of addresses: the values at the addresses.
  The preprocessing kernel below hands it integer offsets where Triton wants pointers;
  the compiler refuses such a load, and what is modelled is the load of the addresses the
  offsets denote.
\<close>

definition tl_load_ptrs :: "memory \<Rightarrow> (nat \<Rightarrow> nat \<Rightarrow> nat) \<Rightarrow> block2" where
  "tl_load_ptrs mem ptrs = (\<lambda>r c. mem (ptrs r c))"

text \<open>
  One program instance of \<^verbatim>\<open>_attn_bwd_preprocess\<close>. Both loads are given the
  offsets \<open>offs_o\<close> themselves: neither the pointer \<open>O\<close> nor the pointer \<open>dO\<close> is
  added, so the offsets are what is dereferenced. The store goes to \<open>D + offs_di\<close>.
\<close>

definition attn_bwd_preprocess :: "pre_args \<Rightarrow> nat \<times> nat \<times> nat \<Rightarrow> memory \<Rightarrow> memory" where
  "attn_bwd_preprocess a pid mem =
     (let query_block_idx = fst pid;
          batch_head_idx = fst (snd pid);
          batch_idx = batch_head_idx div pre_NUM_HEADS a;
          head_idx = batch_head_idx mod pre_NUM_HEADS a;
          offs_seq = (\<lambda>r. query_block_idx * pre_BLOCK_SIZE_SEQ a + r);
          offs_head = (\<lambda>c. c);
          offs_o = (\<lambda>r c. batch_idx * pre_stride_O_batch a + head_idx * pre_stride_O_head a
                           + offs_seq r * pre_stride_O_seq a + offs_head c);
          O_blk = tl_load_ptrs mem offs_o;
          dO_blk = tl_load_ptrs mem offs_o;
          Di_block = tl_sum_axis1 (pre_HEAD_DIM a) (\<lambda>r c. O_blk r c * dO_blk r c);
          offs_di = (\<lambda>r. batch_idx * pre_stride_D_batch a + batch_head_idx * pre_stride_D_head a
                          + offs_seq r)
      in tl_store_vec (pre_BLOCK_SIZE_SEQ a) (\<lambda>r. pre_D a + offs_di r) Di_block mem)"

subsection \<open>The dK/dV kernel\<close>

record dkdv_args =
  dk_Q :: nat
  dk_K :: nat
  dk_V :: nat
  dk_softmax_scale :: real
  dk_dO :: nat
  dk_dQ :: nat
  dk_dK :: nat
  dk_dV :: nat
  dk_M :: nat
  dk_D :: nat
  stride_q_batch :: nat
  stride_q_head :: nat
  stride_q_seq :: nat
  stride_q_dim :: nat
  dk_NUM_HEADS :: nat
  dk_SEQ_LEN :: nat
  dk_HEAD_DIM :: nat

text \<open>
  One program instance of \<^verbatim>\<open>_attn_bwd_dk_dv\<close>: the body computes an offset and
  ends there; it stores nothing.
\<close>

definition attn_bwd_dk_dv :: "dkdv_args \<Rightarrow> nat \<times> nat \<times> nat \<Rightarrow> memory \<Rightarrow> memory" where
  "attn_bwd_dk_dv a pid mem =
     (let batch_head_idx = fst (snd pid);
          batch_idx = batch_head_idx div dk_NUM_HEADS a;
          head_idx = batch_head_idx mod dk_NUM_HEADS a;
          offs_seq = batch_idx * stride_q_batch a + head_idx * stride_q_dim a
      in mem)"

subsection \<open>Launching with keyword arguments\<close>

datatype kwval = KNat nat | KReal real | KObj

type_synonym kwargs = "(string \<times> kwval) list"

text \<open>
  A launch binds the keyword arguments to the parameters of the kernel: a parameter with
  no value, reported first, or a keyword that is no parameter, is a TypeError.
\<close>

definition bind_kwargs :: "string list \<Rightarrow> kwargs \<Rightarrow> error + unit" where
  "bind_kwargs params kws =
     (if \<exists>p \<in> set params. p \<notin> set (map fst kws)
        then Inl (TypeError ''missing argument'')
      else if \<exists>n \<in> set (map fst kws). n \<notin> set params
        then Inl (TypeError ''unexpected keyword argument'')
      else Inr ())"

text \<open>The value bound to a parameter, once the binding has succeeded.\<close>

definition kw_nat :: "kwargs \<Rightarrow> string \<Rightarrow> nat" where
  "kw_nat kws n = (case map_of kws n of Some (KNat v) \<Rightarrow> v | _ \<Rightarrow> 0)"

definition kw_real :: "kwargs \<Rightarrow> string \<Rightarrow> real" where
  "kw_real kws n = (case map_of kws n of Some (KReal v) \<Rightarrow> v | Some (KNat v) \<Rightarrow> real v | _ \<Rightarrow> 0)"

text \<open>\<^verbatim>\<open>meta[name]\<close> inside a grid function: KeyError when the launch has no such value.\<close>

definition meta_get :: "kwargs \<Rightarrow> string \<Rightarrow> error + nat" where
  "meta_get kws n = (case map_of kws n of None \<Rightarrow> Inl (KeyError n) | Some v \<Rightarrow> Inr (kw_nat kws n))"

definition pre_params :: "string list" where
  "pre_params =
     [''O'', ''dO'', ''D'',
      ''stride_O_batch'', ''stride_O_head'', ''stride_O_seq'', ''stride_O_dim'',
      ''stride_dO_batch'', ''stride_dO_head'', ''stride_dO_seq'', ''stride_dO_dim'',
      ''stride_D_batch'', ''stride_D_head'', ''stride_D_seq'',
      ''NUM_HEADS'', ''SEQ_LEN'', ''HEAD_DIM'', ''BLOCK_SIZE_SEQ'']"

definition pre_args_of :: "kwargs \<Rightarrow> pre_args" where
  "pre_args_of kws =
     \<lparr>pre_O = kw_nat kws ''O'', pre_dO = kw_nat kws ''dO'', pre_D = kw_nat kws ''D'',
      pre_stride_O_batch = kw_nat kws ''stride_O_batch'',
      pre_stride_O_head = kw_nat kws ''stride_O_head'',
      pre_stride_O_seq = kw_nat kws ''stride_O_seq'',
      pre_stride_O_dim = kw_nat kws ''stride_O_dim'',
      pre_stride_dO_batch = kw_nat kws ''stride_dO_batch'',
      pre_stride_dO_head = kw_nat kws ''stride_dO_head'',
      pre_stride_dO_seq = kw_nat kws ''stride_dO_seq'',
      pre_stride_dO_dim = kw_nat kws ''stride_dO_dim'',
      pre_stride_D_batch = kw_nat kws ''stride_D_batch'',
      pre_stride_D_head = kw_nat kws ''stride_D_head'',
      pre_stride_D_seq = kw_nat kws ''stride_D_seq'',
      pre_NUM_HEADS = kw_nat kws ''NUM_HEADS'',
      pre_SEQ_LEN = kw_nat kws ''SEQ_LEN'',
      pre_HEAD_DIM = kw_nat kws ''HEAD_DIM'',
      pre_BLOCK_SIZE_SEQ = kw_nat kws ''BLOCK_SIZE_SEQ''\<rparr>"

definition dkdv_params :: "string list" where
  "dkdv_params =
     [''Q'', ''K'', ''V'', ''softmax_scale'', ''dO'', ''dQ'', ''dK'', ''dV'', ''M'', ''D'',
      ''stride_q_batch'', ''stride_q_head'', ''stride_q_seq'', ''stride_q_dim'',
      ''NUM_HEADS'', ''SEQ_LEN'', ''HEAD_DIM'']"

definition dkdv_args_of :: "kwargs \<Rightarrow> dkdv_args" where
  "dkdv_args_of kws =
     \<lparr>dk_Q = kw_nat kws ''Q'', dk_K = kw_nat kws ''K'', dk_V = kw_nat kws ''V'',
      dk_softmax_scale = kw_real kws ''softmax_scale'',
      dk_dO = kw_nat kws ''dO'', dk_dQ = kw_nat kws ''dQ'', dk_dK = kw_nat kws ''dK'',
      dk_dV = kw_nat kws ''dV'', dk_M = kw_nat kws ''M'', dk_D = kw_nat kws ''D'',
      stride_q_batch = kw_nat kws ''stride_q_batch'',
      stride_q_head = kw_nat kws ''stride_q_head'',
      stride_q_seq = kw_nat kws ''stride_q_seq'',
      stride_q_dim = kw_nat kws ''stride_q_dim'',
      dk_NUM_HEADS = kw_nat kws ''NUM_HEADS'',
      dk_SEQ_LEN = kw_nat kws ''SEQ_LEN'',
      dk_HEAD_DIM = kw_nat kws ''HEAD_DIM''\<rparr>"

subsection \<open>Python arithmetic on untyped operands\<close>

text \<open>
  \<^verbatim>\<open>triton.cdiv(x, y)\<close> is \<^verbatim>\<open>(x + y - 1) // y\<close>. The grid of the dK/dV launch
  calls it with a string, so the operators are modelled on integers and strings.
\<close>

datatype pyval = PyInt int | PyStr string

fun py_add :: "pyval \<Rightarrow> pyval \<Rightarrow> error + pyval" where
  "py_add (PyInt x) (PyInt y) = Inr (PyInt (x + y))"
| "py_add (PyStr x) (PyStr y) = Inr (PyStr (x @ y))"
| "py_add _ _ = Inl (TypeError ''unsupported operand types for +'')"

fun py_sub :: "pyval \<Rightarrow> pyval \<Rightarrow> error + pyval" where
  "py_sub (PyInt x) (PyInt y) = Inr (PyInt (x - y))"
| "py_sub _ _ = Inl (TypeError ''unsupported operand types for -'')"

fun py_floordiv :: "pyval \<Rightarrow> pyval \<Rightarrow> error + pyval" where
  "py_floordiv (PyInt x) (PyInt y) = (if y = 0 then Inl ZeroDivisionError else Inr (PyInt (x div y)))"
| "py_floordiv _ _ = Inl (TypeError ''unsupported operand types for //'')"

definition triton_cdiv :: "pyval \<Rightarrow> pyval \<Rightarrow> error + pyval" where
  "triton_cdiv x y = ebind (py_add x y) (\<lambda>s. ebind (py_sub s (PyInt 1)) (\<lambda>t. py_floordiv t y))"

subsection \<open>\<^verbatim>\<open>FlashAttention.backward\<close>\<close>

record bwd_runtime =
  dQ_alloc :: nat
  dK_alloc :: nat
  dV_alloc :: nat
  D_alloc :: nat

record bwd_result =
  bwd_returned :: pyvalue
  bwd_heap :: memory

fun unpack5 :: "'a list \<Rightarrow> error + 'a \<times> 'a \<times> 'a \<times> 'a \<times> 'a" where
  "unpack5 [a, b, c, d, e] = Inr (a, b, c, d, e)"
| "unpack5 xs = Inl (ValueError ''unpack'')"

fun unpack3 :: "'a list \<Rightarrow> error + 'a \<times> 'a \<times> 'a" where
  "unpack3 [a, b, c] = Inr (a, b, c)"
| "unpack3 xs = Inl (ValueError ''unpack'')"

text \<open>
  \<^verbatim>\<open>Q.shape(3)\<close>: the shape is a \<^verbatim>\<open>torch.Size\<close>, a tuple; calling it raises
  TypeError whatever the argument.
\<close>

definition call_Size :: "nat list \<Rightarrow> nat \<Rightarrow> error + nat" where
  "call_Size shp k = Inl (TypeError ''torch.Size object is not callable'')"

definition attr_kw :: "attr \<Rightarrow> kwval" where
  "attr_kw v = (case v of AttrFloat r \<Rightarrow> KReal r | AttrGrid g \<Rightarrow> KObj)"

text \<open>
  The launch of the preprocessing kernel: the keyword arguments are bound, the grid
  function \<open>d_grid\<close> is applied to the bound values, and the instances run.
\<close>

definition launch_bwd_preprocess :: "kwargs \<Rightarrow> nat \<Rightarrow> nat \<Rightarrow> memory \<Rightarrow> error + memory" where
  "launch_bwd_preprocess kws SEQ_LEN' BH mem =
     ebind (bind_kwargs pre_params kws) (\<lambda>_.
     ebind (meta_get kws ''BLOCK_SIZE_Q'') (\<lambda>bq.
       run_programs (\<lambda>pid m. Inr (attn_bwd_preprocess (pre_args_of kws) pid m))
         (grid_ids (cdiv SEQ_LEN' bq, BH, 1)) mem))"

text \<open>The launch of the dK/dV kernel; its grid function divides by a string literal.\<close>

definition launch_bwd_dk_dv :: "kwargs \<Rightarrow> nat \<Rightarrow> nat \<Rightarrow> memory \<Rightarrow> error + memory" where
  "launch_bwd_dk_dv kws SEQ_LEN' BH mem =
     ebind (bind_kwargs dkdv_params kws) (\<lambda>_.
     ebind (triton_cdiv (PyInt (int SEQ_LEN')) (PyStr ''BLOCK_SIZE_SEQ'')) (\<lambda>g0.
       case g0 of
         PyInt n \<Rightarrow> run_programs (\<lambda>pid m. Inr (attn_bwd_dk_dv (dkdv_args_of kws) pid m))
                      (grid_ids (nat n, BH, 1)) mem
       | PyStr s \<Rightarrow> Inl (TypeError ''grid'')))"

definition backward :: "bwd_runtime \<Rightarrow> ctx \<Rightarrow> tensor \<Rightarrow> memory \<Rightarrow> error + bwd_result" where
  "backward rt c dO mem =
     ebind (unpack5 (saved_tensors c)) (\<lambda>saved.
       let Q = fst saved; K = fst (snd saved); V = fst (snd (snd saved));
           O' = fst (snd (snd (snd saved))); M = snd (snd (snd (snd saved)))
       in
     ebind (py_assert (is_contiguous dO)) (\<lambda>_.
     ebind (py_assert (stride Q = stride K \<and> stride K = stride V \<and> stride V = stride O'
                        \<and> stride O' = stride dO)) (\<lambda>_.
       let dQ = empty_like (dQ_alloc rt) Q;
           dK = empty_like (dK_alloc rt) K;
           dV = empty_like (dV_alloc rt) V;
           D = empty_like (D_alloc rt) M
       in
     ebind (unpack3 (take 3 (shape Q))) (\<lambda>dims.
       let BATCH_SIZE' = fst dims; NUM_HEADS' = fst (snd dims); SEQ_LEN' = snd (snd dims) in
     ebind (call_Size (shape Q) 3) (\<lambda>HEAD_DIM_KV.
     ebind (strides4 O') (\<lambda>sO. ebind (strides4 dO) (\<lambda>sdO. ebind (strides3 D) (\<lambda>sD.
     ebind (launch_bwd_preprocess
              [(''O'', KNat (data_ptr O')), (''dO'', KNat (data_ptr dO)), (''D'', KNat (data_ptr D)),
               (''stride_O_batch'', KNat (fst sO)), (''stride_O_head'', KNat (fst (snd sO))),
               (''stride_O_seq'', KNat (fst (snd (snd sO)))),
               (''stride_O_dim'', KNat (snd (snd (snd sO)))),
               (''stride_dO_batch'', KNat (fst sdO)), (''stride_dO_head'', KNat (fst (snd sdO))),
               (''stride_dO_seq'', KNat (fst (snd (snd sdO)))),
               (''stride_dO_dim'', KNat (snd (snd (snd sdO)))),
               (''stride_D_batch'', KNat (fst sD)), (''stride_D_head'', KNat (fst (snd sD))),
               (''stride_D_seq'', KNat (snd (snd sD))),
               (''NUM_HEADS'', KNat NUM_HEADS'), (''SEQ_LEN'', KNat SEQ_LEN'),
               (''HEAD_DIM'', KNat HEAD_DIM_KV)]
              SEQ_LEN' (BATCH_SIZE' * NUM_HEADS') mem) (\<lambda>mem1.
     ebind (getattr c ''softmax_scale'') (\<lambda>scale.
     ebind (strides4 Q) (\<lambda>sQ.
     ebind (getattr c ''head_dim'') (\<lambda>head_dim.
     ebind (launch_bwd_dk_dv
              [(''Q'', KNat (data_ptr Q)), (''K'', KNat (data_ptr K)), (''V'', KNat (data_ptr V)),
               (''softmax_scale'', attr_kw scale),
               (''dO'', KNat (data_ptr dO)), (''dQ'', KNat (data_ptr dQ)),
               (''dK'', KNat (data_ptr dK)), (''dV'', KNat (data_ptr dV)),
               (''M'', KNat (data_ptr M)), (''D'', KNat (data_ptr D)),
               (''stride_batch'', KNat (fst sQ)), (''stride_head'', KNat (fst (snd sQ))),
               (''stride_seq'', KNat (fst (snd (snd sQ)))),
               (''stride_dim'', KNat (snd (snd (snd sQ)))),
               (''NUM_HEADS'', KNat NUM_HEADS'), (''SEQ_LEN'', KNat SEQ_LEN'),
               (''HEAD_DIM'', attr_kw head_dim)]
              SEQ_LEN' (BATCH_SIZE' * NUM_HEADS') mem1) (\<lambda>mem2.
       Inr \<lparr>bwd_returned = PyNone, bwd_heap = mem2\<rparr>)))))))))))))"

section \<open>Reading tensors, and the reference computation\<close>

text \<open>The element \<open>t[b, h, i, c]\<close> of a four-dimensional tensor, and \<open>t[b, h, i]\<close> of a
  three-dimensional one.\<close>

definition tensor_at :: "memory \<Rightarrow> tensor \<Rightarrow> nat \<Rightarrow> nat \<Rightarrow> nat \<Rightarrow> nat \<Rightarrow> real" where
  "tensor_at mem t b h i c =
     mem (data_ptr t + b * (stride t ! 0) + h * (stride t ! 1) + i * (stride t ! 2)
          + c * (stride t ! 3))"

definition tensor_at3 :: "memory \<Rightarrow> tensor \<Rightarrow> nat \<Rightarrow> nat \<Rightarrow> nat \<Rightarrow> real" where
  "tensor_at3 mem t b h i =
     mem (data_ptr t + b * (stride t ! 0) + h * (stride t ! 1) + i * (stride t ! 2))"

text \<open>The scaled score of query row \<open>i\<close> and key row \<open>j\<close>:
  \<^verbatim>\<open>(Q @ K^T * softmax_scale)[b, h, i, j]\<close>.\<close>

definition score :: "memory \<Rightarrow> tensor \<Rightarrow> tensor \<Rightarrow> real \<Rightarrow> nat \<Rightarrow> nat \<Rightarrow> nat \<Rightarrow> nat \<Rightarrow> real" where
  "score mem Q K scale b h i j =
     (\<Sum>c<last (shape Q). tensor_at mem Q b h i c * tensor_at mem K b h j c) * scale"

text \<open>
  The reference implementation of \<^verbatim>\<open>test_op\<close>: the scores above the diagonal are set
  to \<open>-inf\<close>, so their exponential is 0; softmax over each row; times \<open>V\<close>.
\<close>

definition ref_exp :: "memory \<Rightarrow> tensor \<Rightarrow> tensor \<Rightarrow> real \<Rightarrow> nat \<Rightarrow> nat \<Rightarrow> nat \<Rightarrow> nat \<Rightarrow> real" where
  "ref_exp mem Q K scale b h i j = (if j \<le> i then exp (score mem Q K scale b h i j) else 0)"

definition ref_P :: "memory \<Rightarrow> tensor \<Rightarrow> tensor \<Rightarrow> real \<Rightarrow> nat \<Rightarrow> nat \<Rightarrow> nat \<Rightarrow> nat \<Rightarrow> real" where
  "ref_P mem Q K scale b h i j =
     ref_exp mem Q K scale b h i j / (\<Sum>j'<shape Q ! 2. ref_exp mem Q K scale b h i j')"

definition ref_O ::
  "memory \<Rightarrow> tensor \<Rightarrow> tensor \<Rightarrow> tensor \<Rightarrow> real \<Rightarrow> nat \<Rightarrow> nat \<Rightarrow> nat \<Rightarrow> nat \<Rightarrow> real" where
  "ref_O mem Q K V scale b h i c =
     (\<Sum>j<shape Q ! 2. ref_P mem Q K scale b h i j * tensor_at mem V b h j c)"

text \<open>
  What the kernel computes instead, as the proofs below show: every key column of the
  visited blocks takes part, a column above the diagonal with its score lowered by the
  sentinel.
\<close>

definition kernel_exp :: "memory \<Rightarrow> tensor \<Rightarrow> tensor \<Rightarrow> real \<Rightarrow> nat \<Rightarrow> nat \<Rightarrow> nat \<Rightarrow> nat \<Rightarrow> real" where
  "kernel_exp mem Q K scale b h i j =
     exp (score mem Q K scale b h i j + (if j \<le> i then 0 else - inf_val))"

text \<open>The number of key columns the program of query row \<open>i\<close> visits.\<close>

definition visited :: "nat \<times> nat \<Rightarrow> nat \<Rightarrow> nat" where
  "visited cfg i = cdiv ((i div fst cfg + 1) * fst cfg) (snd cfg) * snd cfg"

definition kernel_O ::
  "nat \<times> nat \<Rightarrow> memory \<Rightarrow> tensor \<Rightarrow> tensor \<Rightarrow> tensor \<Rightarrow> real \<Rightarrow> nat \<Rightarrow> nat \<Rightarrow> nat \<Rightarrow> nat \<Rightarrow> real" where
  "kernel_O cfg mem Q K V scale b h i c =
     (\<Sum>j<visited cfg i. kernel_exp mem Q K scale b h i j * tensor_at mem V b h j c)
     / (\<Sum>j<visited cfg i. kernel_exp mem Q K scale b h i j)"

definition kernel_M ::
  "nat \<times> nat \<Rightarrow> memory \<Rightarrow> tensor \<Rightarrow> tensor \<Rightarrow> real \<Rightarrow> nat \<Rightarrow> nat \<Rightarrow> nat \<Rightarrow> real" where
  "kernel_M cfg mem Q K scale b h i = ln (\<Sum>j<visited cfg i. kernel_exp mem Q K scale b h i j)"

text \<open>
  What a caller observes of a forward call: an element of the tensor it returns, and an
  element of the fifth tensor saved for the backward pass.
\<close>

definition forward_O ::
  "runtime \<Rightarrow> tensor \<Rightarrow> tensor \<Rightarrow> tensor \<Rightarrow> real \<Rightarrow> memory \<Rightarrow> nat \<Rightarrow> nat \<Rightarrow> nat \<Rightarrow> nat
     \<Rightarrow> error + real" where
  "forward_O rt Q K V scale mem b h i c =
     (case forward rt Q K V scale mem of
        Inl e \<Rightarrow> Inl e
      | Inr res \<Rightarrow>
          (case returned res of
             PyTensor t \<Rightarrow> Inr (tensor_at (heap res) t b h i c)
           | _ \<Rightarrow> Inl (TypeError ''not a tensor'')))"

definition forward_M ::
  "runtime \<Rightarrow> tensor \<Rightarrow> tensor \<Rightarrow> tensor \<Rightarrow> real \<Rightarrow> memory \<Rightarrow> nat \<Rightarrow> nat \<Rightarrow> nat \<Rightarrow> error + real" where
  "forward_M rt Q K V scale mem b h i =
     (case forward rt Q K V scale mem of
        Inl e \<Rightarrow> Inl e
      | Inr res \<Rightarrow>
          (case saved_tensors (fwd_ctx res) of
             [q, k, v, o', m] \<Rightarrow> Inr (tensor_at3 (heap res) m b h i)
           | _ \<Rightarrow> Inl (ValueError ''unpack'')))"

section \<open>Example inputs\<close>

text \<open>
  One batch, one head, 64 rows of 16 columns, for the 64-by-64 configuration: \<open>Q\<close>,
  \<open>K\<close> and \<open>V\<close> row-major at addresses 0, 1024 and 2048, \<open>O\<close> and \<open>M\<close>
  allocated at 3072 and 4096.
\<close>

definition Q_ex :: tensor where
  "Q_ex = \<lparr>data_ptr = 0, shape = [1, 1, 64, 16], stride = [1024, 1024, 16, 1]\<rparr>"

definition K_ex :: tensor where
  "K_ex = \<lparr>data_ptr = 1024, shape = [1, 1, 64, 16], stride = [1024, 1024, 16, 1]\<rparr>"

definition V_ex :: tensor where
  "V_ex = \<lparr>data_ptr = 2048, shape = [1, 1, 64, 16], stride = [1024, 1024, 16, 1]\<rparr>"

definition rt_ex :: runtime where
  "rt_ex = \<lparr>O_alloc = 3072, M_alloc = 4096, config = (64, 64)\<rparr>"

text \<open>
  Q[0,0,0,0] = 2000, K[0,0,1,0] = 1000, V[0,0,0,0] = 1, V[0,0,1,1] = 1, every other
  element 0.
\<close>

definition mem_ex :: memory where
  "mem_ex = (\<lambda>a. if a = 0 then 2000 else if a = 1040 then 1000
                 else if a = 2048 then 1 else if a = 2065 then 1 else 0)"

text \<open>The same, with K[0,0,1,0] = 0.\<close>

definition mem_ex' :: memory where
  "mem_ex' = (\<lambda>a. if a = 0 then 2000 else if a = 2048 then 1 else if a = 2065 then 1 else 0)"

text \<open>
  The same layout with 128 rows, two blocks of 64; \<open>Q\<close>, \<open>K\<close> and \<open>V\<close> at
  addresses 0, 2048 and 4096, \<open>O\<close> and \<open>M\<close> at 6144 and 8192.
\<close>

definition Q_ex2 :: tensor where
  "Q_ex2 = \<lparr>data_ptr = 0, shape = [1, 1, 128, 16], stride = [2048, 2048, 16, 1]\<rparr>"

definition K_ex2 :: tensor where
  "K_ex2 = \<lparr>data_ptr = 2048, shape = [1, 1, 128, 16], stride = [2048, 2048, 16, 1]\<rparr>"

definition V_ex2 :: tensor where
  "V_ex2 = \<lparr>data_ptr = 4096, shape = [1, 1, 128, 16], stride = [2048, 2048, 16, 1]\<rparr>"

definition rt_ex2 :: runtime where
  "rt_ex2 = \<lparr>O_alloc = 6144, M_alloc = 8192, config = (64, 64)\<rparr>"

definition mem_zero :: memory where
  "mem_zero = (\<lambda>a. 0)"

section \<open>The block iterator\<close>

lemma autotune_configs_square:
  assumes "cfg \<in> set autotune_configs"
  shows "fst cfg = snd cfg \<and> 0 < fst cfg"
  using assms by (auto simp: autotune_configs_def)

lemma tl_range_zero_start: "tl_range 0 stop step = map (\<lambda>k. k * step) [0..<cdiv stop step]"
  by (simp add: tl_range_def)

lemma cdiv_pos: "0 < stop \<Longrightarrow> 0 < step \<Longrightarrow> 0 < cdiv stop step"
  by (simp add: cdiv_def div_greater_zero_iff)

lemma cdiv_bound: assumes "0 < step" shows "k * step < stop \<longleftrightarrow> k < cdiv stop step"
proof -
  have "k < (stop + step - 1) div step \<longleftrightarrow> (k + 1) * step \<le> stop + step - 1"
    using assms by (simp add: less_eq_div_iff_mult_less_eq Suc_le_eq[symmetric])
  also have "\<dots> \<longleftrightarrow> k * step < stop"
    using assms by (cases stop) auto
  finally show ?thesis by (simp add: cdiv_def)
qed

lemma kv_offsets_eq:
  "kv_offsets q BQ BKV = map (\<lambda>k. k * BKV) [0..<cdiv ((q + 1) * BQ) BKV]"
  by (simp add: kv_offsets_def tl_range_zero_start)

lemma set_kv_offsets:
  assumes "0 < BKV"
  shows "set (kv_offsets q BQ BKV) = {x. BKV dvd x \<and> x < (q + 1) * BQ}"
proof -
  have "set (kv_offsets q BQ BKV) = (\<lambda>k. k * BKV) ` {k. k < cdiv ((q + 1) * BQ) BKV}"
    by (auto simp: kv_offsets_eq)
  also have "\<dots> = (\<lambda>k. k * BKV) ` {k. k * BKV < (q + 1) * BQ}"
    using cdiv_bound[OF assms] by simp
  also have "\<dots> = {x. BKV dvd x \<and> x < (q + 1) * BQ}"
    by (auto simp: dvd_def mult.commute)
  finally show ?thesis .
qed

lemma sorted_kv_offsets:
  assumes "0 < BKV"
  shows "sorted_wrt (<) (kv_offsets q BQ BKV)"
  using assms by (simp add: kv_offsets_eq sorted_wrt_map sorted_wrt_upt)

lemma kv_offsets_nonempty:
  assumes "0 < BQ" "0 < BKV"
  shows "kv_offsets q BQ BKV \<noteq> []" "hd (kv_offsets q BQ BKV) = 0"
proof -
  have "0 < cdiv ((q + 1) * BQ) BKV" using assms by (intro cdiv_pos) auto
  then show "kv_offsets q BQ BKV \<noteq> []" "hd (kv_offsets q BQ BKV) = 0"
    by (simp_all add: kv_offsets_eq hd_map upt_conv_Cons)
qed

lemma diag_start_visited: 
  assumes "0 < (BQ::nat)"
  shows "(q * BQ div BKV) * BKV < (q + 1) * BQ"
proof -
  have "(q * BQ div BKV) * BKV \<le> q * BQ" by simp
  also have "q * BQ < (q + 1) * BQ" using assms by simp
  finally show ?thesis .
qed

lemma kv_offsets_last:
  assumes "0 < BQ" "0 < BKV" "BQ dvd BKV"
  shows "last (kv_offsets q BQ BKV) = (q * BQ div BKV) * BKV"
proof -
  let ?n = "cdiv ((q + 1) * BQ) BKV"
  let ?d = "q * BQ div BKV"
  have pos: "0 < ?n" using assms by (intro cdiv_pos) auto
  have last: "last (kv_offsets q BQ BKV) = (?n - 1) * BKV"
    using pos by (simp add: kv_offsets_eq last_map)
  have 2: "?d < ?n"
    using diag_start_visited[OF assms(1)] by (simp only: cdiv_bound[OF assms(2), symmetric])
  obtain k where k: "BKV = BQ * k" using assms(3) by (auto simp: dvd_def)
  have kpos: "0 < k" using assms k by (cases k) auto
  have "\<not> (?d + 1) * BKV < (q + 1) * BQ"
  proof -
    have "q < (q div k + 1) * k" using kpos
      by (metis add.commute div_less_iff_less_mult less_add_one mult.commute plus_1_eq_Suc)
    then have "q + 1 \<le> (q div k + 1) * k" by simp
    then have "(q + 1) * BQ \<le> ((q div k + 1) * k) * BQ" by (rule mult_le_mono1)
    also have "((q div k + 1) * k) * BQ = (q div k + 1) * (BQ * k)" by (simp add: algebra_simps)
    finally have "(q + 1) * BQ \<le> (q div k + 1) * BKV" by (simp only: k)
    moreover have "q * BQ div BKV = q div k" using assms by (simp add: k)
    ultimately show ?thesis by (simp only: not_less)
  qed
  then have 3: "\<not> ?d + 1 < ?n"
    by (simp only: cdiv_bound[OF assms(2), symmetric] not_False_eq_True)
  from 2 3 have "?n - 1 = ?d" by simp
  with last show ?thesis by simp
qed

section \<open>The online softmax of one program instance\<close>

text \<open>
  The elements of \<open>Q\<close>, \<open>K\<close> and \<open>V\<close> the program with batch-head index
  \<open>bh\<close> reads, by row and column, and the score it gives to key column \<open>j\<close> for
  query row \<open>i\<close>, the mask included.
\<close>

definition qkv_offset_of :: "fwd_args \<Rightarrow> nat \<Rightarrow> nat" where
  "qkv_offset_of a batch_head_idx =
     (batch_head_idx div NUM_HEADS a) * stride_Q_batch a
     + (batch_head_idx mod NUM_HEADS a) * stride_Q_head a"

definition Q_at :: "fwd_args \<Rightarrow> memory \<Rightarrow> nat \<Rightarrow> nat \<Rightarrow> nat \<Rightarrow> real" where
  "Q_at a mem bh i c = mem (Q_ptr a + qkv_offset_of a bh + i * stride_Q_seq a + c * stride_Q_dim a)"

definition K_at :: "fwd_args \<Rightarrow> memory \<Rightarrow> nat \<Rightarrow> nat \<Rightarrow> nat \<Rightarrow> real" where
  "K_at a mem bh j c = mem (K_ptr a + qkv_offset_of a bh + c * stride_K_dim a + j * stride_K_seq a)"

definition V_at :: "fwd_args \<Rightarrow> memory \<Rightarrow> nat \<Rightarrow> nat \<Rightarrow> nat \<Rightarrow> real" where
  "V_at a mem bh j c = mem (V_ptr a + qkv_offset_of a bh + j * stride_V_seq a + c * stride_V_dim a)"

definition masked_score :: "fwd_args \<Rightarrow> memory \<Rightarrow> nat \<Rightarrow> nat \<Rightarrow> nat \<Rightarrow> real" where
  "masked_score a mem bh i j =
     (\<Sum>c<HEAD_DIM a. Q_at a mem bh i c * K_at a mem bh j c) * softmax_scale a
     + (if i \<ge> j then 0 else - inf_val)"

fun scale_of :: "xreal \<Rightarrow> real" where
  "scale_of NegInf = 0"
| "scale_of (Fin m) = exp (- m)"

lemma sum_lessThan_add:
  fixes f :: "nat \<Rightarrow> real"
  shows "(\<Sum>j<a + b. f j) = (\<Sum>j<a. f j) + (\<Sum>j<b. f (a + j))"
  by (induction b) (simp_all add: add.assoc[symmetric])

lemma exp_sub_eq: "exp (x - y) = exp (- y) * exp (x::real)"
  by (simp add: exp_diff exp_minus divide_inverse mult.commute)

lemma exp_sub_x_scale: "exp_sub_x m x * scale_of m = exp (- x) * (if m = NegInf then 0 else 1)"
  by (cases m) (simp_all add: exp_diff exp_minus field_simps)

definition fwd_inv :: "fwd_args \<Rightarrow> memory \<Rightarrow> nat \<Rightarrow> nat \<Rightarrow> nat \<Rightarrow> fwd_state \<Rightarrow> bool" where
  "fwd_inv a mem q bh n st \<longleftrightarrow>
     K_block_ptr st = make_block_ptr (K_ptr a + qkv_offset_of a bh) (HEAD_DIM a, SEQ_LEN a)
             (stride_K_dim a, stride_K_seq a) (0, n * BLOCK_SIZE_KV a) (HEAD_DIM a, BLOCK_SIZE_KV a)
   \<and> V_block_ptr st = make_block_ptr (V_ptr a + qkv_offset_of a bh) (SEQ_LEN a, HEAD_DIM a)
             (stride_V_seq a, stride_V_dim a) (n * BLOCK_SIZE_KV a, 0) (BLOCK_SIZE_KV a, HEAD_DIM a)
   \<and> (\<forall>r. softmax_denom st r =
            scale_of (s_max st r) * (\<Sum>j<n * BLOCK_SIZE_KV a. exp (masked_score a mem bh (q * BLOCK_SIZE_Q a + r) j)))
   \<and> (\<forall>r c. O_block st r c =
            scale_of (s_max st r) * (\<Sum>j<n * BLOCK_SIZE_KV a. exp (masked_score a mem bh (q * BLOCK_SIZE_Q a + r) j) * V_at a mem bh j c))
   \<and> (0 < n \<longrightarrow> (\<forall>r. s_max st r \<noteq> NegInf))"

lemma fwd_body_inv:
  assumes "fwd_inv a mem q bh n st"
  shows "fwd_inv a mem q bh (Suc n)
           (fwd_body a mem q (\<lambda>r c. Q_at a mem bh (q * BLOCK_SIZE_Q a + r) c) (n * BLOCK_SIZE_KV a) st)"
proof -
  let ?BKV = "BLOCK_SIZE_KV a"
  let ?Qb = "\<lambda>r c. Q_at a mem bh (q * BLOCK_SIZE_Q a + r) c"
  let ?Kb = "tl_load mem (K_block_ptr st)"
  let ?Vb = "tl_load mem (V_block_ptr st)"
  let ?S = "S_block_of a q (n * ?BKV) ?Qb ?Kb"
  let ?new = "new_s_max_of a (s_max st) ?S"
  let ?w = "\<lambda>r j. exp (masked_score a mem bh (q * BLOCK_SIZE_Q a + r) j)"
  have Kb: "?Kb c j = K_at a mem bh (n * ?BKV + j) c" for c j
    using assms by (simp add: fwd_inv_def tl_load_def bp_addr_def make_block_ptr_def K_at_def)
  have Vb: "?Vb j c = V_at a mem bh (n * ?BKV + j) c" for c j
    using assms by (simp add: fwd_inv_def tl_load_def bp_addr_def make_block_ptr_def V_at_def)
  have S: "?S r j = masked_score a mem bh (q * BLOCK_SIZE_Q a + r) (n * ?BKV + j)" for r j
    by (simp add: S_block_of_def tl_dot_def Kb masked_score_def causal_mask_def)
  have P: "P_block_of ?S ?new r j = exp (- ?new r) * ?w r (n * ?BKV + j)" for r j
    by (simp add: P_block_of_def S exp_sub_eq)
  have den: "softmax_denom st r = scale_of (s_max st r) * (\<Sum>j<n * ?BKV. ?w r j)" for r
    using assms by (simp add: fwd_inv_def)
  have acc: "O_block st r c = scale_of (s_max st r) * (\<Sum>j<n * ?BKV. ?w r j * V_at a mem bh j c)" for r c
    using assms by (simp add: fwd_inv_def)
  have corr: "exp_sub_x (s_max st r) (?new r) * scale_of (s_max st r) * X
              = exp (- ?new r) * (if s_max st r = NegInf then 0 else 1) * X" for r X
    by (simp only: exp_sub_x_scale)
  have first: "s_max st r = NegInf \<Longrightarrow> n = 0" for r
    using assms by (auto simp: fwd_inv_def)
  have den': "exp_sub_x (s_max st r) (?new r) * softmax_denom st r + tl_sum_axis1 ?BKV (P_block_of ?S ?new) r
      = exp (- ?new r) * (\<Sum>j<Suc n * ?BKV. ?w r j)" for r
  proof -
    have "exp_sub_x (s_max st r) (?new r) * softmax_denom st r
          = exp (- ?new r) * (\<Sum>j<n * ?BKV. ?w r j)"
      using corr[of r "\<Sum>j<n * ?BKV. ?w r j"] first[of r]
      by (cases "s_max st r = NegInf") (simp_all add: den mult.assoc)
    moreover have "tl_sum_axis1 ?BKV (P_block_of ?S ?new) r = exp (- ?new r) * (\<Sum>j<?BKV. ?w r (n * ?BKV + j))"
      by (simp add: tl_sum_axis1_def P sum_distrib_left)
    moreover have "(\<Sum>j<Suc n * ?BKV. ?w r j) = (\<Sum>j<n * ?BKV. ?w r j) + (\<Sum>j<?BKV. ?w r (n * ?BKV + j))"
      using sum_lessThan_add[of "?w r" "n * ?BKV" ?BKV] by (simp add: add.commute)
    ultimately show ?thesis by (simp add: distrib_left)
  qed
  have acc': "O_block st r c * exp_sub_x (s_max st r) (?new r) + tl_dot ?BKV (P_block_of ?S ?new) ?Vb r c
      = exp (- ?new r) * (\<Sum>j<Suc n * ?BKV. ?w r j * V_at a mem bh j c)" for r c
  proof -
    have "O_block st r c * exp_sub_x (s_max st r) (?new r)
          = exp (- ?new r) * (\<Sum>j<n * ?BKV. ?w r j * V_at a mem bh j c)"
      using corr[of r "\<Sum>j<n * ?BKV. ?w r j * V_at a mem bh j c"] first[of r]
      by (cases "s_max st r = NegInf") (simp_all add: acc mult.assoc mult.commute mult.left_commute)
    moreover have "tl_dot ?BKV (P_block_of ?S ?new) ?Vb r c
           = exp (- ?new r) * (\<Sum>j<?BKV. ?w r (n * ?BKV + j) * V_at a mem bh (n * ?BKV + j) c)"
      by (simp add: tl_dot_def P Vb sum_distrib_left mult.assoc)
    moreover have "(\<Sum>j<Suc n * ?BKV. ?w r j * V_at a mem bh j c)
         = (\<Sum>j<n * ?BKV. ?w r j * V_at a mem bh j c) + (\<Sum>j<?BKV. ?w r (n * ?BKV + j) * V_at a mem bh (n * ?BKV + j) c)"
      using sum_lessThan_add[of "\<lambda>j. ?w r j * V_at a mem bh j c" "n * ?BKV" ?BKV] by (simp add: add.commute)
    ultimately show ?thesis by (simp add: distrib_left)
  qed
  have ptrs: "tl_advance (K_block_ptr st) (0, ?BKV) = make_block_ptr (K_ptr a + qkv_offset_of a bh) (HEAD_DIM a, SEQ_LEN a)
             (stride_K_dim a, stride_K_seq a) (0, Suc n * ?BKV) (HEAD_DIM a, ?BKV)"
     "tl_advance (V_block_ptr st) (?BKV, 0) = make_block_ptr (V_ptr a + qkv_offset_of a bh) (SEQ_LEN a, HEAD_DIM a)
             (stride_V_seq a, stride_V_dim a) (Suc n * ?BKV, 0) (?BKV, HEAD_DIM a)"
    using assms by (simp_all add: fwd_inv_def tl_advance_def make_block_ptr_def add.commute)
  show ?thesis
    unfolding fwd_inv_def[of a mem q bh "Suc n"] fwd_body_def Let_def
    by (simp add: den' acc' ptrs del: mult_Suc)
qed


lemma fwd_inv_init:
  "fwd_inv a mem q bh 0
     \<lparr>s_max = (\<lambda>r. NegInf), softmax_denom = (\<lambda>r. 0), O_block = (\<lambda>r c. 0),
      K_block_ptr = make_block_ptr (K_ptr a + qkv_offset_of a bh) (HEAD_DIM a, SEQ_LEN a)
             (stride_K_dim a, stride_K_seq a) (0, 0) (HEAD_DIM a, BLOCK_SIZE_KV a),
      V_block_ptr = make_block_ptr (V_ptr a + qkv_offset_of a bh) (SEQ_LEN a, HEAD_DIM a)
             (stride_V_seq a, stride_V_dim a) (0, 0) (BLOCK_SIZE_KV a, HEAD_DIM a)\<rparr>"
  by (simp add: fwd_inv_def)

lemma fwd_fold_inv:
  assumes "fwd_inv a mem q bh 0 st0"
  shows "fwd_inv a mem q bh n
           (fold (fwd_body a mem q (\<lambda>r c. Q_at a mem bh (q * BLOCK_SIZE_Q a + r) c))
                 (map (\<lambda>k. k * BLOCK_SIZE_KV a) [0..<n]) st0)"
proof (induction n)
  case 0
  show ?case using assms by simp
next
  case (Suc n)
  show ?case using fwd_body_inv[OF Suc] by simp
qed

definition visited_cols :: "fwd_args \<Rightarrow> nat \<Rightarrow> nat" where
  "visited_cols a q = cdiv ((q + 1) * BLOCK_SIZE_Q a) (BLOCK_SIZE_KV a) * BLOCK_SIZE_KV a"

lemma fwd_loop_inv:
  "fwd_inv a mem q bh (cdiv ((q + 1) * BLOCK_SIZE_Q a) (BLOCK_SIZE_KV a)) (fwd_loop a mem q bh)"
proof -
  have Q: "Q_block_of a mem q bh = (\<lambda>r c. Q_at a mem bh (q * BLOCK_SIZE_Q a + r) c)"
    by (simp add: Q_block_of_def Let_def tl_load_def bp_addr_def make_block_ptr_def Q_at_def
        qkv_offset_of_def)
  show ?thesis
    unfolding fwd_loop_def fwd_steps_def Let_def kv_offsets_eq qkv_offset_of_def[symmetric] Q
    by (rule fwd_fold_inv[OF fwd_inv_init])
qed

definition denom_sum :: "fwd_args \<Rightarrow> memory \<Rightarrow> nat \<Rightarrow> nat \<Rightarrow> nat \<Rightarrow> real" where
  "denom_sum a mem bh i n = (\<Sum>j<n. exp (masked_score a mem bh i j))"

definition numer_sum :: "fwd_args \<Rightarrow> memory \<Rightarrow> nat \<Rightarrow> nat \<Rightarrow> nat \<Rightarrow> nat \<Rightarrow> real" where
  "numer_sum a mem bh i c n = (\<Sum>j<n. exp (masked_score a mem bh i j) * V_at a mem bh j c)"

lemma denom_sum_pos: "0 < n \<Longrightarrow> 0 < denom_sum a mem bh i n"
  unfolding denom_sum_def by (intro sum_pos) auto

lemma visited_cols_pos:
  "0 < BLOCK_SIZE_Q a \<Longrightarrow> 0 < BLOCK_SIZE_KV a \<Longrightarrow> 0 < visited_cols a q"
  unfolding visited_cols_def using cdiv_pos[of "(q + 1) * BLOCK_SIZE_Q a" "BLOCK_SIZE_KV a"] by simp

lemma fwd_loop_result:
  assumes "0 < BLOCK_SIZE_Q a" "0 < BLOCK_SIZE_KV a"
  shows "O_block (fwd_loop a mem q bh) r c / softmax_denom (fwd_loop a mem q bh) r
           = numer_sum a mem bh (q * BLOCK_SIZE_Q a + r) c (visited_cols a q)
             / denom_sum a mem bh (q * BLOCK_SIZE_Q a + r) (visited_cols a q)"
    and "log_normalizer (s_max (fwd_loop a mem q bh) r) (softmax_denom (fwd_loop a mem q bh) r)
           = Some (ln (denom_sum a mem bh (q * BLOCK_SIZE_Q a + r) (visited_cols a q)))"
proof -
  let ?st = "fwd_loop a mem q bh"
  let ?n = "cdiv ((q + 1) * BLOCK_SIZE_Q a) (BLOCK_SIZE_KV a)"
  let ?i = "q * BLOCK_SIZE_Q a + r"
  have inv: "fwd_inv a mem q bh ?n ?st" by (rule fwd_loop_inv)
  have npos: "0 < ?n" using assms by (intro cdiv_pos) auto
  from inv npos obtain m where m: "s_max ?st r = Fin m"
    by (cases "s_max ?st r") (auto simp: fwd_inv_def)
  have den: "softmax_denom ?st r = exp (- m) * denom_sum a mem bh ?i (visited_cols a q)"
    using inv m by (simp add: fwd_inv_def denom_sum_def visited_cols_def)
  have acc: "O_block ?st r c = exp (- m) * numer_sum a mem bh ?i c (visited_cols a q)"
    using inv m by (simp add: fwd_inv_def numer_sum_def visited_cols_def)
  have dpos: "0 < denom_sum a mem bh ?i (visited_cols a q)"
    by (rule denom_sum_pos[OF visited_cols_pos[OF assms]])
  show "O_block ?st r c / softmax_denom ?st r
           = numer_sum a mem bh ?i c (visited_cols a q) / denom_sum a mem bh ?i (visited_cols a q)"
    by (simp add: den acc)
  have "0 < softmax_denom ?st r" using dpos by (simp add: den)
  moreover have "m + ln (softmax_denom ?st r) = ln (denom_sum a mem bh ?i (visited_cols a q))"
    using dpos by (simp add: den ln_mult)
  ultimately show "log_normalizer (s_max ?st r) (softmax_denom ?st r)
           = Some (ln (denom_sum a mem bh ?i (visited_cols a q)))"
    by (simp add: log_normalizer_def m)
qed

text \<open>What one program instance does to memory, in closed form.\<close>

definition fwd_writes :: "fwd_args \<Rightarrow> nat \<times> nat \<times> nat \<Rightarrow> memory \<Rightarrow> memory" where
  "fwd_writes a pid mem =
     (let q = fst pid; bh = fst (snd pid) in
      tl_store_vec (BLOCK_SIZE_Q a)
        (\<lambda>r. M_ptr a + (q * BLOCK_SIZE_Q a + r + (bh div NUM_HEADS a) * stride_M_batch a
                          + (bh mod NUM_HEADS a) * stride_M_head a))
        (\<lambda>r. ln (denom_sum a mem bh (q * BLOCK_SIZE_Q a + r) (visited_cols a q)))
        (tl_store (make_block_ptr (O_ptr a + qkv_offset_of a bh) (SEQ_LEN a, HEAD_DIM a)
             (stride_O_seq a, stride_O_dim a) (q * BLOCK_SIZE_Q a, 0)
             (BLOCK_SIZE_Q a, HEAD_DIM a))
           (\<lambda>r c. numer_sum a mem bh (q * BLOCK_SIZE_Q a + r) c (visited_cols a q)
                   / denom_sum a mem bh (q * BLOCK_SIZE_Q a + r) (visited_cols a q)) mem))"

lemma attn_fwd_closed:
  assumes "0 < BLOCK_SIZE_Q a" "0 < BLOCK_SIZE_KV a"
  shows "attn_fwd a pid mem = Inr (fwd_writes a pid mem)"
  unfolding attn_fwd_def fwd_writes_def Let_def qkv_offset_of_def[symmetric]
  by (simp add: fwd_loop_result[OF assms])


section \<open>Stores, and a launch as a sequence of writes\<close>

lemma fold_upd_other:
  "y \<notin> f ` set xs \<Longrightarrow> fold (\<lambda>x m. m(f x := g x)) xs m y = m y"
  by (induction xs arbitrary: m) auto

lemma fold_upd_at:
  "x \<in> set xs \<Longrightarrow> inj_on f (set xs) \<Longrightarrow> fold (\<lambda>x m. m(f x := g x)) xs m (f x) = g x"
proof (induction xs arbitrary: m)
  case Nil
  then show ?case by simp
next
  case (Cons y ys)
  show ?case
  proof (cases "x \<in> set ys")
    case True
    moreover have "inj_on f (set ys)" using Cons.prems(2) by (simp add: inj_on_def)
    ultimately show ?thesis using Cons.IH by simp
  next
    case False
    with Cons.prems have xy: "x = y" by simp
    have "f x \<notin> f ` set ys" using Cons.prems(2) False xy by (auto simp: inj_on_def)
    then have "fold (\<lambda>x m. m(f x := g x)) ys (m(f y := g y)) (f x) = (m(f y := g y)) (f x)"
      by (rule fold_upd_other)
    then show ?thesis unfolding xy by (simp only: fold_simps comp_apply fun_upd_same)
  qed
qed

lemma tl_store_vec_other:
  assumes "\<And>r. r < n \<Longrightarrow> ptrs r \<noteq> y"
  shows "tl_store_vec n ptrs v mem y = mem y"
proof -
  have "y \<notin> ptrs ` set [0..<n]" using assms by fastforce
  then show ?thesis unfolding tl_store_vec_def by (rule fold_upd_other)
qed

lemma tl_store_vec_at:
  assumes "inj_on ptrs {..<n}" "r < n"
  shows "tl_store_vec n ptrs v mem (ptrs r) = v r"
proof -
  have "set [0..<n] = {..<n}" by auto
  then show ?thesis
    unfolding tl_store_vec_def using assms by (intro fold_upd_at) simp_all
qed

lemma tl_store_other:
  assumes "\<And>r c. r < fst (bp_block_shape p) \<Longrightarrow> c < snd (bp_block_shape p) \<Longrightarrow> bp_addr p r c \<noteq> y"
  shows "tl_store p v mem y = mem y"
proof -
  have "y \<notin> (\<lambda>rc. bp_addr p (fst rc) (snd rc))
              ` set (List.product [0..<fst (bp_block_shape p)] [0..<snd (bp_block_shape p)])"
    using assms by fastforce
  then show ?thesis unfolding tl_store_def by (rule fold_upd_other)
qed

lemma tl_store_at:
  assumes "inj_on (\<lambda>rc. bp_addr p (fst rc) (snd rc))
             ({..<fst (bp_block_shape p)} \<times> {..<snd (bp_block_shape p)})"
    and "r < fst (bp_block_shape p)" "c < snd (bp_block_shape p)"
  shows "tl_store p v mem (bp_addr p r c) = v r c"
proof -
  let ?xs = "List.product [0..<fst (bp_block_shape p)] [0..<snd (bp_block_shape p)]"
  have s: "set ?xs = {..<fst (bp_block_shape p)} \<times> {..<snd (bp_block_shape p)}"
    by (auto simp: lessThan_def)
  have "fold (\<lambda>rc m. m((\<lambda>rc. bp_addr p (fst rc) (snd rc)) rc := (\<lambda>rc. v (fst rc) (snd rc)) rc)) ?xs mem
          ((\<lambda>rc. bp_addr p (fst rc) (snd rc)) (r, c)) = (\<lambda>rc. v (fst rc) (snd rc)) (r, c)"
    by (rule fold_upd_at) (use assms s in auto)
  then show ?thesis by (simp add: tl_store_def)
qed

lemma run_programs_total:
  assumes "\<And>p m. p \<in> set ps \<Longrightarrow> k p m = Inr (w p m)"
  shows "run_programs k ps m = Inr (fold w ps m)"
  using assms by (induction ps arbitrary: m) auto

lemma fold_frame:
  assumes "\<And>p m. p \<in> set ps \<Longrightarrow> x \<notin> W p \<Longrightarrow> w p m x = m x"
    and "\<And>p. p \<in> set ps \<Longrightarrow> x \<notin> W p"
  shows "fold w ps m x = m x"
  using assms by (induction ps arbitrary: m) auto

lemma fold_writes_at:
  assumes frame: "\<And>p m y. p \<in> set ps \<Longrightarrow> y \<notin> W p \<Longrightarrow> w p m y = m y"
    and dist: "distinct ps"
    and p0: "p0 \<in> set ps"
    and others: "\<And>p. p \<in> set ps \<Longrightarrow> p \<noteq> p0 \<Longrightarrow> x \<notin> W p"
    and reads: "\<And>p y. p \<in> set ps \<Longrightarrow> y \<in> R \<Longrightarrow> y \<notin> W p"
    and val: "\<And>m'. (\<And>y. y \<in> R \<Longrightarrow> m' y = m y) \<Longrightarrow> w p0 m' x = v"
  shows "fold w ps m x = v"
proof -
  from p0 obtain xs ys where ps: "ps = xs @ p0 # ys" by (auto simp: in_set_conv_decomp)
  with dist have nx: "p0 \<notin> set xs" and ny: "p0 \<notin> set ys" by auto
  have "fold w ps m x = fold w ys (w p0 (fold w xs m)) x" by (simp add: ps)
  also have "\<dots> = w p0 (fold w xs m) x"
  proof (rule fold_frame[where W = W])
    fix p m assume "p \<in> set ys" "x \<notin> W p" then show "w p m x = m x" using frame ps by simp
  next
    fix p assume "p \<in> set ys" then show "x \<notin> W p" using others ps ny by auto
  qed
  also have "\<dots> = v"
  proof (rule val)
    fix y assume y: "y \<in> R"
    show "fold w xs m y = m y"
    proof (rule fold_frame[where W = W])
      fix p m assume "p \<in> set xs" "y \<notin> W p" then show "w p m y = m y" using frame ps by simp
    next
      fix p assume "p \<in> set xs" then show "y \<notin> W p" using reads y ps by simp
    qed
  qed
  finally show ?thesis .
qed


section \<open>The forward launch on row-major tensors\<close>

text \<open>
  The layout the statements about the forward pass are proved for: \<open>Q\<close>, \<open>K\<close>,
  \<open>V\<close> and \<open>O\<close> row-major with the same sizes, block sizes that are positive and
  divide the sequence length, and the memory of \<open>O\<close> and of \<open>M\<close> apart from each
  other and from what the kernel reads.
\<close>

definition separate :: "nat \<Rightarrow> nat \<Rightarrow> nat \<Rightarrow> nat \<Rightarrow> bool" where
  "separate p n p' n' \<longleftrightarrow> p + n \<le> p' \<or> p' + n' \<le> p"

definition row_major_args :: "fwd_args \<Rightarrow> bool" where
  "row_major_args a \<longleftrightarrow>
     stride_Q_batch a = NUM_HEADS a * (SEQ_LEN a * HEAD_DIM a)
   \<and> stride_Q_head a = SEQ_LEN a * HEAD_DIM a
   \<and> stride_Q_seq a = HEAD_DIM a \<and> stride_Q_dim a = 1
   \<and> stride_K_seq a = HEAD_DIM a \<and> stride_K_dim a = 1
   \<and> stride_V_seq a = HEAD_DIM a \<and> stride_V_dim a = 1
   \<and> stride_O_seq a = HEAD_DIM a \<and> stride_O_dim a = 1
   \<and> stride_M_batch a = NUM_HEADS a * SEQ_LEN a
   \<and> stride_M_head a = SEQ_LEN a"

definition numel :: "fwd_args \<Rightarrow> nat" where
  "numel a = BATCH_SIZE a * NUM_HEADS a * SEQ_LEN a * HEAD_DIM a"

definition nrows :: "fwd_args \<Rightarrow> nat" where
  "nrows a = BATCH_SIZE a * NUM_HEADS a * SEQ_LEN a"

definition fwd_layout_ok :: "fwd_args \<Rightarrow> bool" where
  "fwd_layout_ok a \<longleftrightarrow>
     row_major_args a
   \<and> 0 < BLOCK_SIZE_Q a \<and> 0 < BLOCK_SIZE_KV a
   \<and> BLOCK_SIZE_Q a dvd SEQ_LEN a \<and> BLOCK_SIZE_KV a dvd SEQ_LEN a
   \<and> separate (O_ptr a) (numel a) (Q_ptr a) (numel a)
   \<and> separate (O_ptr a) (numel a) (K_ptr a) (numel a)
   \<and> separate (O_ptr a) (numel a) (V_ptr a) (numel a)
   \<and> separate (M_ptr a) (nrows a) (Q_ptr a) (numel a)
   \<and> separate (M_ptr a) (nrows a) (K_ptr a) (numel a)
   \<and> separate (M_ptr a) (nrows a) (V_ptr a) (numel a)
   \<and> separate (O_ptr a) (numel a) (M_ptr a) (nrows a)"

definition read_region :: "fwd_args \<Rightarrow> nat set" where
  "read_region a = {Q_ptr a..<Q_ptr a + numel a} \<union> {K_ptr a..<K_ptr a + numel a}
                   \<union> {V_ptr a..<V_ptr a + numel a}"

definition row_id :: "fwd_args \<Rightarrow> nat \<times> nat \<times> nat \<Rightarrow> nat \<Rightarrow> nat" where
  "row_id a pid r = fst (snd pid) * SEQ_LEN a + (fst pid * BLOCK_SIZE_Q a + r)"

definition write_set :: "fwd_args \<Rightarrow> nat \<times> nat \<times> nat \<Rightarrow> nat set" where
  "write_set a pid =
     {x. \<exists>r<BLOCK_SIZE_Q a. \<exists>c<HEAD_DIM a. x = O_ptr a + (row_id a pid r * HEAD_DIM a + c)}
     \<union> {x. \<exists>r<BLOCK_SIZE_Q a. x = M_ptr a + row_id a pid r}"

definition fwd_programs :: "fwd_args \<Rightarrow> (nat \<times> nat \<times> nat) list" where
  "fwd_programs a =
     grid_ids (fwd_grid (SEQ_LEN a) (BATCH_SIZE a) (NUM_HEADS a) (BLOCK_SIZE_Q a))"

lemma divmod_unique_nat:
  fixes n :: nat
  assumes "x * n + y = x' * n + y'" "y < n" "y' < n"
  shows "x = x' \<and> y = y'"
proof -
  have "(x * n + y) div n = x" "(x * n + y) mod n = y" using assms(2) by simp_all
  moreover have "(x' * n + y') div n = x'" "(x' * n + y') mod n = y'" using assms(3) by simp_all
  ultimately show ?thesis using assms(1) by metis
qed

lemma lin_bound:
  fixes n :: nat
  assumes "x < m" "y < n"
  shows "x * n + y < m * n"
proof -
  have "x * n + y < x * n + n" using assms(2) by simp
  also have "\<dots> = (x + 1) * n" by simp
  also have "\<dots> \<le> m * n" using assms(1) by (intro mult_le_mono1) simp
  finally show ?thesis .
qed

lemma qkv_offset_row_major:
  assumes "row_major_args a"
  shows "qkv_offset_of a bh = bh * (SEQ_LEN a * HEAD_DIM a)"
proof -
  let ?H = "NUM_HEADS a" and ?s = "SEQ_LEN a * HEAD_DIM a"
  have "qkv_offset_of a bh = (bh div ?H) * (?H * ?s) + (bh mod ?H) * ?s"
    using assms by (simp add: qkv_offset_of_def row_major_args_def)
  also have "\<dots> = ((bh div ?H) * ?H + bh mod ?H) * ?s"
    by (simp only: distrib_right mult.assoc)
  also have "(bh div ?H) * ?H + bh mod ?H = bh" by simp
  finally show ?thesis .
qed

lemma in_fwd_programs:
  "pid \<in> set (fwd_programs a) \<longleftrightarrow>
     fst pid < cdiv (SEQ_LEN a) (BLOCK_SIZE_Q a) \<and> fst (snd pid) < BATCH_SIZE a * NUM_HEADS a
     \<and> snd (snd pid) = 0"
  by (cases pid) (auto simp: fwd_programs_def grid_ids_def fwd_grid_def)

lemma distinct_fwd_programs: "distinct (fwd_programs a)"
  by (simp add: fwd_programs_def grid_ids_def distinct_product)

lemma block_row_bound:
  assumes "fwd_layout_ok a" "pid \<in> set (fwd_programs a)" "r < BLOCK_SIZE_Q a"
  shows "fst pid * BLOCK_SIZE_Q a + r < SEQ_LEN a"
proof -
  have "fst pid * BLOCK_SIZE_Q a < SEQ_LEN a"
    using assms by (simp add: in_fwd_programs fwd_layout_ok_def cdiv_bound)
  moreover have "BLOCK_SIZE_Q a dvd SEQ_LEN a" using assms by (simp add: fwd_layout_ok_def)
  then obtain k where k: "SEQ_LEN a = k * BLOCK_SIZE_Q a" by (auto simp: dvd_def mult.commute)
  ultimately have "fst pid < k" using assms(1) by (simp add: fwd_layout_ok_def)
  then show ?thesis unfolding k using assms(3) by (rule lin_bound)
qed

lemma row_id_bound:
  assumes "fwd_layout_ok a" "pid \<in> set (fwd_programs a)" "r < BLOCK_SIZE_Q a"
  shows "row_id a pid r < nrows a"
  unfolding row_id_def nrows_def
  using assms(2) block_row_bound[OF assms] by (intro lin_bound) (simp_all add: in_fwd_programs)

lemma row_id_inj:
  assumes "fwd_layout_ok a" "pid \<in> set (fwd_programs a)" "r < BLOCK_SIZE_Q a"
    "pid' \<in> set (fwd_programs a)" "r' < BLOCK_SIZE_Q a"
    "row_id a pid r = row_id a pid' r'"
  shows "pid = pid' \<and> r = r'"
proof -
  from divmod_unique_nat[OF assms(6)[unfolded row_id_def] block_row_bound[OF assms(1,2,3)]
      block_row_bound[OF assms(1,4,5)]]
  have 1: "fst (snd pid) = fst (snd pid')"
    and 2: "fst pid * BLOCK_SIZE_Q a + r = fst pid' * BLOCK_SIZE_Q a + r'" by simp_all
  from divmod_unique_nat[OF 2 assms(3,5)] have 3: "fst pid = fst pid'" "r = r'" by simp_all
  have "snd (snd pid) = snd (snd pid')" using assms(2,4) by (simp add: in_fwd_programs)
  with 1 3 show ?thesis by (simp add: prod_eq_iff)
qed

lemma visited_cols_le:
  assumes "fwd_layout_ok a" "pid \<in> set (fwd_programs a)"
  shows "visited_cols a (fst pid) \<le> SEQ_LEN a"
proof -
  let ?BKV = "BLOCK_SIZE_KV a" and ?BQ = "BLOCK_SIZE_Q a"
  have pos: "0 < ?BKV" "0 < ?BQ" using assms(1) by (simp_all add: fwd_layout_ok_def)
  obtain k where k: "SEQ_LEN a = k * ?BKV"
    using assms(1) by (auto simp: fwd_layout_ok_def dvd_def mult.commute)
  have "fst pid * ?BQ + (?BQ - 1) < SEQ_LEN a"
    using block_row_bound[OF assms, of "?BQ - 1"] pos by simp
  then have "(fst pid + 1) * ?BQ \<le> k * ?BKV" using pos unfolding k by (cases ?BQ) auto
  then have "\<not> k * ?BKV < (fst pid + 1) * ?BQ" by simp
  then have "\<not> k < cdiv ((fst pid + 1) * ?BQ) ?BKV"
    by (simp only: cdiv_bound[OF pos(1), symmetric] not_False_eq_True)
  then have "cdiv ((fst pid + 1) * ?BQ) ?BKV \<le> k" by simp
  then show ?thesis unfolding visited_cols_def k by (rule mult_le_mono1)
qed


lemma O_bp_addr:
  assumes "row_major_args a"
  shows "bp_addr (make_block_ptr (O_ptr a + qkv_offset_of a (fst (snd pid))) (SEQ_LEN a, HEAD_DIM a)
             (stride_O_seq a, stride_O_dim a) (fst pid * BLOCK_SIZE_Q a, 0)
             (BLOCK_SIZE_Q a, HEAD_DIM a)) r c
         = O_ptr a + (row_id a pid r * HEAD_DIM a + c)"
proof -
  have "stride_O_seq a = HEAD_DIM a" "stride_O_dim a = 1"
    using assms by (simp_all add: row_major_args_def)
  then show ?thesis
    by (simp add: bp_addr_def make_block_ptr_def qkv_offset_row_major[OF assms] row_id_def
        algebra_simps)
qed

lemma M_addr:
  assumes "row_major_args a"
  shows "fst pid * BLOCK_SIZE_Q a + r + (fst (snd pid) div NUM_HEADS a) * stride_M_batch a
           + (fst (snd pid) mod NUM_HEADS a) * stride_M_head a = row_id a pid r"
proof -
  let ?H = "NUM_HEADS a" and ?bh = "fst (snd pid)"
  have "(?bh div ?H) * stride_M_batch a + (?bh mod ?H) * stride_M_head a
          = ((?bh div ?H) * ?H + ?bh mod ?H) * SEQ_LEN a"
    using assms by (simp only: row_major_args_def distrib_right mult.assoc)
  also have "(?bh div ?H) * ?H + ?bh mod ?H = ?bh" by simp
  finally show ?thesis by (simp add: row_id_def)
qed

lemma fwd_writes_row_major:
  assumes "row_major_args a"
  shows "fwd_writes a pid mem =
      tl_store_vec (BLOCK_SIZE_Q a) (\<lambda>r. M_ptr a + row_id a pid r)
        (\<lambda>r. ln (denom_sum a mem (fst (snd pid)) (fst pid * BLOCK_SIZE_Q a + r)
                    (visited_cols a (fst pid))))
        (tl_store (make_block_ptr (O_ptr a + qkv_offset_of a (fst (snd pid)))
             (SEQ_LEN a, HEAD_DIM a) (stride_O_seq a, stride_O_dim a)
             (fst pid * BLOCK_SIZE_Q a, 0) (BLOCK_SIZE_Q a, HEAD_DIM a))
           (\<lambda>r c. numer_sum a mem (fst (snd pid)) (fst pid * BLOCK_SIZE_Q a + r) c
                     (visited_cols a (fst pid))
                   / denom_sum a mem (fst (snd pid)) (fst pid * BLOCK_SIZE_Q a + r)
                       (visited_cols a (fst pid))) mem)"
  unfolding fwd_writes_def Let_def
  by (simp only: M_addr[OF assms] add.assoc[symmetric])

lemma fwd_writes_frame:
  assumes "row_major_args a" "x \<notin> write_set a pid"
  shows "fwd_writes a pid mem x = mem x"
proof -
  have 1: "M_ptr a + row_id a pid r \<noteq> x" if "r < BLOCK_SIZE_Q a" for r
    using assms(2) that by (auto simp: write_set_def)
  have 2: "bp_addr (make_block_ptr (O_ptr a + qkv_offset_of a (fst (snd pid)))
             (SEQ_LEN a, HEAD_DIM a) (stride_O_seq a, stride_O_dim a)
             (fst pid * BLOCK_SIZE_Q a, 0) (BLOCK_SIZE_Q a, HEAD_DIM a)) r c \<noteq> x"
    if "r < BLOCK_SIZE_Q a" "c < HEAD_DIM a" for r c
    using assms(2) that unfolding O_bp_addr[OF assms(1)] by (auto simp: write_set_def)
  show ?thesis
    unfolding fwd_writes_row_major[OF assms(1)]
    by (subst tl_store_vec_other, (rule 1, assumption), subst tl_store_other)
       (simp_all add: make_block_ptr_def 2[unfolded make_block_ptr_def])
qed


lemma elem_offset_bound:
  assumes "bh < BATCH_SIZE a * NUM_HEADS a" "i < SEQ_LEN a" "c < HEAD_DIM a"
  shows "bh * (SEQ_LEN a * HEAD_DIM a) + i * HEAD_DIM a + c < numel a"
proof -
  have "bh * SEQ_LEN a + i < BATCH_SIZE a * NUM_HEADS a * SEQ_LEN a"
    using assms(1,2) by (rule lin_bound)
  then have "(bh * SEQ_LEN a + i) * HEAD_DIM a + c < BATCH_SIZE a * NUM_HEADS a * SEQ_LEN a * HEAD_DIM a"
    using assms(3) by (rule lin_bound)
  then show ?thesis by (simp add: numel_def algebra_simps)
qed

lemma reads_agree:
  assumes rm: "row_major_args a"
    and agree: "\<And>y. y \<in> read_region a \<Longrightarrow> m' y = m y"
    and bh: "bh < BATCH_SIZE a * NUM_HEADS a" and i: "i < SEQ_LEN a" and c: "c < HEAD_DIM a"
  shows "Q_at a m' bh i c = Q_at a m bh i c"
    and "K_at a m' bh i c = K_at a m bh i c"
    and "V_at a m' bh i c = V_at a m bh i c"
proof -
  note b = elem_offset_bound[OF bh i c]
  have s: "stride_Q_seq a = HEAD_DIM a" "stride_Q_dim a = 1" "stride_K_seq a = HEAD_DIM a"
    "stride_K_dim a = 1" "stride_V_seq a = HEAD_DIM a" "stride_V_dim a = 1"
    using rm by (simp_all add: row_major_args_def)
  have "Q_ptr a + qkv_offset_of a bh + i * stride_Q_seq a + c * stride_Q_dim a \<in> read_region a"
    using b by (simp add: read_region_def qkv_offset_row_major[OF rm] s)
  then show "Q_at a m' bh i c = Q_at a m bh i c" unfolding Q_at_def by (rule agree)
  have "K_ptr a + qkv_offset_of a bh + c * stride_K_dim a + i * stride_K_seq a \<in> read_region a"
    using b by (simp add: read_region_def qkv_offset_row_major[OF rm] s)
  then show "K_at a m' bh i c = K_at a m bh i c" unfolding K_at_def by (rule agree)
  have "V_ptr a + qkv_offset_of a bh + i * stride_V_seq a + c * stride_V_dim a \<in> read_region a"
    using b by (simp add: read_region_def qkv_offset_row_major[OF rm] s)
  then show "V_at a m' bh i c = V_at a m bh i c" unfolding V_at_def by (rule agree)
qed

lemma masked_score_agree:
  assumes rm: "row_major_args a"
    and agree: "\<And>y. y \<in> read_region a \<Longrightarrow> m' y = m y"
    and bh: "bh < BATCH_SIZE a * NUM_HEADS a" and i: "i < SEQ_LEN a" and j: "j < SEQ_LEN a"
  shows "masked_score a m' bh i j = masked_score a m bh i j"
  unfolding masked_score_def
  using reads_agree(1)[OF rm agree bh i] reads_agree(2)[OF rm agree bh j] by simp

lemma sums_agree:
  assumes rm: "row_major_args a"
    and agree: "\<And>y. y \<in> read_region a \<Longrightarrow> m' y = m y"
    and bh: "bh < BATCH_SIZE a * NUM_HEADS a" and i: "i < SEQ_LEN a" and n: "n \<le> SEQ_LEN a"
  shows "denom_sum a m' bh i n = denom_sum a m bh i n"
    and "c < HEAD_DIM a \<Longrightarrow> numer_sum a m' bh i c n = numer_sum a m bh i c n"
proof -
  have ms: "masked_score a m' bh i j = masked_score a m bh i j" if "j < n" for j
    using masked_score_agree[OF rm agree bh i] that n by simp
  show "denom_sum a m' bh i n = denom_sum a m bh i n"
    unfolding denom_sum_def by (rule sum.cong) (simp_all add: ms)
  assume c: "c < HEAD_DIM a"
  have v: "V_at a m' bh j c = V_at a m bh j c" if "j < n" for j
    using reads_agree(3)[OF rm agree bh _ c] that n by simp
  show "numer_sum a m' bh i c n = numer_sum a m bh i c n"
    unfolding numer_sum_def by (rule sum.cong) (simp_all add: ms v)
qed

lemma layout_sep:
  assumes "fwd_layout_ok a"
  shows "separate (O_ptr a) (numel a) (Q_ptr a) (numel a)"
    and "separate (O_ptr a) (numel a) (K_ptr a) (numel a)"
    and "separate (O_ptr a) (numel a) (V_ptr a) (numel a)"
    and "separate (M_ptr a) (nrows a) (Q_ptr a) (numel a)"
    and "separate (M_ptr a) (nrows a) (K_ptr a) (numel a)"
    and "separate (M_ptr a) (nrows a) (V_ptr a) (numel a)"
    and "separate (O_ptr a) (numel a) (M_ptr a) (nrows a)"
  using assms by (simp_all add: fwd_layout_ok_def)

lemma write_set_reads:
  assumes ok: "fwd_layout_ok a" and pid: "pid \<in> set (fwd_programs a)" and y: "y \<in> read_region a"
  shows "y \<notin> write_set a pid"
proof
  assume "y \<in> write_set a pid"
  then consider (O) r c where "r < BLOCK_SIZE_Q a" "c < HEAD_DIM a"
        "y = O_ptr a + (row_id a pid r * HEAD_DIM a + c)"
    | (M) r where "r < BLOCK_SIZE_Q a" "y = M_ptr a + row_id a pid r"
    by (auto simp: write_set_def)
  then show False
  proof cases
    case O
    have "row_id a pid r * HEAD_DIM a + c < numel a"
      unfolding numel_def using row_id_bound[OF ok pid O(1)] O(2)
      by (intro lin_bound) (simp_all add: nrows_def)
    then show False using layout_sep(1,2,3)[OF ok] y O(3)
      by (auto simp: read_region_def separate_def)
  next
    case M
    then show False using layout_sep(4,5,6)[OF ok] y row_id_bound[OF ok pid M(1)]
      by (auto simp: read_region_def separate_def)
  qed
qed

lemma write_set_others_O:
  assumes ok: "fwd_layout_ok a" and p0: "p0 \<in> set (fwd_programs a)"
    and r0: "r0 < BLOCK_SIZE_Q a" and c0: "c0 < HEAD_DIM a"
    and pid: "pid \<in> set (fwd_programs a)" and ne: "pid \<noteq> p0"
  shows "O_ptr a + (row_id a p0 r0 * HEAD_DIM a + c0) \<notin> write_set a pid"
proof
  assume "O_ptr a + (row_id a p0 r0 * HEAD_DIM a + c0) \<in> write_set a pid"
  then consider (O) r c where "r < BLOCK_SIZE_Q a" "c < HEAD_DIM a"
        "row_id a p0 r0 * HEAD_DIM a + c0 = row_id a pid r * HEAD_DIM a + c"
    | (M) r where "r < BLOCK_SIZE_Q a"
        "O_ptr a + (row_id a p0 r0 * HEAD_DIM a + c0) = M_ptr a + row_id a pid r"
    by (auto simp: write_set_def)
  then show False
  proof cases
    case O
    from divmod_unique_nat[OF O(3) c0 O(2)] have "row_id a p0 r0 = row_id a pid r" by simp
    from row_id_inj[OF ok p0 r0 pid O(1) this] ne show False by simp
  next
    case M
    have "row_id a p0 r0 * HEAD_DIM a + c0 < numel a"
      unfolding numel_def using row_id_bound[OF ok p0 r0] c0
      by (intro lin_bound) (simp_all add: nrows_def)
    then show False using layout_sep(7)[OF ok] M(2) row_id_bound[OF ok pid M(1)]
      by (auto simp: separate_def)
  qed
qed

lemma write_set_others_M:
  assumes ok: "fwd_layout_ok a" and p0: "p0 \<in> set (fwd_programs a)"
    and r0: "r0 < BLOCK_SIZE_Q a"
    and pid: "pid \<in> set (fwd_programs a)" and ne: "pid \<noteq> p0"
  shows "M_ptr a + row_id a p0 r0 \<notin> write_set a pid"
proof
  assume "M_ptr a + row_id a p0 r0 \<in> write_set a pid"
  then consider (O) r c where "r < BLOCK_SIZE_Q a" "c < HEAD_DIM a"
        "M_ptr a + row_id a p0 r0 = O_ptr a + (row_id a pid r * HEAD_DIM a + c)"
    | (M) r where "r < BLOCK_SIZE_Q a" "row_id a p0 r0 = row_id a pid r"
    by (auto simp: write_set_def)
  then show False
  proof cases
    case O
    have "row_id a pid r * HEAD_DIM a + c < numel a"
      unfolding numel_def using row_id_bound[OF ok pid O(1)] O(2)
      by (intro lin_bound) (simp_all add: nrows_def)
    then show False using layout_sep(7)[OF ok] O(3) row_id_bound[OF ok p0 r0]
      by (auto simp: separate_def)
  next
    case M
    from row_id_inj[OF ok p0 r0 pid M(1) M(2)] ne show False by simp
  qed
qed


lemma fwd_writes_O:
  assumes ok: "fwd_layout_ok a" and pid: "pid \<in> set (fwd_programs a)"
    and r: "r < BLOCK_SIZE_Q a" and c: "c < HEAD_DIM a"
    and agree: "\<And>y. y \<in> read_region a \<Longrightarrow> m' y = m y"
  shows "fwd_writes a pid m' (O_ptr a + (row_id a pid r * HEAD_DIM a + c))
         = numer_sum a m (fst (snd pid)) (fst pid * BLOCK_SIZE_Q a + r) c (visited_cols a (fst pid))
           / denom_sum a m (fst (snd pid)) (fst pid * BLOCK_SIZE_Q a + r) (visited_cols a (fst pid))"
proof -
  have rm: "row_major_args a" using ok by (simp add: fwd_layout_ok_def)
  let ?p = "make_block_ptr (O_ptr a + qkv_offset_of a (fst (snd pid)))
             (SEQ_LEN a, HEAD_DIM a) (stride_O_seq a, stride_O_dim a)
             (fst pid * BLOCK_SIZE_Q a, 0) (BLOCK_SIZE_Q a, HEAD_DIM a)"
  have bs: "fst (bp_block_shape ?p) = BLOCK_SIZE_Q a" "snd (bp_block_shape ?p) = HEAD_DIM a"
    by (simp_all add: make_block_ptr_def)
  have notM: "M_ptr a + row_id a pid r' \<noteq> O_ptr a + (row_id a pid r * HEAD_DIM a + c)"
    if "r' < BLOCK_SIZE_Q a" for r'
  proof -
    have "row_id a pid r * HEAD_DIM a + c < numel a"
      unfolding numel_def using row_id_bound[OF ok pid r] c
      by (intro lin_bound) (simp_all add: nrows_def)
    then show ?thesis using layout_sep(7)[OF ok] row_id_bound[OF ok pid that]
      by (auto simp: separate_def)
  qed
  have inj: "inj_on (\<lambda>rc. bp_addr ?p (fst rc) (snd rc))
               ({..<fst (bp_block_shape ?p)} \<times> {..<snd (bp_block_shape ?p)})"
    unfolding bs O_bp_addr[OF rm]
  proof (rule inj_onI)
    fix x y assume x: "x \<in> {..<BLOCK_SIZE_Q a} \<times> {..<HEAD_DIM a}"
      and y: "y \<in> {..<BLOCK_SIZE_Q a} \<times> {..<HEAD_DIM a}"
      and e: "O_ptr a + (row_id a pid (fst x) * HEAD_DIM a + snd x)
              = O_ptr a + (row_id a pid (fst y) * HEAD_DIM a + snd y)"
    from e have "row_id a pid (fst x) * HEAD_DIM a + snd x = row_id a pid (fst y) * HEAD_DIM a + snd y"
      by simp
    from divmod_unique_nat[OF this] x y
    have "row_id a pid (fst x) = row_id a pid (fst y)" "snd x = snd y" by auto
    then show "x = y" by (simp add: row_id_def prod_eq_iff)
  qed
  have bh: "fst (snd pid) < BATCH_SIZE a * NUM_HEADS a" using pid by (simp add: in_fwd_programs)
  have "fwd_writes a pid m' (O_ptr a + (row_id a pid r * HEAD_DIM a + c))
        = tl_store ?p (\<lambda>r c. numer_sum a m' (fst (snd pid)) (fst pid * BLOCK_SIZE_Q a + r) c
                     (visited_cols a (fst pid))
                   / denom_sum a m' (fst (snd pid)) (fst pid * BLOCK_SIZE_Q a + r)
                       (visited_cols a (fst pid))) m'
            (O_ptr a + (row_id a pid r * HEAD_DIM a + c))"
    unfolding fwd_writes_row_major[OF rm] by (rule tl_store_vec_other) (rule notM)
  also have "\<dots> = numer_sum a m' (fst (snd pid)) (fst pid * BLOCK_SIZE_Q a + r) c
                     (visited_cols a (fst pid))
                   / denom_sum a m' (fst (snd pid)) (fst pid * BLOCK_SIZE_Q a + r)
                       (visited_cols a (fst pid))"
    using tl_store_at[OF inj, of r c] r c unfolding bs O_bp_addr[OF rm] by simp
  also have "\<dots> = numer_sum a m (fst (snd pid)) (fst pid * BLOCK_SIZE_Q a + r) c
                     (visited_cols a (fst pid))
                   / denom_sum a m (fst (snd pid)) (fst pid * BLOCK_SIZE_Q a + r)
                       (visited_cols a (fst pid))"
    using sums_agree[OF rm agree bh block_row_bound[OF ok pid r] visited_cols_le[OF ok pid]] c
    by simp
  finally show ?thesis .
qed

lemma fwd_writes_M:
  assumes ok: "fwd_layout_ok a" and pid: "pid \<in> set (fwd_programs a)"
    and r: "r < BLOCK_SIZE_Q a"
    and agree: "\<And>y. y \<in> read_region a \<Longrightarrow> m' y = m y"
  shows "fwd_writes a pid m' (M_ptr a + row_id a pid r)
         = ln (denom_sum a m (fst (snd pid)) (fst pid * BLOCK_SIZE_Q a + r) (visited_cols a (fst pid)))"
proof -
  have rm: "row_major_args a" using ok by (simp add: fwd_layout_ok_def)
  have inj: "inj_on (\<lambda>r. M_ptr a + row_id a pid r) {..<BLOCK_SIZE_Q a}"
    by (rule inj_onI) (simp add: row_id_def)
  have bh: "fst (snd pid) < BATCH_SIZE a * NUM_HEADS a" using pid by (simp add: in_fwd_programs)
  have "fwd_writes a pid m' (M_ptr a + row_id a pid r)
        = ln (denom_sum a m' (fst (snd pid)) (fst pid * BLOCK_SIZE_Q a + r) (visited_cols a (fst pid)))"
    unfolding fwd_writes_row_major[OF rm] using tl_store_vec_at[OF inj r] by simp
  also have "\<dots> = ln (denom_sum a m (fst (snd pid)) (fst pid * BLOCK_SIZE_Q a + r) (visited_cols a (fst pid)))"
    using sums_agree(1)[OF rm agree bh block_row_bound[OF ok pid r] visited_cols_le[OF ok pid]]
    by simp
  finally show ?thesis .
qed

lemma fwd_launch_total:
  assumes ok: "fwd_layout_ok a"
  shows "run_programs (attn_fwd a) ps m = Inr (fold (fwd_writes a) ps m)"
proof (rule run_programs_total)
  fix p m show "attn_fwd a p m = Inr (fwd_writes a p m)"
    using ok by (intro attn_fwd_closed) (simp_all add: fwd_layout_ok_def)
qed

lemma fwd_launch_reads:
  assumes ok: "fwd_layout_ok a" and y: "y \<in> read_region a"
  shows "fold (fwd_writes a) (fwd_programs a) m y = m y"
proof (rule fold_frame[where W = "write_set a"])
  fix p m assume "y \<notin> write_set a p"
  then show "fwd_writes a p m y = m y" using ok by (intro fwd_writes_frame) (simp_all add: fwd_layout_ok_def)
next
  fix p assume "p \<in> set (fwd_programs a)"
  then show "y \<notin> write_set a p" by (rule write_set_reads[OF ok _ y])
qed

lemma fwd_launch_O:
  assumes ok: "fwd_layout_ok a" and pid: "pid \<in> set (fwd_programs a)"
    and r: "r < BLOCK_SIZE_Q a" and c: "c < HEAD_DIM a"
  shows "fold (fwd_writes a) (fwd_programs a) m (O_ptr a + (row_id a pid r * HEAD_DIM a + c))
         = numer_sum a m (fst (snd pid)) (fst pid * BLOCK_SIZE_Q a + r) c (visited_cols a (fst pid))
           / denom_sum a m (fst (snd pid)) (fst pid * BLOCK_SIZE_Q a + r) (visited_cols a (fst pid))"
proof (rule fold_writes_at[where W = "write_set a" and R = "read_region a" and ?p0.0 = pid])
  fix p m y assume "y \<notin> write_set a p"
  then show "fwd_writes a p m y = m y" using ok by (intro fwd_writes_frame) (simp_all add: fwd_layout_ok_def)
next
  show "distinct (fwd_programs a)" by (rule distinct_fwd_programs)
  show "pid \<in> set (fwd_programs a)" by (rule pid)
next
  fix p assume "p \<in> set (fwd_programs a)" "p \<noteq> pid"
  then show "O_ptr a + (row_id a pid r * HEAD_DIM a + c) \<notin> write_set a p"
    by (rule write_set_others_O[OF ok pid r c])
next
  fix p y assume "p \<in> set (fwd_programs a)" "y \<in> read_region a"
  then show "y \<notin> write_set a p" by (rule write_set_reads[OF ok])
next
  fix m' assume "\<And>y. y \<in> read_region a \<Longrightarrow> m' y = m y"
  then show "fwd_writes a pid m' (O_ptr a + (row_id a pid r * HEAD_DIM a + c))
         = numer_sum a m (fst (snd pid)) (fst pid * BLOCK_SIZE_Q a + r) c (visited_cols a (fst pid))
           / denom_sum a m (fst (snd pid)) (fst pid * BLOCK_SIZE_Q a + r) (visited_cols a (fst pid))"
    by (rule fwd_writes_O[OF ok pid r c])
qed

lemma fwd_launch_M:
  assumes ok: "fwd_layout_ok a" and pid: "pid \<in> set (fwd_programs a)"
    and r: "r < BLOCK_SIZE_Q a"
  shows "fold (fwd_writes a) (fwd_programs a) m (M_ptr a + row_id a pid r)
         = ln (denom_sum a m (fst (snd pid)) (fst pid * BLOCK_SIZE_Q a + r) (visited_cols a (fst pid)))"
proof (rule fold_writes_at[where W = "write_set a" and R = "read_region a" and ?p0.0 = pid])
  fix p m y assume "y \<notin> write_set a p"
  then show "fwd_writes a p m y = m y" using ok by (intro fwd_writes_frame) (simp_all add: fwd_layout_ok_def)
next
  show "distinct (fwd_programs a)" by (rule distinct_fwd_programs)
  show "pid \<in> set (fwd_programs a)" by (rule pid)
next
  fix p assume "p \<in> set (fwd_programs a)" "p \<noteq> pid"
  then show "M_ptr a + row_id a pid r \<notin> write_set a p"
    by (rule write_set_others_M[OF ok pid r])
next
  fix p y assume "p \<in> set (fwd_programs a)" "y \<in> read_region a"
  then show "y \<notin> write_set a p" by (rule write_set_reads[OF ok])
next
  fix m' assume "\<And>y. y \<in> read_region a \<Longrightarrow> m' y = m y"
  then show "fwd_writes a pid m' (M_ptr a + row_id a pid r)
         = ln (denom_sum a m (fst (snd pid)) (fst pid * BLOCK_SIZE_Q a + r) (visited_cols a (fst pid)))"
    by (rule fwd_writes_M[OF ok pid r])
qed


section \<open>\<^verbatim>\<open>forward\<close> on row-major inputs\<close>

definition row_major4 :: "tensor \<Rightarrow> nat \<Rightarrow> nat \<Rightarrow> nat \<Rightarrow> nat \<Rightarrow> bool" where
  "row_major4 t B H S D \<longleftrightarrow>
     shape t = [B, H, S, D] \<and> stride t = [H * (S * D), S * D, D, 1]
   \<and> 0 < B \<and> 0 < H \<and> 0 < S \<and> 0 < D"

definition fwd_inputs_ok ::
  "runtime \<Rightarrow> tensor \<Rightarrow> tensor \<Rightarrow> tensor \<Rightarrow> nat \<Rightarrow> nat \<Rightarrow> nat \<Rightarrow> nat \<Rightarrow> bool" where
  "fwd_inputs_ok rt Q K V B H S D \<longleftrightarrow>
     row_major4 Q B H S D \<and> row_major4 K B H S D \<and> row_major4 V B H S D
   \<and> 0 < fst (config rt) \<and> 0 < snd (config rt)
   \<and> fst (config rt) dvd S \<and> snd (config rt) dvd S
   \<and> separate (O_alloc rt) (B * H * S * D) (data_ptr Q) (B * H * S * D)
   \<and> separate (O_alloc rt) (B * H * S * D) (data_ptr K) (B * H * S * D)
   \<and> separate (O_alloc rt) (B * H * S * D) (data_ptr V) (B * H * S * D)
   \<and> separate (M_alloc rt) (B * H * S) (data_ptr Q) (B * H * S * D)
   \<and> separate (M_alloc rt) (B * H * S) (data_ptr K) (B * H * S * D)
   \<and> separate (M_alloc rt) (B * H * S) (data_ptr V) (B * H * S * D)
   \<and> separate (O_alloc rt) (B * H * S * D) (M_alloc rt) (B * H * S)"

text \<open>The output tensors and the kernel arguments \<open>forward\<close> builds from such inputs.\<close>

definition O_of :: "runtime \<Rightarrow> tensor \<Rightarrow> tensor" where
  "O_of rt Q = empty_like (O_alloc rt) Q"

definition M_of :: "runtime \<Rightarrow> tensor \<Rightarrow> tensor" where
  "M_of rt Q = zeros_tensor (M_alloc rt) (take 3 (shape Q))"

definition args_of :: "runtime \<Rightarrow> tensor \<Rightarrow> tensor \<Rightarrow> tensor \<Rightarrow> real \<Rightarrow> fwd_args" where
  "args_of rt Q K V scale =
     (let B = shape Q ! 0; H = shape Q ! 1; S = shape Q ! 2; D = shape Q ! 3 in
      \<lparr>Q_ptr = data_ptr Q, K_ptr = data_ptr K, V_ptr = data_ptr V,
       O_ptr = O_alloc rt, M_ptr = M_alloc rt,
       softmax_scale = scale,
       stride_Q_batch = H * (S * D), stride_Q_head = S * D, stride_Q_seq = D, stride_Q_dim = 1,
       stride_K_batch = H * (S * D), stride_K_head = S * D, stride_K_seq = D, stride_K_dim = 1,
       stride_V_batch = H * (S * D), stride_V_head = S * D, stride_V_seq = D, stride_V_dim = 1,
       stride_O_batch = H * (S * D), stride_O_head = S * D, stride_O_seq = D, stride_O_dim = 1,
       stride_M_batch = H * S, stride_M_head = S, stride_M_seq = 1,
       BATCH_SIZE = B, NUM_HEADS = H, SEQ_LEN = S, HEAD_DIM = D,
       BLOCK_SIZE_Q = fst (config rt), BLOCK_SIZE_KV = snd (config rt)\<rparr>)"

lemma row_major4_contiguous:
  assumes "row_major4 t B H S D"
  shows "is_contiguous t"
  using assms by (simp add: row_major4_def is_contiguous_def mult_ac)

lemma row_major4_strides:
  assumes "row_major4 t B H S D"
  shows "strides4 t = Inr (H * (S * D), S * D, D, 1)"
  using assms by (simp add: row_major4_def strides4_def stride_at_def ebind_def)

lemma row_major4_dense:
  assumes "row_major4 t B H S D"
  shows "non_overlapping_and_dense t"
  using assms by (simp add: row_major4_def non_overlapping_and_dense_def mult_ac)

lemma O_of_row_major:
  assumes "row_major4 Q B H S D"
  shows "row_major4 (O_of rt Q) B H S D" "data_ptr (O_of rt Q) = O_alloc rt"
  using assms row_major4_dense[OF assms]
  by (simp_all add: O_of_def empty_like_def row_major4_def)

lemma M_of_strides:
  assumes "row_major4 Q B H S D"
  shows "strides3 (M_of rt Q) = Inr (H * S, S, 1)" "data_ptr (M_of rt Q) = M_alloc rt"
    "M_of rt Q = zeros_tensor (M_alloc rt) [B, H, S]"
  using assms
  by (simp_all add: M_of_def zeros_tensor_def row_major4_def strides3_def stride_at_def ebind_def
      max_absorb2)

lemma fwd_kernel_args_row_major:
  assumes "row_major4 Q B H S D" "row_major4 K B H S D" "row_major4 V B H S D"
  shows "fwd_kernel_args (config rt) Q K V (O_of rt Q) (M_of rt Q) scale B H S D
         = Inr (args_of rt Q K V scale)"
  using assms(1)
  by (simp add: fwd_kernel_args_def row_major4_strides[OF assms(1)] row_major4_strides[OF assms(2)]
      row_major4_strides[OF assms(3)] row_major4_strides[OF O_of_row_major(1)[OF assms(1)]]
      M_of_strides(1,2)[OF assms(1)] O_of_row_major(2)[OF assms(1)] ebind_def args_of_def
      row_major4_def)


lemma args_of_fields:
  assumes "row_major4 Q B H S D"
  shows "BATCH_SIZE (args_of rt Q K V scale) = B" "NUM_HEADS (args_of rt Q K V scale) = H"
    "SEQ_LEN (args_of rt Q K V scale) = S" "HEAD_DIM (args_of rt Q K V scale) = D"
    "BLOCK_SIZE_Q (args_of rt Q K V scale) = fst (config rt)"
    "BLOCK_SIZE_KV (args_of rt Q K V scale) = snd (config rt)"
    "Q_ptr (args_of rt Q K V scale) = data_ptr Q" "K_ptr (args_of rt Q K V scale) = data_ptr K"
    "V_ptr (args_of rt Q K V scale) = data_ptr V" "O_ptr (args_of rt Q K V scale) = O_alloc rt"
    "M_ptr (args_of rt Q K V scale) = M_alloc rt"
    "softmax_scale (args_of rt Q K V scale) = scale"
    "stride_Q_seq (args_of rt Q K V scale) = D" "stride_Q_dim (args_of rt Q K V scale) = 1"
    "stride_K_seq (args_of rt Q K V scale) = D" "stride_K_dim (args_of rt Q K V scale) = 1"
    "stride_V_seq (args_of rt Q K V scale) = D" "stride_V_dim (args_of rt Q K V scale) = 1"
  using assms by (simp_all add: args_of_def row_major4_def)

lemma args_of_row_major:
  assumes "row_major4 Q B H S D"
  shows "row_major_args (args_of rt Q K V scale)"
  using assms by (simp add: row_major_args_def args_of_def row_major4_def)

lemma args_layout_ok:
  assumes "fwd_inputs_ok rt Q K V B H S D"
  shows "fwd_layout_ok (args_of rt Q K V scale)"
proof -
  have q: "row_major4 Q B H S D" using assms by (simp add: fwd_inputs_ok_def)
  show ?thesis
    unfolding fwd_layout_ok_def numel_def nrows_def args_of_fields[OF q]
    using assms args_of_row_major[OF q] by (simp add: fwd_inputs_ok_def)
qed

lemma forward_eq:
  assumes ok: "fwd_inputs_ok rt Q K V B H S D"
  shows "forward rt Q K V scale mem =
     Inr \<lparr>returned = PyTensor (O_of rt Q),
          fwd_ctx = \<lparr>saved_tensors = [Q, K, V, O_of rt Q, M_of rt Q],
                     attrs = [(''grid'', AttrGrid (fwd_grid S B H)),
                              (''softmax_scale'', AttrFloat scale)]\<rparr>,
          heap = fold (fwd_writes (args_of rt Q K V scale)) (fwd_programs (args_of rt Q K V scale))
                   (zero_fill (M_alloc rt) (B * H * S) mem)\<rparr>"
proof -
  have q: "row_major4 Q B H S D" and k: "row_major4 K B H S D" and v: "row_major4 V B H S D"
    using ok by (simp_all add: fwd_inputs_ok_def)
  have sl: "shape_last Q = Inr D" "shape_last K = Inr D" "shape_last V = Inr D"
    using q k v by (simp_all add: shape_last_def row_major4_def)
  have u: "unpack4 (shape Q) = Inr (B, H, S, D)" using q by (simp add: row_major4_def)
  have M: "zeros_tensor (M_alloc rt) [B, H, S] = M_of rt Q" using M_of_strides(3)[OF q] by simp
  have g: "grid_ids (fwd_grid S B H (BLOCK_SIZE_Q (args_of rt Q K V scale)))
           = fwd_programs (args_of rt Q K V scale)"
    by (simp add: fwd_programs_def args_of_fields[OF q])
  show ?thesis
    unfolding forward_def
    by (simp add: sl u ebind_def py_assert_def fwd_kernel_args_row_major[OF q k v] g
        fwd_launch_total[OF args_layout_ok[OF ok]] M O_of_def[symmetric] Let_def)
qed


lemma at_tensor:
  assumes q: "row_major4 Q B H S D" and k: "row_major4 K B H S D" and v: "row_major4 V B H S D"
  shows "Q_at (args_of rt Q K V scale) m (b * H + h) i c = tensor_at m Q b h i c"
    and "K_at (args_of rt Q K V scale) m (b * H + h) i c = tensor_at m K b h i c"
    and "V_at (args_of rt Q K V scale) m (b * H + h) i c = tensor_at m V b h i c"
proof -
  let ?a = "args_of rt Q K V scale"
  note rm = args_of_row_major[OF q, of rt K V scale]
  have off: "qkv_offset_of ?a (b * H + h) = (b * H + h) * (S * D)"
    using qkv_offset_row_major[OF rm] by (simp add: args_of_fields[OF q])
  have e: "x + (b * H + h) * (S * D) + i * D + c = x + b * (H * (S * D)) + h * (S * D) + i * D + c"
    for x by (simp add: algebra_simps)
  show "Q_at ?a m (b * H + h) i c = tensor_at m Q b h i c"
    using q by (simp add: Q_at_def tensor_at_def off args_of_fields[OF q] row_major4_def e)
  have "K_at ?a m (b * H + h) i c = m (data_ptr K + (b * H + h) * (S * D) + c + i * D)"
    by (simp add: K_at_def off args_of_fields[OF q])
  moreover have "tensor_at m K b h i c = m (data_ptr K + b * (H * (S * D)) + h * (S * D) + i * D + c)"
    using k by (simp add: tensor_at_def row_major4_def)
  ultimately show "K_at ?a m (b * H + h) i c = tensor_at m K b h i c"
    by (simp add: algebra_simps)
  show "V_at ?a m (b * H + h) i c = tensor_at m V b h i c"
    using v by (simp add: V_at_def tensor_at_def off args_of_fields[OF q] row_major4_def e)
qed

lemma masked_score_tensor:
  assumes q: "row_major4 Q B H S D" and k: "row_major4 K B H S D" and v: "row_major4 V B H S D"
  shows "exp (masked_score (args_of rt Q K V scale) m (b * H + h) i j)
         = kernel_exp m Q K scale b h i j"
proof -
  have "last (shape Q) = D" using q by (simp add: row_major4_def)
  then show ?thesis
    by (simp add: masked_score_def kernel_exp_def score_def at_tensor[OF q k v]
        args_of_fields[OF q])
qed

lemma sums_tensor:
  assumes q: "row_major4 Q B H S D" and k: "row_major4 K B H S D" and v: "row_major4 V B H S D"
  shows "denom_sum (args_of rt Q K V scale) m (b * H + h) i n
           = (\<Sum>j<n. kernel_exp m Q K scale b h i j)"
    and "numer_sum (args_of rt Q K V scale) m (b * H + h) i c n
           = (\<Sum>j<n. kernel_exp m Q K scale b h i j * tensor_at m V b h j c)"
  by (simp_all add: denom_sum_def numer_sum_def masked_score_tensor[OF q k v] at_tensor[OF q k v])

lemma visited_cols_args:
  assumes q: "row_major4 Q B H S D"
  shows "visited_cols (args_of rt Q K V scale) (i div fst (config rt)) = visited (config rt) i"
  by (simp add: visited_cols_def visited_def args_of_fields[OF q])

lemma pid_in_programs:
  assumes ok: "fwd_inputs_ok rt Q K V B H S D" and b: "b < B" and h: "h < H" and i: "i < S"
  shows "(i div fst (config rt), b * H + h, 0) \<in> set (fwd_programs (args_of rt Q K V scale))"
proof -
  have q: "row_major4 Q B H S D" using ok by (simp add: fwd_inputs_ok_def)
  have pos: "0 < fst (config rt)" using ok by (simp add: fwd_inputs_ok_def)
  have "i div fst (config rt) * fst (config rt) \<le> i" by simp
  then have "i div fst (config rt) * fst (config rt) < S" using i by (rule le_less_trans)
  then have 1: "i div fst (config rt) < cdiv S (fst (config rt))"
    by (simp only: cdiv_bound[OF pos])
  have 2: "b * H + h < B * H" using b h by (rule lin_bound)
  show ?thesis using 1 2 by (simp add: in_fwd_programs args_of_fields[OF q])
qed

lemma zero_fill_reads:
  assumes ok: "fwd_inputs_ok rt Q K V B H S D"
    and y: "y \<in> read_region (args_of rt Q K V scale)"
  shows "zero_fill (M_alloc rt) (B * H * S) mem y = mem y"
proof -
  have q: "row_major4 Q B H S D" using ok by (simp add: fwd_inputs_ok_def)
  have "separate (M_alloc rt) (B * H * S) (data_ptr Q) (B * H * S * D)"
    "separate (M_alloc rt) (B * H * S) (data_ptr K) (B * H * S * D)"
    "separate (M_alloc rt) (B * H * S) (data_ptr V) (B * H * S * D)"
    using ok by (simp_all add: fwd_inputs_ok_def)
  then show ?thesis using y
    by (auto simp: zero_fill_def read_region_def numel_def args_of_fields[OF q] separate_def)
qed

definition fwd_heap :: "runtime \<Rightarrow> tensor \<Rightarrow> tensor \<Rightarrow> tensor \<Rightarrow> real \<Rightarrow> memory \<Rightarrow> memory" where
  "fwd_heap rt Q K V scale mem =
     fold (fwd_writes (args_of rt Q K V scale)) (fwd_programs (args_of rt Q K V scale))
       (zero_fill (M_alloc rt) (shape Q ! 0 * (shape Q ! 1) * (shape Q ! 2)) mem)"

lemma fwd_heap_O:
  assumes ok: "fwd_inputs_ok rt Q K V B H S D"
    and b: "b < B" and h: "h < H" and i: "i < S" and c: "c < D"
  shows "tensor_at (fwd_heap rt Q K V scale mem) (O_of rt Q) b h i c
         = kernel_O (config rt) mem Q K V scale b h i c"
proof -
  let ?a = "args_of rt Q K V scale"
  let ?BQ = "fst (config rt)"
  let ?pid = "(i div ?BQ, b * H + h, 0::nat)"
  let ?m1 = "zero_fill (M_alloc rt) (B * H * S) mem"
  have q: "row_major4 Q B H S D" and k: "row_major4 K B H S D" and v: "row_major4 V B H S D"
    using ok by (simp_all add: fwd_inputs_ok_def)
  note lok = args_layout_ok[OF ok, of scale]
  note rm = args_of_row_major[OF q, of rt K V scale]
  note pid = pid_in_programs[OF ok b h i, of scale]
  have pos: "0 < ?BQ" using ok by (simp add: fwd_inputs_ok_def)
  have r: "i mod ?BQ < BLOCK_SIZE_Q ?a" using pos by (simp add: args_of_fields[OF q])
  have c': "c < HEAD_DIM ?a" using c by (simp add: args_of_fields[OF q])
  have row: "i div ?BQ * BLOCK_SIZE_Q ?a + i mod ?BQ = i" by (simp add: args_of_fields[OF q])
  have rid: "row_id ?a ?pid (i mod ?BQ) = (b * H + h) * S + i"
    by (simp add: row_id_def args_of_fields[OF q])
  have addr: "data_ptr (O_of rt Q) + b * (stride (O_of rt Q) ! 0) + h * (stride (O_of rt Q) ! 1)
              + i * (stride (O_of rt Q) ! 2) + c * (stride (O_of rt Q) ! 3)
             = O_ptr ?a + (row_id ?a ?pid (i mod ?BQ) * HEAD_DIM ?a + c)"
    using O_of_row_major[OF q, of rt] unfolding rid
    by (simp add: row_major4_def args_of_fields[OF q] algebra_simps)
  have bh: "b * H + h < BATCH_SIZE ?a * NUM_HEADS ?a"
    using pid by (simp add: in_fwd_programs)
  have i': "i < SEQ_LEN ?a" using i by (simp add: args_of_fields[OF q])
  have vis: "visited_cols ?a (i div ?BQ) \<le> SEQ_LEN ?a" using visited_cols_le[OF lok pid] by simp
  have heap: "fwd_heap rt Q K V scale mem = fold (fwd_writes ?a) (fwd_programs ?a) ?m1"
    using q by (simp add: fwd_heap_def row_major4_def)
  have "tensor_at (fwd_heap rt Q K V scale mem) (O_of rt Q) b h i c
        = numer_sum ?a ?m1 (b * H + h) i c (visited_cols ?a (i div ?BQ))
          / denom_sum ?a ?m1 (b * H + h) i (visited_cols ?a (i div ?BQ))"
    unfolding tensor_at_def addr heap using fwd_launch_O[OF lok pid r c', of ?m1]
    by (simp only: row fst_conv snd_conv)
  also have "\<dots> = numer_sum ?a mem (b * H + h) i c (visited_cols ?a (i div ?BQ))
          / denom_sum ?a mem (b * H + h) i (visited_cols ?a (i div ?BQ))"
    using sums_agree[OF rm zero_fill_reads[OF ok, where mem = mem] bh i' vis] c' by simp
  finally show ?thesis
    by (simp add: kernel_O_def sums_tensor[OF q k v] visited_cols_args[OF q])
qed

lemma fwd_heap_M:
  assumes ok: "fwd_inputs_ok rt Q K V B H S D"
    and b: "b < B" and h: "h < H" and i: "i < S"
  shows "tensor_at3 (fwd_heap rt Q K V scale mem) (M_of rt Q) b h i
         = kernel_M (config rt) mem Q K scale b h i"
proof -
  let ?a = "args_of rt Q K V scale"
  let ?BQ = "fst (config rt)"
  let ?pid = "(i div ?BQ, b * H + h, 0::nat)"
  let ?m1 = "zero_fill (M_alloc rt) (B * H * S) mem"
  have q: "row_major4 Q B H S D" and k: "row_major4 K B H S D" and v: "row_major4 V B H S D"
    using ok by (simp_all add: fwd_inputs_ok_def)
  note lok = args_layout_ok[OF ok, of scale]
  note rm = args_of_row_major[OF q, of rt K V scale]
  note pid = pid_in_programs[OF ok b h i, of scale]
  have pos: "0 < ?BQ" using ok by (simp add: fwd_inputs_ok_def)
  have r: "i mod ?BQ < BLOCK_SIZE_Q ?a" using pos by (simp add: args_of_fields[OF q])
  have row: "i div ?BQ * BLOCK_SIZE_Q ?a + i mod ?BQ = i" by (simp add: args_of_fields[OF q])
  have rid: "row_id ?a ?pid (i mod ?BQ) = (b * H + h) * S + i"
    by (simp add: row_id_def args_of_fields[OF q])
  have addr: "data_ptr (M_of rt Q) + b * (stride (M_of rt Q) ! 0) + h * (stride (M_of rt Q) ! 1)
              + i * (stride (M_of rt Q) ! 2)
             = M_ptr ?a + row_id ?a ?pid (i mod ?BQ)"
    unfolding rid M_of_strides(3)[OF q]
    using q by (simp add: zeros_tensor_def args_of_fields[OF q] row_major4_def max_absorb2
        algebra_simps)
  have bh: "b * H + h < BATCH_SIZE ?a * NUM_HEADS ?a"
    using pid by (simp add: in_fwd_programs)
  have i': "i < SEQ_LEN ?a" using i by (simp add: args_of_fields[OF q])
  have vis: "visited_cols ?a (i div ?BQ) \<le> SEQ_LEN ?a" using visited_cols_le[OF lok pid] by simp
  have heap: "fwd_heap rt Q K V scale mem = fold (fwd_writes ?a) (fwd_programs ?a) ?m1"
    using q by (simp add: fwd_heap_def row_major4_def)
  have "tensor_at3 (fwd_heap rt Q K V scale mem) (M_of rt Q) b h i
        = ln (denom_sum ?a ?m1 (b * H + h) i (visited_cols ?a (i div ?BQ)))"
    unfolding tensor_at3_def addr heap using fwd_launch_M[OF lok pid r, of ?m1]
    by (simp only: row fst_conv snd_conv)
  also have "\<dots> = ln (denom_sum ?a mem (b * H + h) i (visited_cols ?a (i div ?BQ)))"
    using sums_agree(1)[OF rm zero_fill_reads[OF ok, where mem = mem] bh i' vis] by simp
  finally show ?thesis
    by (simp add: kernel_M_def sums_tensor[OF q k v] visited_cols_args[OF q])
qed

lemma forward_heap:
  assumes ok: "fwd_inputs_ok rt Q K V B H S D"
  shows "forward rt Q K V scale mem =
     Inr \<lparr>returned = PyTensor (O_of rt Q),
          fwd_ctx = \<lparr>saved_tensors = [Q, K, V, O_of rt Q, M_of rt Q],
                     attrs = [(''grid'', AttrGrid (fwd_grid S B H)),
                              (''softmax_scale'', AttrFloat scale)]\<rparr>,
          heap = fwd_heap rt Q K V scale mem\<rparr>"
proof -
  have "shape Q = [B, H, S, D]" using ok by (simp add: fwd_inputs_ok_def row_major4_def)
  then show ?thesis unfolding forward_eq[OF ok] by (simp add: fwd_heap_def)
qed


lemma forward_O_eq:
  assumes "fwd_inputs_ok rt Q K V B H S D" "b < B" "h < H" "i < S" "c < D"
  shows "forward_O rt Q K V scale mem b h i c = Inr (kernel_O (config rt) mem Q K V scale b h i c)"
  by (simp add: forward_O_def forward_heap[OF assms(1)] fwd_heap_O[OF assms])

lemma forward_M_eq:
  assumes "fwd_inputs_ok rt Q K V B H S D" "b < B" "h < H" "i < S"
  shows "forward_M rt Q K V scale mem b h i = Inr (kernel_M (config rt) mem Q K scale b h i)"
  by (simp add: forward_M_def forward_heap[OF assms(1)] fwd_heap_M[OF assms])

section \<open>The example inputs, evaluated\<close>

lemma inputs_ex_ok: "fwd_inputs_ok rt_ex Q_ex K_ex V_ex 1 1 64 16"
  by (simp add: fwd_inputs_ok_def row_major4_def Q_ex_def K_ex_def V_ex_def rt_ex_def separate_def)

lemma Q_ex_row0: "c < 16 \<Longrightarrow> tensor_at mem_ex Q_ex 0 0 0 c = (if c = 0 then 2000 else 0)"
  "c < 16 \<Longrightarrow> tensor_at mem_ex' Q_ex 0 0 0 c = (if c = 0 then 2000 else 0)"
  by (simp_all add: tensor_at_def Q_ex_def mem_ex_def mem_ex'_def)

lemma K_ex_rows:
  "j < 64 \<Longrightarrow> tensor_at mem_ex K_ex 0 0 j 0 = (if j = 1 then 1000 else 0)"
  "j < 64 \<Longrightarrow> tensor_at mem_ex' K_ex 0 0 j 0 = 0"
  by (auto simp: tensor_at_def K_ex_def mem_ex_def mem_ex'_def)

lemma mult16_neq17: "(j::nat) * 16 \<noteq> 17"
  by presburger

lemma V_ex_col0:
  "tensor_at mem_ex V_ex 0 0 j 0 = (if j = 0 then 1 else 0)"
  "tensor_at mem_ex' V_ex 0 0 j 0 = (if j = 0 then 1 else 0)"
  by (auto simp: tensor_at_def V_ex_def mem_ex_def mem_ex'_def mult16_neq17)

lemma sum_only_first:
  fixes f :: "nat \<Rightarrow> real"
  assumes "0 < n" "\<And>c. c < n \<Longrightarrow> c \<noteq> 0 \<Longrightarrow> f c = 0"
  shows "(\<Sum>c<n. f c) = f 0"
proof -
  have "(\<Sum>c<n. f c) = (\<Sum>c<n. if c = 0 then f 0 else 0)"
    by (rule sum.cong) (use assms in auto)
  also have "\<dots> = f 0" using assms(1) by (simp add: sum.delta)
  finally show ?thesis .
qed

lemma score_ex:
  assumes "j < 64"
  shows "score mem_ex Q_ex K_ex 1 0 0 0 j = (if j = 1 then 2000000 else 0)"
    and "score mem_ex' Q_ex K_ex 1 0 0 0 j = 0"
proof -
  have l: "last (shape Q_ex) = 16" by (simp add: Q_ex_def)
  have "(\<Sum>c<16. tensor_at mem_ex Q_ex 0 0 0 c * tensor_at mem_ex K_ex 0 0 j c)
        = tensor_at mem_ex Q_ex 0 0 0 0 * tensor_at mem_ex K_ex 0 0 j 0"
    by (rule sum_only_first) (simp_all add: Q_ex_row0)
  then show "score mem_ex Q_ex K_ex 1 0 0 0 j = (if j = 1 then 2000000 else 0)"
    using assms by (simp add: score_def l Q_ex_row0 K_ex_rows)
  have "(\<Sum>c<16. tensor_at mem_ex' Q_ex 0 0 0 c * tensor_at mem_ex' K_ex 0 0 j c)
        = tensor_at mem_ex' Q_ex 0 0 0 0 * tensor_at mem_ex' K_ex 0 0 j 0"
    by (rule sum_only_first) (simp_all add: Q_ex_row0)
  then show "score mem_ex' Q_ex K_ex 1 0 0 0 j = 0"
    using assms by (simp add: score_def l K_ex_rows)
qed

lemma kernel_exp_ex:
  assumes "j < 64"
  shows "kernel_exp mem_ex Q_ex K_ex 1 0 0 0 j
         = (if j = 0 then 1 else if j = 1 then exp 1000000 else exp (- 1000000))"
    and "kernel_exp mem_ex' Q_ex K_ex 1 0 0 0 j = (if j = 0 then 1 else exp (- 1000000))"
  using assms by (simp_all add: kernel_exp_def score_ex inf_val_def)

lemma visited_ex: "visited (64, 64) 0 = 64"
  by (simp add: visited_def cdiv_def)

lemma numer_ex:
  "(\<Sum>j<64. kernel_exp mem_ex Q_ex K_ex 1 0 0 0 j * tensor_at mem_ex V_ex 0 0 j 0) = 1"
  "(\<Sum>j<64. kernel_exp mem_ex' Q_ex K_ex 1 0 0 0 j * tensor_at mem_ex' V_ex 0 0 j 0) = 1"
proof -
  have "(\<Sum>j<64. kernel_exp mem_ex Q_ex K_ex 1 0 0 0 j * tensor_at mem_ex V_ex 0 0 j 0)
        = kernel_exp mem_ex Q_ex K_ex 1 0 0 0 0 * tensor_at mem_ex V_ex 0 0 0 0"
    by (rule sum_only_first) (simp_all add: V_ex_col0)
  then show "(\<Sum>j<64. kernel_exp mem_ex Q_ex K_ex 1 0 0 0 j * tensor_at mem_ex V_ex 0 0 j 0) = 1"
    by (simp add: kernel_exp_ex V_ex_col0)
  have "(\<Sum>j<64. kernel_exp mem_ex' Q_ex K_ex 1 0 0 0 j * tensor_at mem_ex' V_ex 0 0 j 0)
        = kernel_exp mem_ex' Q_ex K_ex 1 0 0 0 0 * tensor_at mem_ex' V_ex 0 0 0 0"
    by (rule sum_only_first) (simp_all add: V_ex_col0)
  then show "(\<Sum>j<64. kernel_exp mem_ex' Q_ex K_ex 1 0 0 0 j * tensor_at mem_ex' V_ex 0 0 j 0) = 1"
    by (simp add: kernel_exp_ex V_ex_col0)
qed

lemma exp_sentinel_small: "exp (- 1000000 :: real) \<le> 1 / 64"
proof -
  have "(64::real) \<le> 1 + 1000000" by simp
  also have "\<dots> \<le> exp 1000000" by (rule exp_ge_add_one_self)
  finally have "inverse (exp (1000000::real)) \<le> inverse 64"
    by (intro le_imp_inverse_le) simp_all
  then show ?thesis by (simp add: exp_minus)
qed

lemma denom_ex_ge: "3 \<le> (\<Sum>j<64. kernel_exp mem_ex Q_ex K_ex 1 0 0 0 j)"
  and denom_ex_ge_exp: "exp 1000000 \<le> (\<Sum>j<64. kernel_exp mem_ex Q_ex K_ex 1 0 0 0 j)"
proof -
  let ?f = "kernel_exp mem_ex Q_ex K_ex 1 0 0 0"
  have "sum ?f {0, 1} \<le> sum ?f {..<64}"
    by (rule sum_mono2) (simp_all add: kernel_exp_def)
  then have le: "1 + exp 1000000 \<le> sum ?f {..<64}" by (simp add: kernel_exp_ex)
  have "(2::real) \<le> 1 + 1000000" by simp
  also have "\<dots> \<le> exp 1000000" by (rule exp_ge_add_one_self)
  finally have "(2::real) \<le> exp 1000000" .
  with le show "3 \<le> sum ?f {..<64}" by simp
  from le show "exp 1000000 \<le> sum ?f {..<64}" by simp
qed

lemma denom_ex'_bounds:
  "0 < (\<Sum>j<64. kernel_exp mem_ex' Q_ex K_ex 1 0 0 0 j)"
  "(\<Sum>j<64. kernel_exp mem_ex' Q_ex K_ex 1 0 0 0 j) < 2"
proof -
  let ?f = "kernel_exp mem_ex' Q_ex K_ex 1 0 0 0"
  have "{..<64::nat} \<noteq> {}" by (simp add: lessThan_empty_iff)
  then show "0 < sum ?f {..<64}"
    by (intro sum_pos) (simp_all add: kernel_exp_def)
  have "sum ?f {..<64} = ?f 0 + sum ?f ({..<64} - {0})"
    by (rule sum.remove) simp_all
  moreover have "sum ?f ({..<64} - {0}) \<le> (\<Sum>j\<in>{..<64::nat} - {0}. 1 / 64)"
    by (rule sum_mono) (use exp_sentinel_small in \<open>simp add: kernel_exp_ex\<close>)
  moreover have "(\<Sum>j\<in>{..<64::nat} - {0}. 1 / 64 :: real) = 63 / 64" by simp
  ultimately show "sum ?f {..<64} < 2" by (simp add: kernel_exp_ex)
qed

lemma ref_exp_ex: "ref_exp mem_ex Q_ex K_ex 1 0 0 0 j = (if j = 0 then 1 else 0)"
proof (cases "j = 0")
  case True
  then show ?thesis using score_ex(1)[of 0] by (simp add: ref_exp_def)
next
  case False
  then show ?thesis by (simp add: ref_exp_def)
qed

lemma ref_O_ex: "ref_O mem_ex Q_ex K_ex V_ex 1 0 0 0 0 = 1"
proof -
  have s: "shape Q_ex ! 2 = 64" by (simp add: Q_ex_def)
  have d: "(\<Sum>j'<64. ref_exp mem_ex Q_ex K_ex 1 0 0 0 j') = 1"
    by (simp add: ref_exp_ex sum.delta)
  have "ref_O mem_ex Q_ex K_ex V_ex 1 0 0 0 0
        = (\<Sum>j<64. ref_P mem_ex Q_ex K_ex 1 0 0 0 j * tensor_at mem_ex V_ex 0 0 j 0)"
    by (simp add: ref_O_def s)
  also have "\<dots> = ref_P mem_ex Q_ex K_ex 1 0 0 0 0 * tensor_at mem_ex V_ex 0 0 0 0"
    by (rule sum_only_first) (simp_all add: V_ex_col0)
  also have "\<dots> = 1" by (simp add: ref_P_def s d ref_exp_ex V_ex_col0)
  finally show ?thesis .
qed


lemma inputs_ex2_ok: "fwd_inputs_ok rt_ex2 Q_ex2 K_ex2 V_ex2 1 1 128 16"
  by (simp add: fwd_inputs_ok_def row_major4_def Q_ex2_def K_ex2_def V_ex2_def rt_ex2_def
      separate_def)

text \<open>The arguments of the kernel on the example input.\<close>

definition a_ex :: fwd_args where
  "a_ex = args_of rt_ex Q_ex K_ex V_ex 1"

lemma a_ex_fields:
  "BLOCK_SIZE_Q a_ex = 64" "BLOCK_SIZE_KV a_ex = 64" "HEAD_DIM a_ex = 16" "SEQ_LEN a_ex = 64"
  "softmax_scale a_ex = 1" "Q_ptr a_ex = 0" "K_ptr a_ex = 1024" "NUM_HEADS a_ex = 1"
  "stride_Q_seq a_ex = 16" "stride_Q_dim a_ex = 1" "stride_K_seq a_ex = 16" "stride_K_dim a_ex = 1"
  "stride_Q_batch a_ex = 1024" "stride_Q_head a_ex = 1024"
  by (simp_all add: a_ex_def args_of_def Q_ex_def K_ex_def rt_ex_def)


section \<open>The blocks the inner loop visits\<close>

text \<open>
  The arguments of the kernel on the example input of 128 rows, with the block sizes 64
  and 64 of the first autotuning configuration, and the same arguments with a query block
  of 128 rows and key/value blocks of 64.
\<close>

definition a_ex2 :: fwd_args where
  "a_ex2 = args_of rt_ex2 Q_ex2 K_ex2 V_ex2 1"

definition a_wide :: fwd_args where
  "a_wide = a_ex2\<lparr>BLOCK_SIZE_Q := 128, BLOCK_SIZE_KV := 64\<rparr>"

lemma a_ex2_blocks: "BLOCK_SIZE_Q a_ex2 = 64" "BLOCK_SIZE_KV a_ex2 = 64"
  "BLOCK_SIZE_Q a_wide = 128" "BLOCK_SIZE_KV a_wide = 64"
  by (simp_all add: a_wide_def a_ex2_def args_of_def Let_def rt_ex2_def)

lemma fwd_steps_snoc:
  "fwd_steps a mem q bh (xs @ [x])
     = fwd_body a mem q (Q_block_of a mem q bh) x (fwd_steps a mem q bh xs)"
  by (simp add: fwd_steps_def Let_def)

lemma fwd_steps_ptrs:
  "bp_offsets (K_block_ptr (fwd_steps a mem q bh xs)) = (0, length xs * BLOCK_SIZE_KV a)
   \<and> bp_offsets (V_block_ptr (fwd_steps a mem q bh xs)) = (length xs * BLOCK_SIZE_KV a, 0)"
proof (induction xs rule: rev_induct)
  case Nil
  show ?case by (simp add: fwd_steps_def Let_def make_block_ptr_def)
next
  case (snoc x xs)
  then show ?case
    by (simp add: fwd_steps_snoc fwd_body_def Let_def tl_advance_def)
qed

lemma kv_offsets_nth:
  assumes "k < length (kv_offsets q BQ BKV)"
  shows "kv_offsets q BQ BKV ! k = k * BKV"
  using assms by (simp add: kv_offsets_eq)

text \<open>
  C7 (as amended). For positive block sizes the inner loop of the forward kernel runs its
  body once for each offset of the range, in the order of the range: iteration \<open>k\<close>
  takes the state the earlier iterations left, with \<open>start_kv_idx\<close> the offset
  number \<open>k\<close>, and the blocks of \<open>K\<close> and \<open>V\<close> it loads start at that
  offset. The offsets are strictly ascending, start at 0 and are exactly the multiples
  of \<open>BLOCK_SIZE_KV\<close> below \<open>(query_block_idx + 1) * BLOCK_SIZE_Q\<close>. The block that
  holds key column \<open>query_block_idx * BLOCK_SIZE_Q\<close> is among them and no visited block
  starts after the last query row of the query block; when \<open>BLOCK_SIZE_Q\<close> divides
  \<open>BLOCK_SIZE_KV\<close> (both autotuning configurations have them equal) the block holding
  that column is the last one visited.
\<close>

theorem fwd_loop_visits_kv_blocks:
  assumes "0 < BLOCK_SIZE_Q a" and "0 < BLOCK_SIZE_KV a"
    and "offs = kv_offsets q (BLOCK_SIZE_Q a) (BLOCK_SIZE_KV a)"
  shows "fwd_loop a mem q bh = fwd_steps a mem q bh offs
       \<and> (\<forall>k<length offs.
             fwd_steps a mem q bh (take (Suc k) offs)
               = fwd_body a mem q (Q_block_of a mem q bh) (offs ! k)
                   (fwd_steps a mem q bh (take k offs))
           \<and> bp_offsets (K_block_ptr (fwd_steps a mem q bh (take k offs))) = (0, offs ! k)
           \<and> bp_offsets (V_block_ptr (fwd_steps a mem q bh (take k offs))) = (offs ! k, 0))
       \<and> offs \<noteq> [] \<and> hd offs = 0 \<and> sorted_wrt (<) offs
       \<and> set offs = {x. BLOCK_SIZE_KV a dvd x \<and> x < (q + 1) * BLOCK_SIZE_Q a}
       \<and> (q * BLOCK_SIZE_Q a div BLOCK_SIZE_KV a) * BLOCK_SIZE_KV a \<in> set offs
       \<and> (\<forall>x \<in> set offs. x \<le> q * BLOCK_SIZE_Q a + (BLOCK_SIZE_Q a - 1))
       \<and> (BLOCK_SIZE_Q a dvd BLOCK_SIZE_KV a
            \<longrightarrow> last offs = (q * BLOCK_SIZE_Q a div BLOCK_SIZE_KV a) * BLOCK_SIZE_KV a)"
proof -
  let ?BQ = "BLOCK_SIZE_Q a" and ?BKV = "BLOCK_SIZE_KV a"
  have 1: "fwd_loop a mem q bh = fwd_steps a mem q bh offs"
    by (simp add: fwd_loop_def assms(3))
  have 2: "fwd_steps a mem q bh (take (Suc k) offs)
             = fwd_body a mem q (Q_block_of a mem q bh) (offs ! k)
                 (fwd_steps a mem q bh (take k offs))
         \<and> bp_offsets (K_block_ptr (fwd_steps a mem q bh (take k offs))) = (0, offs ! k)
         \<and> bp_offsets (V_block_ptr (fwd_steps a mem q bh (take k offs))) = (offs ! k, 0)"
    if k: "k < length offs" for k
  proof -
    have n: "offs ! k = k * ?BKV" using k unfolding assms(3) by (rule kv_offsets_nth)
    have l: "length (take k offs) = k" using k by simp
    show ?thesis
      using fwd_steps_ptrs[of a mem q bh "take k offs"]
      by (simp only: take_Suc_conv_app_nth[OF k] fwd_steps_snoc l n)
  qed
  have b: "x \<le> q * ?BQ + (?BQ - 1)" if "x < (q + 1) * ?BQ" for x
    using that assms(1) by (cases ?BQ) auto
  have 3: "offs \<noteq> [] \<and> hd offs = 0 \<and> sorted_wrt (<) offs
       \<and> set offs = {x. ?BKV dvd x \<and> x < (q + 1) * ?BQ}
       \<and> (q * ?BQ div ?BKV) * ?BKV \<in> set offs
       \<and> (\<forall>x \<in> set offs. x \<le> q * ?BQ + (?BQ - 1))
       \<and> (?BQ dvd ?BKV \<longrightarrow> last offs = (q * ?BQ div ?BKV) * ?BKV)"
    unfolding assms(3)
    using kv_offsets_nonempty[OF assms(1,2)] sorted_kv_offsets[OF assms(2)]
      diag_start_visited[OF assms(1)] b kv_offsets_last[OF assms(1,2)]
    by (simp add: set_kv_offsets[OF assms(2)])
  from 1 2 3 show ?thesis by blast
qed

theorem fwd_loop_visits_kv_blocks_witness:
  "kv_offsets 1 (BLOCK_SIZE_Q a_ex2) (BLOCK_SIZE_KV a_ex2) = [0, 64]
   \<and> fwd_loop a_ex2 mem_zero 1 0
       = fwd_body a_ex2 mem_zero 1 (Q_block_of a_ex2 mem_zero 1 0) 64
           (fwd_body a_ex2 mem_zero 1 (Q_block_of a_ex2 mem_zero 1 0) 0
              (fwd_steps a_ex2 mem_zero 1 0 []))
   \<and> bp_offsets (K_block_ptr (fwd_steps a_ex2 mem_zero 1 0 [])) = (0, 0)
   \<and> bp_offsets (K_block_ptr (fwd_steps a_ex2 mem_zero 1 0 [0])) = (0, 64)
   \<and> bp_offsets (V_block_ptr (fwd_steps a_ex2 mem_zero 1 0 [0])) = (64, 0)
   \<and> last (kv_offsets 1 (BLOCK_SIZE_Q a_ex2) (BLOCK_SIZE_KV a_ex2))
       = (1 * BLOCK_SIZE_Q a_ex2 div BLOCK_SIZE_KV a_ex2) * BLOCK_SIZE_KV a_ex2"
proof -
  have p: "0 < BLOCK_SIZE_Q a_ex2" "0 < BLOCK_SIZE_KV a_ex2" by (simp_all add: a_ex2_blocks)
  have e: "kv_offsets 1 (BLOCK_SIZE_Q a_ex2) (BLOCK_SIZE_KV a_ex2) = [0, 64]"
    by (simp add: a_ex2_blocks kv_offsets_def tl_range_def cdiv_def upt_rec)
  note t = fwd_loop_visits_kv_blocks[OF p refl, where q = 1 and mem = mem_zero and bh = 0,
      unfolded e]
  have k0: "fwd_steps a_ex2 mem_zero 1 0 [0]
              = fwd_body a_ex2 mem_zero 1 (Q_block_of a_ex2 mem_zero 1 0) 0
                  (fwd_steps a_ex2 mem_zero 1 0 [])"
    "bp_offsets (K_block_ptr (fwd_steps a_ex2 mem_zero 1 0 [])) = (0, 0)"
    using t[THEN conjunct2, THEN conjunct1, rule_format, of 0] by simp_all
  have k1: "fwd_steps a_ex2 mem_zero 1 0 [0, 64]
              = fwd_body a_ex2 mem_zero 1 (Q_block_of a_ex2 mem_zero 1 0) 64
                  (fwd_steps a_ex2 mem_zero 1 0 [0])"
    "bp_offsets (K_block_ptr (fwd_steps a_ex2 mem_zero 1 0 [0])) = (0, 64)"
    "bp_offsets (V_block_ptr (fwd_steps a_ex2 mem_zero 1 0 [0])) = (64, 0)"
    using t[THEN conjunct2, THEN conjunct1, rule_format, of 1] by simp_all
  have l: "last [0, 64::nat] = (1 * BLOCK_SIZE_Q a_ex2 div BLOCK_SIZE_KV a_ex2) * BLOCK_SIZE_KV a_ex2"
    by (simp add: a_ex2_blocks)
  from t k0 k1 e l show ?thesis by simp
qed

text \<open>
  The claim as stated fails for a query block larger than the key/value block: with block
  sizes 128 and 64 the program of query block 0 runs its body for the offsets 0 and 64.
  Key column 0 lies in the block at offset 0, and the block at offset 64 is visited after
  it.
\<close>

theorem block_beyond_diagonal_counterexample:
  "kv_offsets 0 (BLOCK_SIZE_Q a_wide) (BLOCK_SIZE_KV a_wide) = [0, 64]
   \<and> (0 * BLOCK_SIZE_Q a_wide div BLOCK_SIZE_KV a_wide) * BLOCK_SIZE_KV a_wide = 0
   \<and> fwd_loop a_wide mem_zero 0 0
       = fwd_body a_wide mem_zero 0 (Q_block_of a_wide mem_zero 0 0) 64
           (fwd_body a_wide mem_zero 0 (Q_block_of a_wide mem_zero 0 0) 0
              (fwd_steps a_wide mem_zero 0 0 []))
   \<and> bp_offsets (K_block_ptr (fwd_steps a_wide mem_zero 0 0 [0])) = (0, 64)"
proof -
  have e: "kv_offsets 0 (BLOCK_SIZE_Q a_wide) (BLOCK_SIZE_KV a_wide) = [0, 64]"
    by (simp add: a_ex2_blocks kv_offsets_def tl_range_def cdiv_def upt_rec)
  have s: "fwd_steps a_wide mem_zero 0 0 [0, 64]
           = fwd_body a_wide mem_zero 0 (Q_block_of a_wide mem_zero 0 0) 64
               (fwd_body a_wide mem_zero 0 (Q_block_of a_wide mem_zero 0 0) 0
                  (fwd_steps a_wide mem_zero 0 0 []))"
    using fwd_steps_snoc[of a_wide mem_zero 0 0 "[0]" 64]
      fwd_steps_snoc[of a_wide mem_zero 0 0 "[]" 0] by simp
  have p: "bp_offsets (K_block_ptr (fwd_steps a_wide mem_zero 0 0 [0])) = (0, 64)"
    using fwd_steps_ptrs[of a_wide mem_zero 0 0 "[0]"] by (simp add: a_ex2_blocks)
  show ?thesis unfolding fwd_loop_def e using s p by (simp add: a_ex2_blocks)
qed


section \<open>The output of the forward pass\<close>

text \<open>
  C1. On the example input (three tensors of shape (1, 1, 64, 16), scale 1) the reference
  computation gives 1 for \<open>O[0, 0, 0, 0]\<close>: query row 0 may attend to key row 0
  only. The forward pass returns a number below 1/2 there, farther from the reference
  than the tolerance 1/100 of the test: the score of the masked column 1, lowered by the
  sentinel 1000000, is still the largest of the row.
\<close>

theorem forward_output_far_from_reference:
  "shape Q_ex = [1, 1, 64, 16] \<and> shape K_ex = shape Q_ex \<and> shape V_ex = shape Q_ex
   \<and> ref_O mem_ex Q_ex K_ex V_ex 1 0 0 0 0 = 1
   \<and> (\<exists>x. forward_O rt_ex Q_ex K_ex V_ex 1 mem_ex 0 0 0 0 = Inr x
          \<and> x < 1 / 2
          \<and> 1 / 100 < \<bar>x - ref_O mem_ex Q_ex K_ex V_ex 1 0 0 0 0\<bar>)"
proof -
  let ?L = "\<Sum>j<64. kernel_exp mem_ex Q_ex K_ex 1 0 0 0 j"
  have O: "forward_O rt_ex Q_ex K_ex V_ex 1 mem_ex 0 0 0 0 = Inr (1 / ?L)"
    using forward_O_eq[OF inputs_ex_ok, of 0 0 0 0 1 mem_ex]
    by (simp add: rt_ex_def kernel_O_def visited_ex numer_ex)
  have "1 / ?L \<le> 1 / 3" using denom_ex_ge by (simp add: field_simps)
  then have x: "1 / ?L < 1 / 2" "1 / 100 < \<bar>1 / ?L - 1\<bar>" by simp_all
  have sh: "shape Q_ex = [1, 1, 64, 16]" "shape K_ex = shape Q_ex" "shape V_ex = shape Q_ex"
    by (simp_all add: Q_ex_def K_ex_def V_ex_def)
  from x sh show ?thesis unfolding O ref_O_ex by blast
qed


section \<open>Causal dependence of an output row\<close>

text \<open>
  C3. The two example memories agree on \<open>Q\<close> and \<open>V\<close> and on every row of
  \<open>K\<close> but row 1, a key row after query row 0. Element \<open>[0, 0, 0, 0]\<close> of the
  output of the forward pass is below 1/2 on the one and above 1/2 on the other.
\<close>

theorem forward_row_changes_with_later_key:
  "mem_ex' = mem_ex(data_ptr K_ex + 1 * (stride K_ex ! 2) := 0)
   \<and> (\<exists>x y. forward_O rt_ex Q_ex K_ex V_ex 1 mem_ex 0 0 0 0 = Inr x
            \<and> forward_O rt_ex Q_ex K_ex V_ex 1 mem_ex' 0 0 0 0 = Inr y
            \<and> x < 1 / 2 \<and> 1 / 2 < y)"
proof -
  let ?L = "\<Sum>j<64. kernel_exp mem_ex Q_ex K_ex 1 0 0 0 j"
  let ?L' = "\<Sum>j<64. kernel_exp mem_ex' Q_ex K_ex 1 0 0 0 j"
  have m: "mem_ex' = mem_ex(data_ptr K_ex + 1 * (stride K_ex ! 2) := 0)"
    by (auto simp: mem_ex_def mem_ex'_def K_ex_def fun_eq_iff)
  have 1: "forward_O rt_ex Q_ex K_ex V_ex 1 mem_ex 0 0 0 0 = Inr (1 / ?L)"
    using forward_O_eq[OF inputs_ex_ok, of 0 0 0 0 1 mem_ex]
    by (simp add: rt_ex_def kernel_O_def visited_ex numer_ex)
  have 2: "forward_O rt_ex Q_ex K_ex V_ex 1 mem_ex' 0 0 0 0 = Inr (1 / ?L')"
    using forward_O_eq[OF inputs_ex_ok, of 0 0 0 0 1 mem_ex']
    by (simp add: rt_ex_def kernel_O_def visited_ex numer_ex)
  have "1 / ?L \<le> 1 / 3" using denom_ex_ge by (simp add: field_simps)
  then have x: "1 / ?L < 1 / 2" by simp
  have y: "1 / 2 < 1 / ?L'" using denom_ex'_bounds by (simp add: field_simps)
  from m 1 2 x y show ?thesis by simp
qed


section \<open>The row log-normalizer\<close>

lemma fwd_loop_log_normalizer:
  assumes ok: "fwd_inputs_ok rt Q K V B H S D" and b: "b < B" and h: "h < H" and i: "i < S"
  shows "log_normalizer
           (s_max (fwd_loop (args_of rt Q K V scale) (zero_fill (M_alloc rt) (B * H * S) mem)
                     (i div fst (config rt)) (b * H + h)) (i mod fst (config rt)))
           (softmax_denom (fwd_loop (args_of rt Q K V scale) (zero_fill (M_alloc rt) (B * H * S) mem)
                     (i div fst (config rt)) (b * H + h)) (i mod fst (config rt)))
         = Some (kernel_M (config rt) mem Q K scale b h i)"
proof -
  let ?a = "args_of rt Q K V scale"
  let ?BQ = "fst (config rt)"
  let ?pid = "(i div ?BQ, b * H + h, 0::nat)"
  have q: "row_major4 Q B H S D" and k: "row_major4 K B H S D" and v: "row_major4 V B H S D"
    using ok by (simp_all add: fwd_inputs_ok_def)
  note lok = args_layout_ok[OF ok, of scale]
  note rm = args_of_row_major[OF q, of rt K V scale]
  note pid = pid_in_programs[OF ok b h i, of scale]
  have pos: "0 < BLOCK_SIZE_Q ?a" "0 < BLOCK_SIZE_KV ?a"
    using ok by (simp_all add: fwd_inputs_ok_def args_of_fields[OF q])
  have row: "i div ?BQ * BLOCK_SIZE_Q ?a + i mod ?BQ = i" by (simp add: args_of_fields[OF q])
  have bh: "b * H + h < BATCH_SIZE ?a * NUM_HEADS ?a"
    using pid by (simp add: in_fwd_programs)
  have i': "i < SEQ_LEN ?a" using i by (simp add: args_of_fields[OF q])
  have vis: "visited_cols ?a (i div ?BQ) \<le> SEQ_LEN ?a" using visited_cols_le[OF lok pid] by simp
  show ?thesis
    using fwd_loop_result(2)[OF pos, of "zero_fill (M_alloc rt) (B * H * S) mem" "i div ?BQ"
        "b * H + h" "i mod ?BQ"]
      sums_agree(1)[OF rm zero_fill_reads[OF ok, where mem = mem] bh i' vis]
    by (simp add: row kernel_M_def sums_tensor[OF q k v] visited_cols_args[OF q])
qed

text \<open>
  C4. On the example input the only unmasked score of query row 0 is 0, so the logarithm
  of the sum of the exponentials of its unmasked scores is 0. The value the forward pass
  stores in \<open>M[0, 0, 0]\<close> is the running maximum plus the logarithm of the running
  sum of program (0, 0) after its loop (the program runs on the input memory with the 64
  elements of \<open>M\<close> set to 0), and it is at least 1000000; the exponentials of the
  unmasked scores minus the stored value sum to less than 1/2.
\<close>

theorem log_normalizer_counts_masked_column:
  "score mem_ex Q_ex K_ex 1 0 0 0 0 = 0
   \<and> (\<exists>m. forward_M rt_ex Q_ex K_ex V_ex 1 mem_ex 0 0 0 = Inr m
          \<and> log_normalizer
               (s_max (fwd_loop a_ex (zero_fill (M_alloc rt_ex) 64 mem_ex) 0 0) 0)
               (softmax_denom (fwd_loop a_ex (zero_fill (M_alloc rt_ex) 64 mem_ex) 0 0) 0)
             = Some m
          \<and> 1000000 \<le> m
          \<and> (\<Sum>j<64. if j \<le> 0 then exp (score mem_ex Q_ex K_ex 1 0 0 0 j - m) else 0) < 1 / 2)"
proof -
  let ?L = "\<Sum>j<64. kernel_exp mem_ex Q_ex K_ex 1 0 0 0 j"
  have km: "kernel_M (config rt_ex) mem_ex Q_ex K_ex 1 0 0 0 = ln ?L"
    by (simp add: rt_ex_def kernel_M_def visited_ex)
  have M: "forward_M rt_ex Q_ex K_ex V_ex 1 mem_ex 0 0 0 = Inr (ln ?L)"
    using forward_M_eq[OF inputs_ex_ok, of 0 0 0 1 mem_ex] by (simp add: km)
  have cfg: "fst (config rt_ex) = 64" by (simp add: rt_ex_def)
  have R: "log_normalizer
             (s_max (fwd_loop a_ex (zero_fill (M_alloc rt_ex) 64 mem_ex) 0 0) 0)
             (softmax_denom (fwd_loop a_ex (zero_fill (M_alloc rt_ex) 64 mem_ex) 0 0) 0)
           = Some (ln ?L)"
    using fwd_loop_log_normalizer[OF inputs_ex_ok, where b = 0 and h = 0 and i = 0
        and scale = 1 and mem = mem_ex]
    by (simp add: km cfg a_ex_def)
  have pos: "0 < ?L" using denom_ex_ge by simp
  have ge: "1000000 \<le> ln ?L" using denom_ex_ge_exp pos by (simp add: ln_ge_iff)
  have "(\<Sum>j<64. if j \<le> 0 then exp (score mem_ex Q_ex K_ex 1 0 0 0 j - ln ?L) else 0)
        = (\<Sum>j<(64::nat). if j = 0 then exp (score mem_ex Q_ex K_ex 1 0 0 0 0 - ln ?L) else 0)"
    by (intro sum.cong refl) simp
  also have "\<dots> = exp (score mem_ex Q_ex K_ex 1 0 0 0 0 - ln ?L)" by (simp add: sum.delta)
  also have "\<dots> = 1 / ?L" using pos by (simp add: score_ex exp_minus inverse_eq_divide)
  also have "\<dots> \<le> 1 / 3" using denom_ex_ge by (simp add: field_simps)
  finally have s: "(\<Sum>j<64. if j \<le> 0 then exp (score mem_ex Q_ex K_ex 1 0 0 0 j - ln ?L) else 0)
                   < 1 / 2" by simp
  have z: "score mem_ex Q_ex K_ex 1 0 0 0 0 = 0" by (simp add: score_ex)
  from M R ge s z show ?thesis by blast
qed


section \<open>Masked positions\<close>

text \<open>The blocks the program (0, 0) loads before and in its first iteration.\<close>

definition Q_block_ex :: block2 where
  "Q_block_ex = Q_block_of a_ex mem_ex 0 0"

definition K_block_ex :: block2 where
  "K_block_ex = tl_load mem_ex (make_block_ptr (K_ptr a_ex + qkv_offset_of a_ex 0)
      (HEAD_DIM a_ex, SEQ_LEN a_ex) (stride_K_dim a_ex, stride_K_seq a_ex)
      (0, 0) (HEAD_DIM a_ex, BLOCK_SIZE_KV a_ex))"

definition S_block_ex :: block2 where
  "S_block_ex = S_block_of a_ex 0 0 Q_block_ex K_block_ex"

lemma blocks_ex:
  "c < 16 \<Longrightarrow> Q_block_ex 0 c = (if c = 0 then 2000 else 0)"
  "j < 64 \<Longrightarrow> K_block_ex 0 j = (if j = 1 then 1000 else 0)"
  by (auto simp: Q_block_ex_def Q_block_of_def Let_def K_block_ex_def tl_load_def bp_addr_def
      make_block_ptr_def a_ex_fields qkv_offset_of_def mem_ex_def)

lemma S_block_ex_row0:
  assumes "j < 64"
  shows "S_block_ex 0 j = (if j = 0 then 0 else if j = 1 then 1000000 else - 1000000)"
proof -
  have "(\<Sum>c<16. Q_block_ex 0 c * K_block_ex c j) = Q_block_ex 0 0 * K_block_ex 0 j"
    by (rule sum_only_first) (simp_all add: blocks_ex)
  then show ?thesis
    using assms
    by (simp add: S_block_ex_def S_block_of_def tl_dot_def a_ex_fields causal_mask_def
        inf_val_def blocks_ex)
qed

lemma new_s_max_ex: "new_s_max_of a_ex (\<lambda>r. NegInf) S_block_ex 0 = 1000000"
proof -
  have "Max (S_block_ex 0 ` {..<64}) = 1000000"
  proof (rule Max_eqI)
    show "finite (S_block_ex 0 ` {..<64})" by simp
    show "y \<le> 1000000" if "y \<in> S_block_ex 0 ` {..<64}" for y
      using that by (auto simp: S_block_ex_row0)
    have "S_block_ex 0 1 = 1000000" by (simp add: S_block_ex_row0)
    then show "1000000 \<in> S_block_ex 0 ` {..<64}" by (metis imageI lessThan_iff one_less_numeral_iff semiring_norm(76))
  qed
  then show ?thesis by (simp add: new_s_max_of_def tl_max_axis1_def a_ex_fields)
qed

lemma fwd_loop_ex:
  "fwd_loop a_ex mem_ex 0 0 =
     fwd_body a_ex mem_ex 0 Q_block_ex 0
       \<lparr>s_max = (\<lambda>r. NegInf), softmax_denom = (\<lambda>r. 0), O_block = (\<lambda>r c. 0),
        K_block_ptr = make_block_ptr (K_ptr a_ex + qkv_offset_of a_ex 0)
           (HEAD_DIM a_ex, SEQ_LEN a_ex) (stride_K_dim a_ex, stride_K_seq a_ex)
           (0, 0) (HEAD_DIM a_ex, BLOCK_SIZE_KV a_ex),
        V_block_ptr = make_block_ptr (V_ptr a_ex + qkv_offset_of a_ex 0)
           (SEQ_LEN a_ex, HEAD_DIM a_ex) (stride_V_seq a_ex, stride_V_dim a_ex)
           (0, 0) (BLOCK_SIZE_KV a_ex, HEAD_DIM a_ex)\<rparr>"
proof -
  have k: "kv_offsets 0 (BLOCK_SIZE_Q a_ex) (BLOCK_SIZE_KV a_ex) = [0]"
    by (simp add: a_ex_fields kv_offsets_def tl_range_def cdiv_def)
  show ?thesis
    unfolding fwd_loop_def fwd_steps_def Let_def k qkv_offset_of_def[symmetric] Q_block_ex_def
    by simp
qed

lemma a_ex_fields_V:
  "V_ptr a_ex = 2048" "stride_V_seq a_ex = 16" "stride_V_dim a_ex = 1"
  by (simp_all add: a_ex_def args_of_def Q_ex_def V_ex_def rt_ex_def)

lemma P_block_ex_row0:
  assumes "j < 64"
  shows "P_block_of S_block_ex (new_s_max_of a_ex (\<lambda>r. NegInf) S_block_ex) 0 j
         = (if j = 0 then exp (- 1000000) else if j = 1 then 1 else exp (- 2000000))"
  using assms by (simp add: P_block_of_def new_s_max_ex S_block_ex_row0)

lemma fwd_loop_ex_row0:
  "softmax_denom (fwd_loop a_ex mem_ex 0 0) 0
     = (\<Sum>j<64. P_block_of S_block_ex (new_s_max_of a_ex (\<lambda>r. NegInf) S_block_ex) 0 j)"
  "O_block (fwd_loop a_ex mem_ex 0 0) 0 c
     = (\<Sum>j<64. P_block_of S_block_ex (new_s_max_of a_ex (\<lambda>r. NegInf) S_block_ex) 0 j
                * mem_ex (2048 + j * 16 + c))"
  unfolding fwd_loop_ex fwd_body_def Let_def S_block_ex_def K_block_ex_def
  by (simp_all add: tl_sum_axis1_def tl_dot_def a_ex_fields a_ex_fields_V tl_load_def bp_addr_def
      make_block_ptr_def qkv_offset_of_def)

lemma sum_only_at:
  fixes f :: "nat \<Rightarrow> real"
  assumes "k < n" "\<And>c. c < n \<Longrightarrow> c \<noteq> k \<Longrightarrow> f c = 0"
  shows "(\<Sum>c<n. f c) = f k"
proof -
  have "(\<Sum>c<n. f c) = (\<Sum>c<n. if c = k then f k else 0)"
    by (rule sum.cong) (use assms in auto)
  also have "\<dots> = f k" using assms(1) by (simp add: sum.delta)
  finally show ?thesis .
qed

lemma V_ex_col1: "mem_ex (2049 + j * 16) = (if j = 1 then 1 else 0)"
proof -
  have "2049 + j * 16 \<noteq> 1040" "2049 + j * 16 \<noteq> 2048" by presburger+
  moreover have "2049 + j * 16 = 2065 \<longleftrightarrow> j = 1" by presburger
  ultimately show ?thesis by (simp add: mem_ex_def)
qed

text \<open>
  C8. In the only iteration of program (0, 0) on the example input, position (0, 1) of
  the score block is masked out and its exponential \<open>P\<close> is 1, not 0: the masked
  score is the maximum of its row. The position adds 1 to the denominator of row 0, which
  is at least 1 after the loop, and through row 1 of \<open>V\<close> it puts 1 into column 1 of
  the accumulator of row 0, where the one unmasked position, key row 0, has the value 0.
\<close>

theorem masked_position_keeps_weight:
  "\<not> causal_mask 0 (BLOCK_SIZE_Q a_ex) 0 0 1
   \<and> P_block_of S_block_ex (new_s_max_of a_ex (\<lambda>r. NegInf) S_block_ex) 0 1 = 1
   \<and> 1 \<le> softmax_denom (fwd_loop a_ex mem_ex 0 0) 0
   \<and> O_block (fwd_loop a_ex mem_ex 0 0) 0 1 = 1
   \<and> tensor_at mem_ex V_ex 0 0 0 1 = 0"
proof -
  let ?P = "P_block_of S_block_ex (new_s_max_of a_ex (\<lambda>r. NegInf) S_block_ex)"
  have m: "\<not> causal_mask 0 (BLOCK_SIZE_Q a_ex) 0 0 1" by (simp add: causal_mask_def)
  have p: "?P 0 1 = 1" by (simp add: P_block_ex_row0)
  have "?P 0 1 \<le> (\<Sum>j<64. ?P 0 j)"
    by (rule member_le_sum) (simp_all add: P_block_of_def)
  then have "1 \<le> (\<Sum>j<64. ?P 0 j)" unfolding p .
  then have d: "1 \<le> softmax_denom (fwd_loop a_ex mem_ex 0 0) 0"
    by (simp only: fwd_loop_ex_row0)
  have s: "(\<Sum>j<64. ?P 0 j * mem_ex (2048 + j * 16 + 1)) = ?P 0 1 * mem_ex (2048 + 1 * 16 + 1)"
    by (rule sum_only_at) (simp_all add: V_ex_col1)
  have v1: "mem_ex (2048 + 1 * 16 + 1) = 1" by (simp add: mem_ex_def)
  have o: "O_block (fwd_loop a_ex mem_ex 0 0) 0 1 = 1"
    unfolding fwd_loop_ex_row0(2) s v1 p by simp
  have v: "tensor_at mem_ex V_ex 0 0 0 1 = 0"
    by (simp add: tensor_at_def V_ex_def mem_ex_def)
  from m p d o v show ?thesis by blast
qed



section \<open>What \<open>forward\<close> returns\<close>

lemma unpack4_Inr:
  assumes "unpack4 xs = Inr p"
  shows "xs = [fst p, fst (snd p), fst (snd (snd p)), snd (snd (snd p))]"
  using assms by (cases xs rule: unpack4.cases) auto

text \<open>
  C5 (as amended). Whenever \<open>forward\<close> returns, what it returns is the tensor \<open>O\<close>
  alone; \<open>M\<close> is not returned: it is kept, after \<open>Q\<close>, \<open>K\<close>, \<open>V\<close> and \<open>O\<close>, among
  the tensors saved on \<open>ctx\<close> for the backward pass.
\<close>

theorem forward_returns_O_and_saves_M:
  assumes "forward rt Q K V scale mem = Inr res"
  shows "returned res = PyTensor (O_of rt Q)
       \<and> saved_tensors (fwd_ctx res) = [Q, K, V, O_of rt Q, M_of rt Q]"
proof -
  from assms obtain p where p: "unpack4 (shape Q) = Inr p"
    by (auto simp: forward_def ebind_def split: sum.splits)
  have t: "take 3 (shape Q) = [fst p, fst (snd p), fst (snd (snd p))]"
    by (subst unpack4_Inr[OF p]) simp
  show ?thesis
    using assms p
    by (auto simp: forward_def ebind_def Let_def O_of_def M_of_def t split: sum.splits)
qed

theorem forward_returns_O_and_saves_M_witness:
  "forward rt_ex Q_ex K_ex V_ex 1 mem_ex =
     Inr \<lparr>returned = PyTensor (O_of rt_ex Q_ex),
          fwd_ctx = \<lparr>saved_tensors = [Q_ex, K_ex, V_ex, O_of rt_ex Q_ex, M_of rt_ex Q_ex],
                     attrs = [(''grid'', AttrGrid (fwd_grid 64 1 1)),
                              (''softmax_scale'', AttrFloat 1)]\<rparr>,
          heap = fwd_heap rt_ex Q_ex K_ex V_ex 1 mem_ex\<rparr>
   \<and> returned (projr (forward rt_ex Q_ex K_ex V_ex 1 mem_ex)) = PyTensor (O_of rt_ex Q_ex)
   \<and> saved_tensors (fwd_ctx (projr (forward rt_ex Q_ex K_ex V_ex 1 mem_ex)))
       = [Q_ex, K_ex, V_ex, O_of rt_ex Q_ex, M_of rt_ex Q_ex]"
proof -
  note e = forward_heap[OF inputs_ex_ok, of 1 mem_ex]
  from forward_returns_O_and_saves_M[OF e] e show ?thesis by simp
qed

text \<open>
  The claim as stated fails: on the example input the value returned is the tensor
  \<open>O\<close>, not the pair of \<open>O\<close> and \<open>M\<close>.
\<close>

theorem forward_returns_pair_counterexample:
  "map_sum id returned (forward rt_ex Q_ex K_ex V_ex 1 mem_ex) = Inr (PyTensor (O_of rt_ex Q_ex))
   \<and> map_sum id returned (forward rt_ex Q_ex K_ex V_ex 1 mem_ex)
       \<noteq> Inr (PyTuple [PyTensor (O_of rt_ex Q_ex), PyTensor (M_of rt_ex Q_ex)])"
  by (simp add: forward_heap[OF inputs_ex_ok])

section \<open>The checks of the host code\<close>

text \<open>Keys and values of 128 rows, against the 64 query rows of the example.\<close>

definition K_long :: tensor where
  "K_long = \<lparr>data_ptr = 1024, shape = [1, 1, 128, 16], stride = [2048, 2048, 16, 1]\<rparr>"

definition V_long :: tensor where
  "V_long = \<lparr>data_ptr = 4096, shape = [1, 1, 128, 16], stride = [2048, 2048, 16, 1]\<rparr>"

definition rt_long :: runtime where
  "rt_long = \<lparr>O_alloc = 8192, M_alloc = 10240, config = (64, 64)\<rparr>"

text \<open>Keys with head dimension 8.\<close>

definition K_narrow :: tensor where
  "K_narrow = \<lparr>data_ptr = 1024, shape = [1, 1, 64, 8], stride = [512, 512, 8, 1]\<rparr>"

text \<open>An output gradient for the example: row-major, and the same tensor transposed in
  its last two axes.\<close>

definition dO_ex :: tensor where
  "dO_ex = \<lparr>data_ptr = 5120, shape = [1, 1, 64, 16], stride = [1024, 1024, 16, 1]\<rparr>"

definition dO_transposed :: tensor where
  "dO_transposed = \<lparr>data_ptr = 5120, shape = [1, 1, 16, 64], stride = [1024, 1024, 1, 16]\<rparr>"

definition brt_ex :: bwd_runtime where
  "brt_ex = \<lparr>dQ_alloc = 6144, dK_alloc = 7168, dV_alloc = 8192, D_alloc = 9216\<rparr>"

definition ctx_ex :: ctx where
  "ctx_ex = \<lparr>saved_tensors = [Q_ex, K_ex, V_ex, O_of rt_ex Q_ex, M_of rt_ex Q_ex],
             attrs = [(''grid'', AttrGrid (fwd_grid 64 1 1)), (''softmax_scale'', AttrFloat 1)]\<rparr>"

definition dO_ex2 :: tensor where
  "dO_ex2 = \<lparr>data_ptr = 10240, shape = [1, 1, 128, 16], stride = [2048, 2048, 16, 1]\<rparr>"

definition brt_ex2 :: bwd_runtime where
  "brt_ex2 = \<lparr>dQ_alloc = 12288, dK_alloc = 14336, dV_alloc = 16384, D_alloc = 18432\<rparr>"

definition ctx_ex2 :: ctx where
  "ctx_ex2 = \<lparr>saved_tensors = [Q_ex2, K_ex2, V_ex2, O_of rt_ex2 Q_ex2, M_of rt_ex2 Q_ex2],
              attrs = [(''grid'', AttrGrid (fwd_grid 128 1 1)), (''softmax_scale'', AttrFloat 1)]\<rparr>"

lemma fwd_launch_runs:
  assumes "0 < BLOCK_SIZE_Q a" "0 < BLOCK_SIZE_KV a"
  shows "run_programs (attn_fwd a) ps m = Inr (fold (fwd_writes a) ps m)"
  by (rule run_programs_total) (rule attn_fwd_closed[OF assms])

lemma forward_head_dim_mismatch:
  assumes "shape Q \<noteq> []" "shape K \<noteq> []" "shape V \<noteq> []"
    and "\<not> (last (shape Q) = last (shape K) \<and> last (shape K) = last (shape V))"
  shows "forward rt Q K V scale mem = Inl AssertionError"
  using assms
  by (auto simp: forward_def shape_last_def ebind_def py_assert_def split: list.splits)

lemma backward_assertions:
  assumes "saved_tensors c = [Q, K, V, O', M]"
    and "\<not> is_contiguous dO
         \<or> \<not> (stride Q = stride K \<and> stride K = stride V \<and> stride V = stride O'
               \<and> stride O' = stride dO)"
  shows "backward brt c dO mem = Inl AssertionError"
  using assms by (auto simp: backward_def ebind_def py_assert_def Let_def)

text \<open>
  C9 (as amended). A head dimension that differs among \<open>Q\<close>, \<open>K\<close> and \<open>V\<close> makes
  \<open>forward\<close> fail its assertion, and an output gradient that is not contiguous, or
  strides that differ among \<open>Q\<close>, \<open>K\<close>, \<open>V\<close>, \<open>O\<close> and \<open>dO\<close>, make \<open>backward\<close>
  fail its assertions: the call ends with AssertionError before any kernel is launched
  and returns no tensor. No other dimension is compared.
\<close>

theorem shape_and_stride_assertions:
  "(shape Q \<noteq> [] \<and> shape K \<noteq> [] \<and> shape V \<noteq> []
      \<and> \<not> (last (shape Q) = last (shape K) \<and> last (shape K) = last (shape V))
     \<longrightarrow> forward rt Q K V scale mem = Inl AssertionError)
   \<and> (saved_tensors c = [Q', K', V', O', M']
      \<and> (\<not> is_contiguous dO
         \<or> \<not> (stride Q' = stride K' \<and> stride K' = stride V' \<and> stride V' = stride O'
               \<and> stride O' = stride dO))
     \<longrightarrow> backward brt c dO mem' = Inl AssertionError)"
  using forward_head_dim_mismatch[of Q K V rt scale mem]
    backward_assertions[of c Q' K' V' O' M' dO brt mem']
  by blast

theorem shape_and_stride_assertions_witness:
  "last (shape K_narrow) \<noteq> last (shape Q_ex)
   \<and> forward rt_ex Q_ex K_narrow V_ex 1 mem_ex = Inl AssertionError
   \<and> \<not> is_contiguous dO_transposed
   \<and> backward brt_ex ctx_ex dO_transposed mem_ex = Inl AssertionError"
proof -
  have 1: "shape Q_ex \<noteq> [] \<and> shape K_narrow \<noteq> [] \<and> shape V_ex \<noteq> []
      \<and> \<not> (last (shape Q_ex) = last (shape K_narrow) \<and> last (shape K_narrow) = last (shape V_ex))"
    by (simp add: Q_ex_def K_narrow_def V_ex_def)
  have 2: "\<not> is_contiguous dO_transposed"
    by (simp add: is_contiguous_def dO_transposed_def)
  have 3: "saved_tensors ctx_ex = [Q_ex, K_ex, V_ex, O_of rt_ex Q_ex, M_of rt_ex Q_ex]"
    by (simp add: ctx_ex_def)
  from shape_and_stride_assertions[of Q_ex K_narrow V_ex rt_ex 1 mem_ex ctx_ex Q_ex K_ex V_ex
      "O_of rt_ex Q_ex" "M_of rt_ex Q_ex" dO_transposed brt_ex mem_ex] 1 2 3
  show ?thesis by (simp add: Q_ex_def K_narrow_def)
qed

text \<open>
  The claim as stated fails: keys and values with 128 rows against 64 query rows pass
  the only check of \<open>forward\<close>, and the call runs the kernel and returns.
\<close>

theorem sequence_mismatch_undetected_counterexample:
  "shape K_long \<noteq> shape Q_ex \<and> \<not> isl (forward rt_long Q_ex K_long V_long 1 mem_ex)"
proof -
  have r: "O_alloc rt_long = 8192" "M_alloc rt_long = 10240" "config rt_long = (64, 64)"
    by (simp_all add: rt_long_def)
  have s: "strides4 Q_ex = Inr (1024, 1024, 16, 1)" "strides4 K_long = Inr (2048, 2048, 16, 1)"
    "strides4 V_long = Inr (2048, 2048, 16, 1)"
    "strides4 (empty_like 8192 Q_ex) = Inr (1024, 1024, 16, 1)"
    "strides3 (zeros_tensor 10240 [1, 1, 64]) = Inr (64, 64, 1)"
    by (simp_all add: strides4_def strides3_def stride_at_def ebind_def Q_ex_def K_long_def
        V_long_def empty_like_def zeros_tensor_def is_contiguous_def)
  have "\<exists>a. fwd_kernel_args (64, 64) Q_ex K_long V_long (empty_like 8192 Q_ex)
          (zeros_tensor 10240 [1, 1, 64]) 1 1 1 64 16 = Inr a
        \<and> BLOCK_SIZE_Q a = 64 \<and> BLOCK_SIZE_KV a = 64"
    unfolding fwd_kernel_args_def s by (simp add: ebind_def)
  then obtain a where a: "fwd_kernel_args (64, 64) Q_ex K_long V_long (empty_like 8192 Q_ex)
          (zeros_tensor 10240 [1, 1, 64]) 1 1 1 64 16 = Inr a"
    and b: "0 < BLOCK_SIZE_Q a" "0 < BLOCK_SIZE_KV a" by auto
  have sl: "shape_last Q_ex = Inr 16" "shape_last K_long = Inr 16" "shape_last V_long = Inr 16"
    "unpack4 (shape Q_ex) = Inr (1, 1, 64, 16)"
    by (simp_all add: shape_last_def Q_ex_def K_long_def V_long_def)
  have "\<not> isl (forward rt_long Q_ex K_long V_long 1 mem_ex)"
    unfolding forward_def r sl
    by (simp add: ebind_def py_assert_def Let_def a[simplified] fwd_launch_runs[OF b])
  then show ?thesis by (simp add: K_long_def Q_ex_def)
qed

section \<open>\<open>backward\<close> as it stands\<close>

lemma backward_never_returns: "isl (backward brt c dO mem)"
  by (auto simp: backward_def ebind_def Let_def call_Size_def split: sum.splits)

lemma take3_unpack:
  assumes "3 \<le> length xs"
  shows "unpack3 (take 3 xs) = Inr (xs ! 0, xs ! 1, xs ! 2)"
proof -
  from assms obtain a b c ys where "xs = a # b # c # ys"
    by (metis Suc_le_length_iff numeral_3_eq_3)
  then show ?thesis by simp
qed

lemma backward_raises_at_shape_call:
  assumes "saved_tensors c = [Q, K, V, O', M]" "is_contiguous dO"
    "stride Q = stride K \<and> stride K = stride V \<and> stride V = stride O' \<and> stride O' = stride dO"
    "3 \<le> length (shape Q)"
  shows "backward brt c dO mem = Inl (TypeError ''torch.Size object is not callable'')"
  using assms(1,2,3)
  by (simp add: backward_def ebind_def Let_def py_assert_def take3_unpack[OF assms(4)]
      call_Size_def)

lemma dk_dv_launch_never_runs: "isl (launch_bwd_dk_dv kws n BH mem)"
  by (simp add: launch_bwd_dk_dv_def triton_cdiv_def ebind_def split: sum.splits)

lemma forward_sets_no_head_dim:
  assumes "forward rt Q K V scale mem = Inr res"
  shows "getattr (fwd_ctx res) ''head_dim'' = Inl (AttributeError ''head_dim'')"
  using assms
  by (auto simp: forward_def ebind_def Let_def getattr_def split: sum.splits)

text \<open>
  C10. \<open>backward\<close> never returns: whatever its input, the call ends with an exception.
  When the saved tensors are the five of \<open>forward\<close>, the stride assertions pass and
  \<open>Q\<close> has at least three axes, the exception is the TypeError of \<^verbatim>\<open>Q.shape(3)\<close>,
  raised before any kernel is launched. Further on, the grid of the dK/dV launch divides
  by a string, which raises TypeError, so that launch fails whatever it is given, and
  \<open>ctx.head_dim\<close> is an attribute \<open>forward\<close> never sets, which raises AttributeError.
\<close>

theorem backward_always_raises:
  "isl (backward brt c dO mem)
   \<and> (saved_tensors c = [Q, K, V, O', M] \<and> is_contiguous dO
      \<and> stride Q = stride K \<and> stride K = stride V \<and> stride V = stride O' \<and> stride O' = stride dO
      \<and> 3 \<le> length (shape Q)
     \<longrightarrow> backward brt c dO mem = Inl (TypeError ''torch.Size object is not callable''))
   \<and> triton_cdiv (PyInt n) (PyStr ''BLOCK_SIZE_SEQ'')
       = Inl (TypeError ''unsupported operand types for +'')
   \<and> isl (launch_bwd_dk_dv kws SEQ_LEN' BH lmem)
   \<and> (forward rt Q2 K2 V2 scale fmem = Inr res
     \<longrightarrow> getattr (fwd_ctx res) ''head_dim'' = Inl (AttributeError ''head_dim''))"
  using backward_never_returns[of brt c dO mem]
    backward_raises_at_shape_call[of c Q K V O' M dO brt mem]
    forward_sets_no_head_dim[of rt Q2 K2 V2 scale fmem res]
    dk_dv_launch_never_runs[of kws SEQ_LEN' BH lmem]
  by (simp add: triton_cdiv_def ebind_def)

theorem backward_always_raises_witness:
  "is_contiguous dO_ex2
   \<and> stride (O_of rt_ex2 Q_ex2) = stride dO_ex2
   \<and> backward brt_ex2 ctx_ex2 dO_ex2 mem_zero = Inl (TypeError ''torch.Size object is not callable'')
   \<and> fwd_ctx (projr (forward rt_ex2 Q_ex2 K_ex2 V_ex2 1 mem_zero)) = ctx_ex2
   \<and> getattr ctx_ex2 ''head_dim'' = Inl (AttributeError ''head_dim'')"
proof -
  note f = forward_heap[OF inputs_ex2_ok, of 1 mem_zero]
  have c: "is_contiguous dO_ex2" by (simp add: is_contiguous_def dO_ex2_def)
  have s: "stride Q_ex2 = stride K_ex2 \<and> stride K_ex2 = stride V_ex2
           \<and> stride V_ex2 = stride (O_of rt_ex2 Q_ex2) \<and> stride (O_of rt_ex2 Q_ex2) = stride dO_ex2"
    by (simp add: Q_ex2_def K_ex2_def V_ex2_def dO_ex2_def O_of_def empty_like_def is_contiguous_def)
  have l: "3 \<le> length (shape Q_ex2)" by (simp add: Q_ex2_def)
  have t: "saved_tensors ctx_ex2 = [Q_ex2, K_ex2, V_ex2, O_of rt_ex2 Q_ex2, M_of rt_ex2 Q_ex2]"
    by (simp add: ctx_ex2_def)
  have x: "fwd_ctx (projr (forward rt_ex2 Q_ex2 K_ex2 V_ex2 1 mem_zero)) = ctx_ex2"
    by (simp add: f ctx_ex2_def)
  from backward_always_raises[of brt_ex2 ctx_ex2 dO_ex2 mem_zero Q_ex2 K_ex2 V_ex2
      "O_of rt_ex2 Q_ex2" "M_of rt_ex2 Q_ex2" 0 "[]" 0 0 mem_zero rt_ex2 Q_ex2 K_ex2 V_ex2 1
      mem_zero "projr (forward rt_ex2 Q_ex2 K_ex2 V_ex2 1 mem_zero)"] c s l t x f
  show ?thesis by simp
qed

text \<open>
  C2. \<open>backward\<close> on the context and the memory a forward call on the example input
  leaves behind, with a row-major output gradient: the call raises TypeError; no
  gradient is returned.
\<close>

theorem backward_example_raises:
  "backward brt_ex (fwd_ctx (projr (forward rt_ex Q_ex K_ex V_ex 1 mem_ex))) dO_ex
     (heap (projr (forward rt_ex Q_ex K_ex V_ex 1 mem_ex)))
   = Inl (TypeError ''torch.Size object is not callable'')"
proof -
  have c: "is_contiguous dO_ex" by (simp add: is_contiguous_def dO_ex_def)
  have s: "stride Q_ex = stride K_ex \<and> stride K_ex = stride V_ex
           \<and> stride V_ex = stride (O_of rt_ex Q_ex) \<and> stride (O_of rt_ex Q_ex) = stride dO_ex"
    by (simp add: Q_ex_def K_ex_def V_ex_def dO_ex_def O_of_def empty_like_def is_contiguous_def)
  have l: "3 \<le> length (shape Q_ex)" by (simp add: Q_ex_def)
  show ?thesis
    unfolding forward_heap[OF inputs_ex_ok]
    by (rule backward_raises_at_shape_call[OF _ c s l]) simp
qed

section \<open>The preprocessing kernel as it stands\<close>

text \<open>
  An input of the preprocessing kernel: two batches, one head, 64 rows of 16 columns;
  \<open>O\<close> row-major at address 4096 with every element 1, \<open>dO\<close> row-major at 6144 with
  every element 2, \<open>D\<close> row-major at 8192; one block of 64 rows.
\<close>

definition pre_ex :: pre_args where
  "pre_ex = \<lparr>pre_O = 4096, pre_dO = 6144, pre_D = 8192,
     pre_stride_O_batch = 1024, pre_stride_O_head = 1024, pre_stride_O_seq = 16,
     pre_stride_O_dim = 1,
     pre_stride_dO_batch = 1024, pre_stride_dO_head = 1024, pre_stride_dO_seq = 16,
     pre_stride_dO_dim = 1,
     pre_stride_D_batch = 64, pre_stride_D_head = 64, pre_stride_D_seq = 1,
     pre_NUM_HEADS = 1, pre_SEQ_LEN = 64, pre_HEAD_DIM = 16, pre_BLOCK_SIZE_SEQ = 64\<rparr>"

definition mem_pre :: memory where
  "mem_pre = (\<lambda>a. if 4096 \<le> a \<and> a < 6144 then 1 else if 6144 \<le> a \<and> a < 8192 then 2 else 0)"

lemma pre_ex_program0:
  "attn_bwd_preprocess pre_ex (0, 0, 0) mem_pre =
     tl_store_vec 64 (\<lambda>r. 8192 + r) (\<lambda>r. \<Sum>c<16. mem_pre (r * 16 + c) * mem_pre (r * 16 + c)) mem_pre"
  by (simp add: attn_bwd_preprocess_def pre_ex_def tl_load_ptrs_def tl_sum_axis1_def)

lemma pre_ex_program1:
  "attn_bwd_preprocess pre_ex (0, 1, 0) mem_pre =
     tl_store_vec 64 (\<lambda>r. 8192 + (128 + r))
       (\<lambda>r. \<Sum>c<16. mem_pre (1024 + r * 16 + c) * mem_pre (1024 + r * 16 + c)) mem_pre"
  by (simp add: attn_bwd_preprocess_def pre_ex_def tl_load_ptrs_def tl_sum_axis1_def add.assoc)

lemma low_memory_zero: "r < 64 \<Longrightarrow> c < 16 \<Longrightarrow> mem_pre (r * 16 + c) = 0"
  "r < 64 \<Longrightarrow> c < 16 \<Longrightarrow> mem_pre (1024 + r * 16 + c) = 0"
  by (simp_all add: mem_pre_def)

text \<open>
  C6. On this input the claim asks for \<open>D[b, 0, r] = 32\<close>. The program of batch 0 stores
  0 in \<open>D[0, 0, 0]\<close>: its loads dereference the offsets, not \<open>O\<close> and \<open>dO\<close>. The
  program of batch 1 leaves \<open>D[1, 0, 0]\<close> as it was and stores past the 128 elements of
  \<open>D\<close>: its store offset takes the batch-head index where the head index belongs.
\<close>

theorem preprocess_example_wrong:
  "(\<Sum>c<16. mem_pre (pre_O pre_ex + c) * mem_pre (pre_dO pre_ex + c)) = 32
   \<and> attn_bwd_preprocess pre_ex (0, 0, 0) mem_pre (pre_D pre_ex + 0) = 0
   \<and> attn_bwd_preprocess pre_ex (0, 1, 0) mem_pre (pre_D pre_ex + 1 * pre_stride_D_batch pre_ex)
       = mem_pre (pre_D pre_ex + 1 * pre_stride_D_batch pre_ex)
   \<and> attn_bwd_preprocess pre_ex (0, 1, 0) mem_pre (pre_D pre_ex + 128) = 0"
proof -
  have v: "(\<Sum>c<16. mem_pre (pre_O pre_ex + c) * mem_pre (pre_dO pre_ex + c)) = 32"
  proof -
    have "(\<Sum>c<16. mem_pre (pre_O pre_ex + c) * mem_pre (pre_dO pre_ex + c)) = (\<Sum>c<(16::nat). 2)"
      by (intro sum.cong refl) (simp add: pre_ex_def mem_pre_def)
    then show ?thesis by simp
  qed
  have inj0: "inj_on (\<lambda>r. 8192 + r) {..<64::nat}" by (rule inj_onI) simp
  have inj1: "inj_on (\<lambda>r. 8192 + (128 + r)) {..<64::nat}" by (rule inj_onI) simp
  have z0: "(\<Sum>c<16. mem_pre (0 * 16 + c) * mem_pre (0 * 16 + c)) = 0"
    by (intro sum.neutral ballI) (simp add: mem_pre_def)
  have z1: "(\<Sum>c<16. mem_pre (1024 + 0 * 16 + c) * mem_pre (1024 + 0 * 16 + c)) = 0"
    by (intro sum.neutral ballI) (simp add: mem_pre_def)
  have a: "attn_bwd_preprocess pre_ex (0, 0, 0) mem_pre (8192 + 0) = 0"
    unfolding pre_ex_program0 using tl_store_vec_at[OF inj0, of 0] z0 by simp
  have b: "attn_bwd_preprocess pre_ex (0, 1, 0) mem_pre 8256 = mem_pre 8256"
    unfolding pre_ex_program1 by (rule tl_store_vec_other) simp
  have c: "attn_bwd_preprocess pre_ex (0, 1, 0) mem_pre (8192 + (128 + 0)) = 0"
    unfolding pre_ex_program1 using tl_store_vec_at[OF inj1, of 0] z1 by simp
  have p: "pre_D pre_ex = 8192" "pre_stride_D_batch pre_ex = 64" by (simp_all add: pre_ex_def)
  show ?thesis using v a b c by (simp add: p)
qed


end
